theory Spec2Isabelle
  imports Main "HOL-Library.AList" "HOL-Library.Sublist"
begin

section \<open>The document tree\<close>

text \<open>
  The program works on an lxml element tree.  An element has a tag, attributes, an optional
  text (\<open>None\<close> for an element without text, as \<open>Element.text\<close> is in lxml) and
  its child elements in document order.
\<close>

datatype element =
  Element (el_tag: string) (el_attrib: "(string \<times> string) list")
          (el_text: "string option") (el_children: "element list")

text \<open>\<open>element.get(key)\<close>: the attribute, or \<open>None\<close>.\<close>

definition get :: "element \<Rightarrow> string \<Rightarrow> string option" where
  "get element key = map_of (el_attrib element) key"

text \<open>\<open>element.find(tag)\<close>: the first direct child with that tag, or \<open>None\<close>.\<close>

definition find_el :: "element \<Rightarrow> string \<Rightarrow> element option" where
  "find_el element t = List.find (\<lambda>c. el_tag c = t) (el_children element)"

text \<open>\<open>element.findall(tag)\<close>: the direct children with that tag, in document order.\<close>

definition findall :: "element \<Rightarrow> string \<Rightarrow> element list" where
  "findall element t = filter (\<lambda>c. el_tag c = t) (el_children element)"

text \<open>Assignments \<open>tag.text = v\<close>, and the tree with one element's children replaced.\<close>

definition set_text :: "element \<Rightarrow> string option \<Rightarrow> element" where
  "set_text element v = Element (el_tag element) (el_attrib element) v (el_children element)"

definition set_children :: "element \<Rightarrow> element list \<Rightarrow> element" where
  "set_children element cs = Element (el_tag element) (el_attrib element) (el_text element) cs"

section \<open>Errors and results\<close>

text \<open>
  The exceptions the methods can raise: \<open>None.findall\<close> and \<open>None.text\<close> raise
  AttributeError, \<open>pattern in None\<close> raises TypeError, a failed \<open>assert\<close> raises
  AssertionError.  A method that mutates its state \<open>'s\<close> returns \<open>Inr\<close> the final
  state, or \<open>Inl\<close> the exception with the state as it was when the exception was raised.
\<close>

datatype error = AttributeError | TypeError | AssertionError

type_synonym 's result = "(error \<times> 's) + 's"

text \<open>\<open>for x in xs: body(x)\<close> on a state, stopping at the first exception.\<close>

fun for_each :: "('a \<Rightarrow> 's \<Rightarrow> 's result) \<Rightarrow> 'a list \<Rightarrow> 's \<Rightarrow> 's result" where
  "for_each body [] s = Inr s"
| "for_each body (x # xs) s =
     (case body x s of Inl e \<Rightarrow> Inl e | Inr s' \<Rightarrow> for_each body xs s')"

text \<open>
  \<open>for c in parent.findall(tag): body(c)\<close> where the body mutates the child in place:
  the children that satisfy \<open>P\<close> are replaced by what the body makes of them, the others
  stay, and an exception leaves the later children as they were.
\<close>

fun update_where ::
  "(element \<Rightarrow> bool) \<Rightarrow> (element \<Rightarrow> element result) \<Rightarrow> element list \<Rightarrow> element list result"
where
  "update_where P body [] = Inr []"
| "update_where P body (c # cs) =
     (if P c then
        (case body c of
           Inl (e, c') \<Rightarrow> Inl (e, c' # cs)
         | Inr c' \<Rightarrow>
             (case update_where P body cs of
                Inl (e, cs') \<Rightarrow> Inl (e, c' # cs')
              | Inr cs' \<Rightarrow> Inr (c' # cs')))
      else
        (case update_where P body cs of
           Inl (e, cs') \<Rightarrow> Inl (e, c # cs')
         | Inr cs' \<Rightarrow> Inr (c # cs')))"

text \<open>The same for the one child that \<open>parent.find(tag)\<close> returns.\<close>

fun update_first ::
  "(element \<Rightarrow> bool) \<Rightarrow> (element \<Rightarrow> element result) \<Rightarrow> element list \<Rightarrow> element list result"
where
  "update_first P body [] = Inr []"
| "update_first P body (c # cs) =
     (if P c then
        (case body c of
           Inl (e, c') \<Rightarrow> Inl (e, c' # cs)
         | Inr c' \<Rightarrow> Inr (c' # cs))
      else
        (case update_first P body cs of
           Inl (e, cs') \<Rightarrow> Inl (e, c # cs')
         | Inr cs' \<Rightarrow> Inr (c # cs')))"

definition with_children :: "element \<Rightarrow> element list result \<Rightarrow> element result" where
  "with_children element r =
     (case r of
        Inl (e, cs) \<Rightarrow> Inl (e, set_children element cs)
      | Inr cs \<Rightarrow> Inr (set_children element cs))"

section \<open>Strings\<close>

text \<open>Python's \<open>pat in s\<close> on strings: \<open>pat\<close> occurs in \<open>s\<close> as a contiguous run.\<close>

fun str_contains :: "string \<Rightarrow> string \<Rightarrow> bool" where
  "str_contains [] pat = (pat = [])"
| "str_contains (c # cs) pat = (prefix pat (c # cs) \<or> str_contains cs pat)"

text \<open>The decimal numeral of a natural number, as an f-string formats an int.\<close>

definition digit_char :: "nat \<Rightarrow> char" where
  "digit_char d = ''0123456789'' ! d"

function str_nat :: "nat \<Rightarrow> string" where
  "str_nat n = (if n < 10 then [digit_char n] else str_nat (n div 10) @ [digit_char (n mod 10)])"
  by pat_completeness auto
termination
  by (relation "measure id") auto

declare str_nat.simps [simp del]

section \<open>The instrument manager\<close>

text \<open>
  A rename map is the dict \<open>{"original name": ..., "swap name": ...}\<close>.  The dicts of
  the program keep insertion order and are association lists with distinct keys:
  \<open>d[k] = v\<close> is \<open>AList.update k v d\<close> (an existing key keeps its place, a new one goes
  to the end) and \<open>d.get(k)\<close> is \<open>map_of d k\<close>.  An element without an \<open>id\<close>
  attribute has the id \<open>None\<close>, which is a key like any other.
\<close>

record rename_map =
  original_name :: string
  swap_name :: string

type_synonym swap_map = "(string \<times> string) list"
type_synonym rename_dict = "(string option \<times> rename_map) list"
type_synonym counter = "(string \<times> nat) list"

record instrument_manager =
  root :: element
  instrument_swap_map :: swap_map
  instrument_rename_dict :: rename_dict
  part_rename_dict :: rename_dict
  instrument_counter :: counter
  part_counter :: counter

text \<open>A \<open>Counter\<close> reads 0 at a missing key; \<open>counter[k] += 1\<close> reads, then stores.\<close>

definition counter_get :: "counter \<Rightarrow> string \<Rightarrow> nat" where
  "counter_get counter k = (case map_of counter k of None \<Rightarrow> 0 | Some n \<Rightarrow> n)"

definition counter_incr :: "counter \<Rightarrow> string \<Rightarrow> counter" where
  "counter_incr counter k = AList.update k (counter_get counter k + 1) counter"

subsection \<open>The swap map\<close>

definition wind :: "string list" where
  "wind = [''Piccolo'', ''Alto Flute'', ''Bass Flute'', ''Flutes'', ''Flute'',
           ''Oboes'', ''Oboe'', ''English Horn'', ''Contrabass Clarinet'',
           ''Bass Clarinet'', ''Eb Clarinet'', ''Clarinets'', ''Clarinet'',
           ''Contrabassoon'', ''Bassoons'', ''Bassoon'', ''Cor Anglais'']"

definition horn :: "string list" where
  "horn = [''12 French Horns'', ''2 French Horns'', ''4 French Horns'']"

definition brass :: "string list" where
  "brass = [''Horn Ensemble'', ''CineBrass French Horn'', ''2 Trumpets'',
            ''Trumpet Ensemble'', ''Trumpet'', ''Bass Trombone'', ''Trombones'',
            ''Trombone Ensemble'', ''Trombone'', ''Tuba'']"

definition percussion :: "string list" where
  "percussion = [''Timpani'', ''Cymbals'', ''Glockenspiel'', ''Marimba'',
                 ''Vibraphone'', ''Bass Drum 36in'', ''Bowed Gongs'']"

definition keys :: "string list" where
  "keys = [''Harp'']"

definition voice :: "string list" where
  "voice = [''Sopranos'', ''Full Chorus'', ''Boys Choir'', ''Solo Soprano'']"

definition strings :: "string list" where
  "strings = [''Violin 1'', ''Violin 2'', ''Viola'', ''Cello'', ''Bass'',
              ''Violins 1'', ''Violins 2'', ''Violas'', ''Cellos'', ''Basses'']"

definition sections :: "(string \<times> string list) list" where
  "sections = [(''wind'', wind), (''horn'', horn), (''brass'', brass),
               (''percussion'', percussion), (''keys'', keys), (''voice'', voice),
               (''strings'', strings)]"

definition create_instrument_swap_map :: swap_map where
  "create_instrument_swap_map =
    (let swap_map = [];
         swap_map = fold (\<lambda>(section, instruments).
                       fold (\<lambda>instrument. AList.update instrument instrument) instruments)
                     sections swap_map;
         swap_map = AList.update ''Cor Anglais'' ''English Horn'' swap_map;
         swap_map = fold (\<lambda>i. AList.update (''Berlin Brass Horn '' @ str_nat i) ''French Horn'')
                     [1..<5] swap_map;
         swap_map = AList.update ''Horn Ensemble'' ''4 French Horns'' swap_map;
         swap_map = AList.update ''CineBrass French Horn'' ''French Horn'' swap_map;
         swap_map = AList.update ''Trumpet Ensemble'' ''2 Trumpets'' swap_map;
         swap_map = AList.update ''Trombone Ensemble'' ''Trombones'' swap_map;
         swap_map = fold (\<lambda>perc_inst. AList.update (''CinePerc '' @ perc_inst) perc_inst)
                     percussion swap_map;
         swap_map = fold (\<lambda>voice_inst. AList.update (''VOXOS '' @ voice_inst) voice_inst)
                     voice swap_map;
         swap_map = fold (\<lambda>string_inst.
                       AList.update (''Cinestrings Solo '' @ string_inst) (''Solo '' @ string_inst))
                     [''Violin 1'', ''Violin 2'', ''Viola'', ''Cello'', ''Bass''] swap_map;
         swap_map = fold (\<lambda>string_inst swap_map.
                       AList.update (''First Chair '' @ string_inst) (''Solo '' @ string_inst)
                         (AList.update (''Cinestrings Solo '' @ string_inst)
                            (''Solo '' @ string_inst) swap_map))
                     [''Violin 1'', ''Violin 2'', ''Viola'', ''Cello'', ''Bass''] swap_map;
         swap_map = fold (\<lambda>string_inst.
                       AList.update (''Berlin Strings '' @ string_inst) string_inst)
                     [''Violins 1'', ''Violins 2'', ''Violas'', ''Cellos'', ''Basses''] swap_map;
         swap_map = AList.update ''Spitfire Chamber Strings Violins I'' ''Violins 1'' swap_map;
         swap_map = AList.update ''Spitfire Chamber Strings Violins II'' ''Violins 2'' swap_map;
         swap_map = fold (\<lambda>string_inst.
                       AList.update (''Spitfire Chamber Strings '' @ string_inst) string_inst)
                     [''Violas'', ''Cellos'', ''Basses''] swap_map
     in swap_map)"

text \<open>\<open>InstrumentManager(tree)\<close>: the root of the tree, the swap map, empty dicts and counters.\<close>

definition InstrumentManager :: "element \<Rightarrow> instrument_manager" where
  "InstrumentManager tree_root =
     \<lparr> root = tree_root,
       instrument_swap_map = create_instrument_swap_map,
       instrument_rename_dict = [],
       part_rename_dict = [],
       instrument_counter = [],
       part_counter = [] \<rparr>"

subsection \<open>Discovery\<close>

text \<open>
  \<open>_find_generic_name(name, counter)\<close>: the loop over the swap map's keys in insertion
  order.  The first key that occurs in the name increments the counter of its swap name and
  returns the rename map with the numbered swap name; no key returns \<open>None\<close>.  The name
  is the \<open>text\<close> of an element and may be \<open>None\<close>, on which \<open>in\<close> raises
  TypeError.  The result carries the counter as the call leaves it.
\<close>

fun find_generic_name ::
  "swap_map \<Rightarrow> string option \<Rightarrow> counter \<Rightarrow> error + (rename_map option \<times> counter)"
where
  "find_generic_name [] name counter = Inr (None, counter)"
| "find_generic_name ((instrument, sname) # rest) name counter =
     (case name of
        None \<Rightarrow> Inl TypeError
      | Some n \<Rightarrow>
          if str_contains n instrument then
            (let counter = counter_incr counter sname;
                 numbered_swap_name = sname @ '' '' @ str_nat (counter_get counter sname)
             in Inr (Some \<lparr> original_name = n, swap_name = numbered_swap_name \<rparr>, counter))
          else find_generic_name rest name counter)"

text \<open>The body of the loop over the \<open>part-name\<close> children of a score part.\<close>

definition discover_part_name ::
  "string option \<Rightarrow> element \<Rightarrow> instrument_manager \<Rightarrow> instrument_manager result"
where
  "discover_part_name part_id part_name self =
     (case find_generic_name (instrument_swap_map self) (el_text part_name) (part_counter self) of
        Inl e \<Rightarrow> Inl (e, self)
      | Inr (rename_map, counter) \<Rightarrow>
          (let self = self\<lparr> part_counter := counter \<rparr> in
           case rename_map of
             None \<Rightarrow> Inr self
           | Some rm \<Rightarrow>
               Inr (self\<lparr> part_rename_dict := AList.update part_id rm (part_rename_dict self) \<rparr>)))"

text \<open>The body of the loop over the \<open>score-instrument\<close> children of a score part.\<close>

definition discover_score_instrument ::
  "element \<Rightarrow> instrument_manager \<Rightarrow> instrument_manager result"
where
  "discover_score_instrument score_instrument self =
     (let instrument_id = get score_instrument ''id'' in
      case find_el score_instrument ''instrument-name'' of
        None \<Rightarrow> Inl (AttributeError, self)
      | Some instrument_name \<Rightarrow>
          (case find_generic_name (instrument_swap_map self) (el_text instrument_name)
                  (instrument_counter self) of
             Inl e \<Rightarrow> Inl (e, self)
           | Inr (rename_map, counter) \<Rightarrow>
               (let self = self\<lparr> instrument_counter := counter \<rparr> in
                case rename_map of
                  None \<Rightarrow> Inr self
                | Some rm \<Rightarrow>
                    Inr (self\<lparr> instrument_rename_dict :=
                                 AList.update instrument_id rm (instrument_rename_dict self) \<rparr>))))"

text \<open>The body of the loop over the \<open>score-part\<close> children of the part list.\<close>

definition discover_score_part ::
  "element \<Rightarrow> instrument_manager \<Rightarrow> instrument_manager result"
where
  "discover_score_part score_part self =
     (let part_id = get score_part ''id'' in
      case for_each (discover_part_name part_id) (findall score_part ''part-name'') self of
        Inl e \<Rightarrow> Inl e
      | Inr self \<Rightarrow>
          for_each discover_score_instrument (findall score_part ''score-instrument'') self)"

definition find_generic_instrument_names ::
  "instrument_manager \<Rightarrow> element \<Rightarrow> instrument_manager result"
where
  "find_generic_instrument_names self root_el =
     (case find_el root_el ''part-list'' of
        None \<Rightarrow> Inl (AttributeError, self)
      | Some part_list \<Rightarrow>
          for_each discover_score_part (findall part_list ''score-part'') self)"

subsection \<open>Cleanup\<close>

text \<open>
  \<open>_cleanup(counter, rename_dict)\<close>: for every swap name counted once, in the counter's
  order, every rename map whose swap name is that name followed by \<open>" 1"\<close> gets the bare
  name.  The rename maps are changed in place, so the dict keeps its keys and their order.
\<close>

definition cleanup :: "counter \<Rightarrow> rename_dict \<Rightarrow> rename_dict" where
  "cleanup counter rename_dict =
     fold (\<lambda>(sname, count) rename_dict.
             if count = 1 then
               (let numbered_swap_name = sname @ '' 1'' in
                map (\<lambda>(element_id, rename_map).
                       (element_id,
                        if swap_name rename_map = numbered_swap_name
                        then rename_map\<lparr> swap_name := sname \<rparr> else rename_map))
                    rename_dict)
             else rename_dict)
          counter rename_dict"

definition cleanup_names :: "instrument_manager \<Rightarrow> instrument_manager" where
  "cleanup_names self =
     (let self = self\<lparr> instrument_rename_dict :=
                        cleanup (instrument_counter self) (instrument_rename_dict self) \<rparr>;
          self = self\<lparr> part_rename_dict :=
                        cleanup (part_counter self) (part_rename_dict self) \<rparr>
      in self)"

subsection \<open>Apply\<close>

text \<open>
  \<open>_rename_element(element, rename_dict, tag_name)\<close>: when the dict has a rename map for
  the element's id, every child with the tag is checked against the original name and then
  gets the swap name.  The assertion comes before the assignment, so a failing child keeps
  its text; the children before it have been renamed already.
\<close>

definition rename_element :: "element \<Rightarrow> rename_dict \<Rightarrow> string \<Rightarrow> element result" where
  "rename_element element rename_dict tag_name =
     (let element_id = get element ''id'' in
      case map_of rename_dict element_id of
        None \<Rightarrow> Inr element
      | Some rename_map \<Rightarrow>
          with_children element
            (update_where (\<lambda>c. el_tag c = tag_name)
               (\<lambda>tag. if el_text tag = Some (original_name rename_map)
                       then Inr (set_text tag (Some (swap_name rename_map)))
                       else Inl (AssertionError, tag))
               (el_children element)))"

text \<open>The body of the loop over the score parts in \<open>rename_instruments\<close>.\<close>

definition rename_score_part :: "instrument_manager \<Rightarrow> element \<Rightarrow> element result" where
  "rename_score_part self score_part =
     (case rename_element score_part (part_rename_dict self) ''part-name'' of
        Inl e \<Rightarrow> Inl e
      | Inr score_part \<Rightarrow>
          with_children score_part
            (update_where (\<lambda>c. el_tag c = ''score-instrument'')
               (\<lambda>score_instrument.
                  rename_element score_instrument (instrument_rename_dict self) ''instrument-name'')
               (el_children score_part)))"

definition rename_instruments :: "instrument_manager \<Rightarrow> element \<Rightarrow> element result" where
  "rename_instruments self root_el =
     (case find_el root_el ''part-list'' of
        None \<Rightarrow> Inl (AttributeError, root_el)
      | Some _ \<Rightarrow>
          with_children root_el
            (update_first (\<lambda>c. el_tag c = ''part-list'')
               (\<lambda>part_list.
                  with_children part_list
                    (update_where (\<lambda>c. el_tag c = ''score-part'') (rename_score_part self)
                       (el_children part_list)))
               (el_children root_el)))"

subsection \<open>The pipeline\<close>

definition process_xml :: "instrument_manager \<Rightarrow> instrument_manager result" where
  "process_xml self =
     (case find_generic_instrument_names self (root self) of
        Inl e \<Rightarrow> Inl e
      | Inr self \<Rightarrow>
          (let self = cleanup_names self in
           case rename_instruments self (root self) of
             Inl (e, r) \<Rightarrow> Inl (e, self\<lparr> root := r \<rparr>)
           | Inr r \<Rightarrow> Inr (self\<lparr> root := r \<rparr>)))"

section \<open>Notions of the specification\<close>

text \<open>
  Resolution as the specification words it: scan the table in insertion order and return
  the family of the first raw pattern that occurs in the raw name as a contiguous sublist.
\<close>

definition resolve :: "swap_map \<Rightarrow> string \<Rightarrow> string option" where
  "resolve table raw_name =
     map_option snd (List.find (\<lambda>(pattern, family). sublist pattern raw_name) table)"

definition family_of :: "swap_map \<Rightarrow> string option \<Rightarrow> string option" where
  "family_of table label = (case label of None \<Rightarrow> None | Some raw_name \<Rightarrow> resolve table raw_name)"

text \<open>
  The entities of a document in traversal order, each with its identifier and its label:
  a part entity for every \<open>part-name\<close> of every score part, an instrument entity for
  every score instrument, labelled by its first \<open>instrument-name\<close>.
\<close>

definition score_parts :: "element \<Rightarrow> element list" where
  "score_parts root_el =
     (case find_el root_el ''part-list'' of
        None \<Rightarrow> []
      | Some part_list \<Rightarrow> findall part_list ''score-part'')"

definition part_entities_of :: "element \<Rightarrow> (string option \<times> string option) list" where
  "part_entities_of score_part =
     map (\<lambda>part_name. (get score_part ''id'', el_text part_name))
         (findall score_part ''part-name'')"

definition instrument_label :: "element \<Rightarrow> string option" where
  "instrument_label score_instrument =
     (case find_el score_instrument ''instrument-name'' of
        None \<Rightarrow> None
      | Some instrument_name \<Rightarrow> el_text instrument_name)"

definition instrument_entities_of :: "element \<Rightarrow> (string option \<times> string option) list" where
  "instrument_entities_of score_part =
     map (\<lambda>score_instrument. (get score_instrument ''id'', instrument_label score_instrument))
         (findall score_part ''score-instrument'')"

definition part_entities :: "element \<Rightarrow> (string option \<times> string option) list" where
  "part_entities root_el = concat (map part_entities_of (score_parts root_el))"

definition instrument_entities :: "element \<Rightarrow> (string option \<times> string option) list" where
  "instrument_entities root_el = concat (map instrument_entities_of (score_parts root_el))"

text \<open>How many of the entities resolve to a family.\<close>

definition occurrences :: "swap_map \<Rightarrow> string \<Rightarrow> (string option \<times> string option) list \<Rightarrow> nat" where
  "occurrences table family ents =
     length (filter (\<lambda>(k, label). family_of table label = Some family) ents)"

text \<open>
  What discovery does to one namespace (a counter and its rename dict) at one entity, and
  at a list of entities.
\<close>

definition discover_entity ::
  "swap_map \<Rightarrow> string option \<times> string option \<Rightarrow> counter \<times> rename_dict \<Rightarrow> counter \<times> rename_dict"
where
  "discover_entity table ent st =
     (case family_of table (snd ent) of
        None \<Rightarrow> st
      | Some family \<Rightarrow>
          (counter_incr (fst st) family,
           AList.update (fst ent)
             \<lparr> original_name = the (snd ent),
               swap_name = family @ '' '' @ str_nat (counter_get (fst st) family + 1) \<rparr>
             (snd st)))"

definition part_state :: "instrument_manager \<Rightarrow> counter \<times> rename_dict" where
  "part_state self = (part_counter self, part_rename_dict self)"

definition instrument_state :: "instrument_manager \<Rightarrow> counter \<times> rename_dict" where
  "instrument_state self = (instrument_counter self, instrument_rename_dict self)"


text \<open>Discovery and cleanup leave the tree and the swap map of the manager alone.\<close>

definition same_setup :: "instrument_manager \<Rightarrow> instrument_manager \<Rightarrow> bool" where
  "same_setup self self' \<longleftrightarrow>
     root self' = root self \<and> instrument_swap_map self' = instrument_swap_map self"

text \<open>
  What cleanup makes of one swap name: the counter's entries in order, each stripping the
  \<open>" 1"\<close> of its own numbered name when it was counted once.
\<close>

definition cleanup_name :: "counter \<Rightarrow> string \<Rightarrow> string" where
  "cleanup_name counter s =
     fold (\<lambda>(sname, count) s. if count = 1 \<and> s = sname @ '' 1'' then sname else s) counter s"

text \<open>
  What discovery keeps true of a namespace: the counter has distinct keys, all of them
  families of the table, and every proposed name is a family followed by a number between
  1 and the family's count.
\<close>

definition numbered_plan :: "swap_map \<Rightarrow> counter \<times> rename_dict \<Rightarrow> bool" where
  "numbered_plan table st \<longleftrightarrow>
     distinct (map fst (fst st))
     \<and> fst ` set (fst st) \<subseteq> snd ` set table
     \<and> (\<forall>(k, rm) \<in> set (snd st).
          \<exists>family n. swap_name rm = family @ '' '' @ str_nat n
                     \<and> 1 \<le> n \<and> n \<le> counter_get (fst st) family)"

section \<open>What apply may change\<close>

text \<open>
  The state a call leaves behind, whether it returned or raised.  The labels apply may
  write are the \<open>part-name\<close> children of the score parts that have a plan entry and
  the \<open>instrument-name\<close> children of the score instruments that have one, under the
  first part list; \<open>blank_planned_labels\<close> erases the text of exactly these and keeps
  everything else of the tree.
\<close>

definition final :: "'s result \<Rightarrow> 's" where
  "final r = (case r of Inl (e, s) \<Rightarrow> s | Inr s \<Rightarrow> s)"

fun map_first :: "('a \<Rightarrow> bool) \<Rightarrow> ('a \<Rightarrow> 'a) \<Rightarrow> 'a list \<Rightarrow> 'a list" where
  "map_first P g [] = []"
| "map_first P g (c # cs) = (if P c then g c # cs else c # map_first P g cs)"

definition blank_labels :: "rename_dict \<Rightarrow> string \<Rightarrow> element \<Rightarrow> element" where
  "blank_labels rename_dict tag_name element =
     (case map_of rename_dict (get element ''id'') of
        None \<Rightarrow> element
      | Some _ \<Rightarrow>
          set_children element
            (map (\<lambda>c. if el_tag c = tag_name then set_text c None else c) (el_children element)))"

definition blank_score_part :: "instrument_manager \<Rightarrow> element \<Rightarrow> element" where
  "blank_score_part self score_part =
     set_children score_part
       (map (\<lambda>c. if el_tag c = ''part-name'' then
                    (if map_of (part_rename_dict self) (get score_part ''id'') = None then c
                     else set_text c None)
                  else if el_tag c = ''score-instrument'' then
                    blank_labels (instrument_rename_dict self) ''instrument-name'' c
                  else c)
          (el_children score_part))"

definition blank_planned_labels :: "instrument_manager \<Rightarrow> element \<Rightarrow> element" where
  "blank_planned_labels self root_el =
     set_children root_el
       (map_first (\<lambda>c. el_tag c = ''part-list'')
          (\<lambda>part_list.
             set_children part_list
               (map (\<lambda>c. if el_tag c = ''score-part'' then blank_score_part self c else c)
                  (el_children part_list)))
          (el_children root_el))"

section \<open>What apply does\<close>

text \<open>
  What a successful \<open>_rename_element\<close> makes of an element, and when it succeeds: an
  element with a plan entry gets the proposed name in every child with the tag, provided
  every such child carries the recorded original name.  \<open>apply_plan\<close> is the tree
  after a successful \<open>rename_instruments\<close>: under the first part list, every score part
  and every score instrument relabelled.  \<open>in_first_part_list\<close> replaces the children
  of the first part list.
\<close>

definition relabel :: "rename_dict \<Rightarrow> string \<Rightarrow> element \<Rightarrow> element" where
  "relabel rename_dict tag_name element =
     (case map_of rename_dict (get element ''id'') of
        None \<Rightarrow> element
      | Some rename_map \<Rightarrow>
          set_children element
            (map (\<lambda>c. if el_tag c = tag_name then set_text c (Some (swap_name rename_map)) else c)
               (el_children element)))"

definition consistent :: "rename_dict \<Rightarrow> string \<Rightarrow> element \<Rightarrow> bool" where
  "consistent rename_dict tag_name element =
     (case map_of rename_dict (get element ''id'') of
        None \<Rightarrow> True
      | Some rename_map \<Rightarrow>
          list_all (\<lambda>c. el_text c = Some (original_name rename_map)) (findall element tag_name))"

definition relabel_instruments :: "instrument_manager \<Rightarrow> element list \<Rightarrow> element list" where
  "relabel_instruments self cs =
     map (\<lambda>c. if el_tag c = ''score-instrument''
               then relabel (instrument_rename_dict self) ''instrument-name'' c else c) cs"

definition relabel_score_part :: "instrument_manager \<Rightarrow> element \<Rightarrow> element" where
  "relabel_score_part self score_part =
     set_children score_part
       (relabel_instruments self
          (el_children (relabel (part_rename_dict self) ''part-name'' score_part)))"

definition relabel_score_parts :: "instrument_manager \<Rightarrow> element list \<Rightarrow> element list" where
  "relabel_score_parts self cs =
     map (\<lambda>c. if el_tag c = ''score-part'' then relabel_score_part self c else c) cs"

definition in_first_part_list :: "element \<Rightarrow> (element \<Rightarrow> element list) \<Rightarrow> element" where
  "in_first_part_list root_el new_children =
     set_children root_el
       (map_first (\<lambda>c. el_tag c = ''part-list'')
          (\<lambda>part_list. set_children part_list (new_children part_list))
          (el_children root_el))"

definition apply_plan :: "instrument_manager \<Rightarrow> element \<Rightarrow> element" where
  "apply_plan self root_el =
     in_first_part_list root_el (\<lambda>part_list. relabel_score_parts self (el_children part_list))"

definition consistent_score_part :: "instrument_manager \<Rightarrow> element \<Rightarrow> bool" where
  "consistent_score_part self score_part \<longleftrightarrow>
     consistent (part_rename_dict self) ''part-name'' score_part
     \<and> list_all (consistent (instrument_rename_dict self) ''instrument-name'')
          (findall score_part ''score-instrument'')"

definition consistent_document :: "instrument_manager \<Rightarrow> element \<Rightarrow> bool" where
  "consistent_document self root_el = list_all (consistent_score_part self) (score_parts root_el)"

section \<open>A second run\<close>

text \<open>
  What a run leaves behind, namespace by namespace, and two facts about the table on which
  a second run rests.  Both facts are decided by evaluating them on the table.
\<close>

text \<open>
  The characters of a decimal numeral.
\<close>

definition is_digit :: "char \<Rightarrow> bool" where
  "is_digit c \<longleftrightarrow> c \<in> set ''0123456789''"

text \<open>
  A pattern straddles the numbering of a family when it ends in a space followed by digits
  only, and what is before that space is an end of the family: such a pattern could occur
  in a numbered name "<family> <N>" without occurring in the family.
\<close>

definition straddles :: "string \<Rightarrow> string \<Rightarrow> bool" where
  "straddles pattern family =
     list_ex (\<lambda>i. pattern ! i = CHR '' '' \<and> list_all is_digit (drop (Suc i) pattern)
                  \<and> suffix (take i pattern) family)
       [0..<length pattern]"

text \<open>
  The table is suffix stable when every pattern has a character that is neither a space
  nor a digit and no pattern straddles the numbering of a family.  Then a numbered name
  resolves as its family does.
\<close>

definition suffix_stable :: "swap_map \<Rightarrow> bool" where
  "suffix_stable table \<longleftrightarrow>
     list_all (\<lambda>(pattern, _).
                 list_ex (\<lambda>c. c \<noteq> CHR '' '' \<and> \<not> is_digit c) pattern
                 \<and> list_all (\<lambda>family. \<not> straddles pattern family) (map snd table))
       table"

text \<open>
  The shadows of the table are checked when every family other than "French Horn" either
  resolves to itself or belongs to a pattern that contains an earlier pattern, so that its
  own pattern is never the first match.  Then a family that resolution returns resolves
  to itself, unless it is "French Horn".
\<close>

definition shadows_checked :: "swap_map \<Rightarrow> bool" where
  "shadows_checked table \<longleftrightarrow>
     list_all (\<lambda>i. snd (table ! i) = ''French Horn''
                  \<or> resolve table (snd (table ! i)) = Some (snd (table ! i))
                  \<or> list_ex (\<lambda>i'. sublist (fst (table ! i')) (fst (table ! i))) [0..<i])
       [0..<length table]"

text \<open>
  The label that a run gives the entity at index \<open>j\<close> of a namespace, when no other
  entity has its identifier: the label it has if the table does not match it, its family
  alone if the family occurs once, and the family with the entity's rank otherwise.
\<close>

definition normalized_label ::
  "swap_map \<Rightarrow> (string option \<times> string option) list \<Rightarrow> nat \<Rightarrow> string option"
where
  "normalized_label table ents j =
     (case family_of table (snd (ents ! j)) of
        None \<Rightarrow> snd (ents ! j)
      | Some family \<Rightarrow>
          Some (if occurrences table family ents = 1 then family
                else family @ '' '' @ str_nat (occurrences table family (take (Suc j) ents))))"

text \<open>
  The entities of a namespace with these labels.
\<close>

definition normalized_entities ::
  "swap_map \<Rightarrow> (string option \<times> string option) list \<Rightarrow> (string option \<times> string option) list"
where
  "normalized_entities table ents =
     map (\<lambda>j. (fst (ents ! j), normalized_label table ents j)) [0..<length ents]"

text \<open>
  The entity that a plan makes of an entity: the proposed name of its plan entry, if it
  has one.
\<close>

definition planned_label ::
  "rename_dict \<Rightarrow> string option \<times> string option \<Rightarrow> string option \<times> string option"
where
  "planned_label plan ent =
     (fst ent, case map_of plan (fst ent) of None \<Rightarrow> snd ent | Some rm \<Rightarrow> Some (swap_name rm))"

text \<open>
  The texts of the children of an element with a tag: the label fields that
  \<open>_rename_element\<close> visits.
\<close>

definition labels :: "string \<Rightarrow> element \<Rightarrow> string option list" where
  "labels tag_name element = map el_text (findall element tag_name)"

section \<open>An example score\<close>

text \<open>
  Three score parts: two flutes and a part the table does not know, with a flute, a
  branded timpani and another flute as their instruments.
\<close>

definition example_score :: element where
  "example_score =
     Element ''score-partwise'' [(''version'', ''3.1'')] None
       [Element ''work'' [] None [Element ''work-title'' [] (Some ''Example'') []],
        Element ''part-list'' [] None
          [Element ''score-part'' [(''id'', ''P1'')] None
             [Element ''part-name'' [] (Some ''Flute'') [],
              Element ''score-instrument'' [(''id'', ''P1-I1'')] None
                [Element ''instrument-name'' [] (Some ''Flute'') []]],
           Element ''score-part'' [(''id'', ''P2'')] None
             [Element ''part-name'' [] (Some ''Flute'') [],
              Element ''score-instrument'' [(''id'', ''P2-I1'')] None
                [Element ''instrument-name'' [] (Some ''CinePerc Timpani'') []]],
           Element ''score-part'' [(''id'', ''P3'')] None
             [Element ''part-name'' [] (Some ''Kazoo'') [],
              Element ''score-instrument'' [(''id'', ''P3-I1'')] None
                [Element ''instrument-name'' [] (Some ''Flute'') []]]],
        Element ''part'' [(''id'', ''P1'')] None []]"

text \<open>The manager after discovery on the example score.\<close>

definition example_discovered :: instrument_manager where
  "example_discovered =
     (InstrumentManager example_score)
       \<lparr> instrument_rename_dict :=
           [(Some ''P1-I1'', \<lparr> original_name = ''Flute'', swap_name = ''Flute 1'' \<rparr>),
            (Some ''P2-I1'', \<lparr> original_name = ''CinePerc Timpani'', swap_name = ''Timpani 1'' \<rparr>),
            (Some ''P3-I1'', \<lparr> original_name = ''Flute'', swap_name = ''Flute 2'' \<rparr>)],
         part_rename_dict :=
           [(Some ''P1'', \<lparr> original_name = ''Flute'', swap_name = ''Flute 1'' \<rparr>),
            (Some ''P2'', \<lparr> original_name = ''Flute'', swap_name = ''Flute 2'' \<rparr>)],
         instrument_counter := [(''Flute'', 2), (''Timpani'', 1)],
         part_counter := [(''Flute'', 2)] \<rparr>"

text \<open>
  The example score after a whole run, and as apply leaves it when the plan entry of part
  P2, or of instrument P2-I1, records a name the score does not have any more.
\<close>

definition example_normalized :: element where
  "example_normalized =
     Element ''score-partwise'' [(''version'', ''3.1'')] None
       [Element ''work'' [] None [Element ''work-title'' [] (Some ''Example'') []],
        Element ''part-list'' [] None
          [Element ''score-part'' [(''id'', ''P1'')] None
             [Element ''part-name'' [] (Some ''Flute 1'') [],
              Element ''score-instrument'' [(''id'', ''P1-I1'')] None
                [Element ''instrument-name'' [] (Some ''Flute 1'') []]],
           Element ''score-part'' [(''id'', ''P2'')] None
             [Element ''part-name'' [] (Some ''Flute 2'') [],
              Element ''score-instrument'' [(''id'', ''P2-I1'')] None
                [Element ''instrument-name'' [] (Some ''Timpani'') []]],
           Element ''score-part'' [(''id'', ''P3'')] None
             [Element ''part-name'' [] (Some ''Kazoo'') [],
              Element ''score-instrument'' [(''id'', ''P3-I1'')] None
                [Element ''instrument-name'' [] (Some ''Flute 2'') []]]],
        Element ''part'' [(''id'', ''P1'')] None []]"

definition example_failed_at_part :: element where
  "example_failed_at_part =
     Element ''score-partwise'' [(''version'', ''3.1'')] None
       [Element ''work'' [] None [Element ''work-title'' [] (Some ''Example'') []],
        Element ''part-list'' [] None
          [Element ''score-part'' [(''id'', ''P1'')] None
             [Element ''part-name'' [] (Some ''Flute 1'') [],
              Element ''score-instrument'' [(''id'', ''P1-I1'')] None
                [Element ''instrument-name'' [] (Some ''Flute 1'') []]],
           Element ''score-part'' [(''id'', ''P2'')] None
             [Element ''part-name'' [] (Some ''Flute'') [],
              Element ''score-instrument'' [(''id'', ''P2-I1'')] None
                [Element ''instrument-name'' [] (Some ''CinePerc Timpani'') []]],
           Element ''score-part'' [(''id'', ''P3'')] None
             [Element ''part-name'' [] (Some ''Kazoo'') [],
              Element ''score-instrument'' [(''id'', ''P3-I1'')] None
                [Element ''instrument-name'' [] (Some ''Flute'') []]]],
        Element ''part'' [(''id'', ''P1'')] None []]"

definition example_failed_at_instrument :: element where
  "example_failed_at_instrument =
     Element ''score-partwise'' [(''version'', ''3.1'')] None
       [Element ''work'' [] None [Element ''work-title'' [] (Some ''Example'') []],
        Element ''part-list'' [] None
          [Element ''score-part'' [(''id'', ''P1'')] None
             [Element ''part-name'' [] (Some ''Flute 1'') [],
              Element ''score-instrument'' [(''id'', ''P1-I1'')] None
                [Element ''instrument-name'' [] (Some ''Flute 1'') []]],
           Element ''score-part'' [(''id'', ''P2'')] None
             [Element ''part-name'' [] (Some ''Flute 2'') [],
              Element ''score-instrument'' [(''id'', ''P2-I1'')] None
                [Element ''instrument-name'' [] (Some ''CinePerc Timpani'') []]],
           Element ''score-part'' [(''id'', ''P3'')] None
             [Element ''part-name'' [] (Some ''Kazoo'') [],
              Element ''score-instrument'' [(''id'', ''P3-I1'')] None
                [Element ''instrument-name'' [] (Some ''Flute'') []]]],
        Element ''part'' [(''id'', ''P1'')] None []]"

definition stale_part_plan :: instrument_manager where
  "stale_part_plan =
     (cleanup_names example_discovered)
       \<lparr> part_rename_dict :=
           [(Some ''P1'', \<lparr> original_name = ''Flute'', swap_name = ''Flute 1'' \<rparr>),
            (Some ''P2'', \<lparr> original_name = ''Oboe'', swap_name = ''Oboe 1'' \<rparr>)] \<rparr>"

definition stale_instrument_plan :: instrument_manager where
  "stale_instrument_plan =
     (cleanup_names example_discovered)
       \<lparr> instrument_rename_dict :=
           [(Some ''P1-I1'', \<lparr> original_name = ''Flute'', swap_name = ''Flute 1'' \<rparr>),
            (Some ''P2-I1'', \<lparr> original_name = ''Oboe'', swap_name = ''Oboe 1'' \<rparr>),
            (Some ''P3-I1'', \<lparr> original_name = ''Flute'', swap_name = ''Flute 2'' \<rparr>)] \<rparr>"

section \<open>More example scores\<close>

text \<open>
  A score with one part, a score whose part list is empty, a score without a part list,
  the score of the violins and the harp, and a score whose instrument has no
  \<open>instrument-name\<close>.  The families below are those an earlier, shorter pattern
  shadows.
\<close>

definition single_part_score :: "string \<Rightarrow> element" where
  "single_part_score label =
     Element ''score-partwise'' [] None
       [Element ''part-list'' [] None
          [Element ''score-part'' [(''id'', ''P1'')] None
             [Element ''part-name'' [] (Some label) []]]]"

definition empty_part_list_score :: element where
  "empty_part_list_score =
     Element ''score-partwise'' [] None
       [Element ''work'' [] None [], Element ''part-list'' [] None []]"

definition violins_harp_score :: element where
  "violins_harp_score =
     Element ''score-partwise'' [] None
       [Element ''part-list'' [] None
          [Element ''score-part'' [(''id'', ''P1'')] None
             [Element ''part-name'' [] (Some ''Violins 1'') []],
           Element ''score-part'' [(''id'', ''P2'')] None
             [Element ''part-name'' [] (Some ''Violins 2'') []],
           Element ''score-part'' [(''id'', ''P3'')] None
             [Element ''part-name'' [] (Some ''Harp'') []]]]"

definition no_part_list_score :: element where
  "no_part_list_score =
     Element ''score-partwise'' [] None [Element ''work'' [] None []]"

definition nameless_instrument_score :: element where
  "nameless_instrument_score =
     Element ''score-partwise'' [] None
       [Element ''part-list'' [] None
          [Element ''score-part'' [(''id'', ''P1'')] None
             [Element ''part-name'' [] (Some ''Flute'') [],
              Element ''score-instrument'' [(''id'', ''P1-I1'')] None
                [Element ''instrument-abbreviation'' [] (Some ''Fl.'') []]]]]"

definition shadowed_families :: "string list" where
  "shadowed_families =
     [''Solo Violin 1'', ''Solo Violin 2'', ''Solo Viola'', ''Solo Cello'', ''Solo Bass'',
      ''Violas'', ''Cellos'', ''Basses'']"

section \<open>The swap map as built\<close>

text \<open>
  The table that \<open>_create_instrument_swap_map\<close> returns, entry by entry.  The overrides of
  keys that a section has inserted already keep the key's place; the other overrides follow
  the sections.
\<close>

lemma create_instrument_swap_map_value [code]:
  "create_instrument_swap_map =
    [(''Piccolo'', ''Piccolo''), (''Alto Flute'', ''Alto Flute''),
     (''Bass Flute'', ''Bass Flute''), (''Flutes'', ''Flutes''), (''Flute'', ''Flute''),
     (''Oboes'', ''Oboes''), (''Oboe'', ''Oboe''), (''English Horn'', ''English Horn''),
     (''Contrabass Clarinet'', ''Contrabass Clarinet''),
     (''Bass Clarinet'', ''Bass Clarinet''), (''Eb Clarinet'', ''Eb Clarinet''),
     (''Clarinets'', ''Clarinets''), (''Clarinet'', ''Clarinet''),
     (''Contrabassoon'', ''Contrabassoon''), (''Bassoons'', ''Bassoons''),
     (''Bassoon'', ''Bassoon''), (''Cor Anglais'', ''English Horn''),
     (''12 French Horns'', ''12 French Horns''), (''2 French Horns'', ''2 French Horns''),
     (''4 French Horns'', ''4 French Horns''), (''Horn Ensemble'', ''4 French Horns''),
     (''CineBrass French Horn'', ''French Horn''), (''2 Trumpets'', ''2 Trumpets''),
     (''Trumpet Ensemble'', ''2 Trumpets''), (''Trumpet'', ''Trumpet''),
     (''Bass Trombone'', ''Bass Trombone''), (''Trombones'', ''Trombones''),
     (''Trombone Ensemble'', ''Trombones''), (''Trombone'', ''Trombone''),
     (''Tuba'', ''Tuba''), (''Timpani'', ''Timpani''), (''Cymbals'', ''Cymbals''),
     (''Glockenspiel'', ''Glockenspiel''), (''Marimba'', ''Marimba''),
     (''Vibraphone'', ''Vibraphone''), (''Bass Drum 36in'', ''Bass Drum 36in''),
     (''Bowed Gongs'', ''Bowed Gongs''), (''Harp'', ''Harp''), (''Sopranos'', ''Sopranos''),
     (''Full Chorus'', ''Full Chorus''), (''Boys Choir'', ''Boys Choir''),
     (''Solo Soprano'', ''Solo Soprano''), (''Violin 1'', ''Violin 1''),
     (''Violin 2'', ''Violin 2''), (''Viola'', ''Viola''), (''Cello'', ''Cello''),
     (''Bass'', ''Bass''), (''Violins 1'', ''Violins 1''), (''Violins 2'', ''Violins 2''),
     (''Violas'', ''Violas''), (''Cellos'', ''Cellos''), (''Basses'', ''Basses''),
     (''Berlin Brass Horn 1'', ''French Horn''), (''Berlin Brass Horn 2'', ''French Horn''),
     (''Berlin Brass Horn 3'', ''French Horn''), (''Berlin Brass Horn 4'', ''French Horn''),
     (''CinePerc Timpani'', ''Timpani''), (''CinePerc Cymbals'', ''Cymbals''),
     (''CinePerc Glockenspiel'', ''Glockenspiel''), (''CinePerc Marimba'', ''Marimba''),
     (''CinePerc Vibraphone'', ''Vibraphone''),
     (''CinePerc Bass Drum 36in'', ''Bass Drum 36in''),
     (''CinePerc Bowed Gongs'', ''Bowed Gongs''), (''VOXOS Sopranos'', ''Sopranos''),
     (''VOXOS Full Chorus'', ''Full Chorus''), (''VOXOS Boys Choir'', ''Boys Choir''),
     (''VOXOS Solo Soprano'', ''Solo Soprano''),
     (''Cinestrings Solo Violin 1'', ''Solo Violin 1''),
     (''Cinestrings Solo Violin 2'', ''Solo Violin 2''),
     (''Cinestrings Solo Viola'', ''Solo Viola''),
     (''Cinestrings Solo Cello'', ''Solo Cello''), (''Cinestrings Solo Bass'', ''Solo Bass''),
     (''First Chair Violin 1'', ''Solo Violin 1''),
     (''First Chair Violin 2'', ''Solo Violin 2''), (''First Chair Viola'', ''Solo Viola''),
     (''First Chair Cello'', ''Solo Cello''), (''First Chair Bass'', ''Solo Bass''),
     (''Berlin Strings Violins 1'', ''Violins 1''),
     (''Berlin Strings Violins 2'', ''Violins 2''), (''Berlin Strings Violas'', ''Violas''),
     (''Berlin Strings Cellos'', ''Cellos''), (''Berlin Strings Basses'', ''Basses''),
     (''Spitfire Chamber Strings Violins I'', ''Violins 1''),
     (''Spitfire Chamber Strings Violins II'', ''Violins 2''),
     (''Spitfire Chamber Strings Violas'', ''Violas''),
     (''Spitfire Chamber Strings Cellos'', ''Cellos''),
     (''Spitfire Chamber Strings Basses'', ''Basses'')]"
  by code_simp

section \<open>Resolution and discovery\<close>


lemma str_contains_sublist: "str_contains s pat \<longleftrightarrow> sublist pat s"
  by (induction s) (auto simp: sublist_Cons_right)

lemma counter_get_incr:
  "counter_get (counter_incr counter k) k' = (if k' = k then counter_get counter k + 1 else counter_get counter k')"
  by (simp add: counter_get_def counter_incr_def update_conv')

lemma resolve_Nil: "resolve [] raw_name = None"
  by (simp add: resolve_def)

lemma resolve_Cons:
  "resolve ((pattern, family) # rest) raw_name =
     (if sublist pattern raw_name then Some family else resolve rest raw_name)"
  by (simp add: resolve_def)

lemma find_generic_name_resolve:
  "find_generic_name table (Some raw_name) counter =
     (case resolve table raw_name of
        None \<Rightarrow> Inr (None, counter)
      | Some family \<Rightarrow>
          Inr (Some \<lparr> original_name = raw_name,
                      swap_name = family @ '' '' @ str_nat (counter_get counter family + 1) \<rparr>,
               counter_incr counter family))"
proof (induction table)
  case Nil
  show ?case by (simp add: resolve_Nil)
next
  case (Cons entry rest)
  obtain pattern family where entry: "entry = (pattern, family)" by (cases entry)
  show ?case
    unfolding entry using Cons
    by (simp add: resolve_Cons str_contains_sublist counter_get_incr Let_def)
qed



lemma find_generic_name_Inr:
  assumes "find_generic_name table label counter = Inr (r, counter')"
  shows "case family_of table label of
           None \<Rightarrow> r = None \<and> counter' = counter
         | Some family \<Rightarrow>
             r = Some \<lparr> original_name = the label,
                        swap_name = family @ '' '' @ str_nat (counter_get counter family + 1) \<rparr>
             \<and> counter' = counter_incr counter family"
proof (cases label)
  case None
  with assms show ?thesis
    by (cases table) (auto simp: family_of_def)
next
  case (Some raw_name)
  with assms show ?thesis
    by (auto simp: family_of_def find_generic_name_resolve split: option.splits)
qed

lemma for_each_fold:
  assumes "\<And>x s s'. x \<in> set xs \<Longrightarrow> I s \<Longrightarrow> body x s = Inr s' \<Longrightarrow> I s' \<and> proj s' = step (ent x) (proj s)"
    and "I s" and "for_each body xs s = Inr s'"
  shows "I s' \<and> proj s' = fold step (map ent xs) (proj s)"
  using assms
proof (induction xs arbitrary: s)
  case Nil
  then show ?case by simp
next
  case (Cons x xs)
  from Cons.prems(3) obtain s1 where s1: "body x s = Inr s1" and rest: "for_each body xs s1 = Inr s'"
    by (auto split: sum.splits)
  from Cons.prems(1)[OF _ Cons.prems(2) s1] have I1: "I s1" and p1: "proj s1 = step (ent x) (proj s)"
    by simp_all
  have "I s' \<and> proj s' = fold step (map ent xs) (proj s1)"
    by (rule Cons.IH[OF _ I1 rest]) (rule Cons.prems(1), simp_all)
  with p1 show ?case by simp
qed


lemma discover_part_name_Inr:
  assumes "discover_part_name k part_name self = Inr self'"
  shows "same_setup self self'
       \<and> instrument_state self' = instrument_state self
       \<and> part_state self' = discover_entity (instrument_swap_map self) (k, el_text part_name) (part_state self)"
proof -
  from assms obtain r c where
    f: "find_generic_name (instrument_swap_map self) (el_text part_name) (part_counter self) = Inr (r, c)"
    by (auto simp: discover_part_name_def split: sum.splits)
  show ?thesis
    using assms find_generic_name_Inr[OF f]
    by (auto simp: discover_part_name_def f same_setup_def instrument_state_def part_state_def
          discover_entity_def Let_def split: option.splits)
qed

lemma discover_score_instrument_Inr:
  assumes "discover_score_instrument score_instrument self = Inr self'"
  shows "same_setup self self'
       \<and> part_state self' = part_state self
       \<and> instrument_state self' =
           discover_entity (instrument_swap_map self)
             (get score_instrument ''id'', instrument_label score_instrument) (instrument_state self)"
proof -
  from assms obtain instrument_name where
    n: "find_el score_instrument ''instrument-name'' = Some instrument_name"
    by (auto simp: discover_score_instrument_def split: option.splits)
  from assms obtain r c where
    f: "find_generic_name (instrument_swap_map self) (el_text instrument_name) (instrument_counter self) = Inr (r, c)"
    by (auto simp: discover_score_instrument_def n split: sum.splits)
  show ?thesis
    using assms find_generic_name_Inr[OF f]
    by (auto simp: discover_score_instrument_def n f same_setup_def instrument_state_def part_state_def
          instrument_label_def discover_entity_def Let_def split: option.splits)
qed



lemma same_setup_refl: "same_setup s s"
  by (simp add: same_setup_def)

lemma same_setup_trans: "same_setup a b \<Longrightarrow> same_setup b c \<Longrightarrow> same_setup a c"
  by (simp add: same_setup_def)

lemma discover_score_part_Inr:
  assumes "discover_score_part score_part self = Inr self'"
  shows "same_setup self self'
       \<and> part_state self' =
           fold (discover_entity (instrument_swap_map self)) (part_entities_of score_part) (part_state self)
       \<and> instrument_state self' =
           fold (discover_entity (instrument_swap_map self)) (instrument_entities_of score_part)
             (instrument_state self)"
proof -
  let ?table = "instrument_swap_map self"
  let ?k = "get score_part ''id''"
  from assms obtain s1 where
    parts: "for_each (discover_part_name ?k) (findall score_part ''part-name'') self = Inr s1" and
    instrs: "for_each discover_score_instrument (findall score_part ''score-instrument'') s1 = Inr self'"
    by (auto simp: discover_score_part_def Let_def split: sum.splits)
  have 1: "(same_setup self s1 \<and> instrument_state s1 = instrument_state self)
         \<and> part_state s1 = fold (discover_entity ?table)
              (map (\<lambda>part_name. (?k, el_text part_name)) (findall score_part ''part-name'')) (part_state self)"
  proof (rule for_each_fold[OF _ _ parts])
    show "same_setup self self \<and> instrument_state self = instrument_state self"
      by (simp add: same_setup_refl)
  next
    fix x s s'
    assume "same_setup self s \<and> instrument_state s = instrument_state self"
      and "discover_part_name ?k x s = Inr s'"
    then show "(same_setup self s' \<and> instrument_state s' = instrument_state self) \<and>
               part_state s' = discover_entity ?table (?k, el_text x) (part_state s)"
      using discover_part_name_Inr[of ?k x s s']
      by (auto simp: same_setup_def)
  qed
  have 2: "(same_setup self self' \<and> part_state self' = part_state s1)
         \<and> instrument_state self' = fold (discover_entity ?table)
              (map (\<lambda>si. (get si ''id'', instrument_label si)) (findall score_part ''score-instrument''))
              (instrument_state s1)"
  proof (rule for_each_fold[OF _ _ instrs])
    show "same_setup self s1 \<and> part_state s1 = part_state s1"
      using 1 by simp
  next
    fix x s s'
    assume "same_setup self s \<and> part_state s = part_state s1"
      and "discover_score_instrument x s = Inr s'"
    then show "(same_setup self s' \<and> part_state s' = part_state s1) \<and>
               instrument_state s' = discover_entity ?table (get x ''id'', instrument_label x) (instrument_state s)"
      using discover_score_instrument_Inr[of x s s']
      by (auto simp: same_setup_def)
  qed
  from 1 2 show ?thesis
    by (simp add: part_entities_of_def instrument_entities_of_def)
qed

lemma find_generic_instrument_names_Inr:
  assumes "find_generic_instrument_names self root_el = Inr self'"
  shows "same_setup self self'
       \<and> part_state self' =
           fold (discover_entity (instrument_swap_map self)) (part_entities root_el) (part_state self)
       \<and> instrument_state self' =
           fold (discover_entity (instrument_swap_map self)) (instrument_entities root_el)
             (instrument_state self)"
proof -
  let ?table = "instrument_swap_map self"
  from assms obtain part_list where
    pl: "find_el root_el ''part-list'' = Some part_list" and
    loop: "for_each discover_score_part (findall part_list ''score-part'') self = Inr self'"
    by (auto simp: find_generic_instrument_names_def split: option.splits)
  let ?step = "\<lambda>sp (ps, is). (fold (discover_entity ?table) (part_entities_of sp) ps,
                                fold (discover_entity ?table) (instrument_entities_of sp) is)"
  have "same_setup self self' \<and>
        (part_state self', instrument_state self') =
          fold ?step (map (\<lambda>sp. sp) (findall part_list ''score-part''))
               (part_state self, instrument_state self)"
  proof (rule for_each_fold[OF _ _ loop])
    show "same_setup self self" by (rule same_setup_refl)
  next
    fix x s s'
    assume "same_setup self s" and "discover_score_part x s = Inr s'"
    then show "same_setup self s' \<and>
               (part_state s', instrument_state s') = ?step x (part_state s, instrument_state s)"
      using discover_score_part_Inr[of x s s']
      by (auto simp: same_setup_def)
  qed
  moreover have "fold ?step sps (ps, is) =
      (fold (discover_entity ?table) (concat (map part_entities_of sps)) ps,
       fold (discover_entity ?table) (concat (map instrument_entities_of sps)) is)" for sps ps "is"
    by (induction sps arbitrary: ps "is") simp_all
  ultimately show ?thesis
    by (simp add: part_entities_def instrument_entities_def score_parts_def pl)
qed



lemma discover_entity_unmatched:
  "family_of table (snd ent) = None \<Longrightarrow> discover_entity table ent st = st"
  by (simp add: discover_entity_def)

lemma discover_entity_matched:
  "family_of table label = Some family \<Longrightarrow>
   discover_entity table (k, label) (counter, rename_dict) =
     (counter_incr counter family,
      AList.update k
        \<lparr> original_name = the label,
          swap_name = family @ '' '' @ str_nat (counter_get counter family + 1) \<rparr>
        rename_dict)"
  by (simp add: discover_entity_def)

lemma family_of_Some: "family_of table label = Some family \<longleftrightarrow> (\<exists>n. label = Some n \<and> resolve table n = Some family)"
  by (cases label) (simp_all add: family_of_def)

lemma occurrences_Nil: "occurrences table family [] = 0"
  by (simp add: occurrences_def)

lemma occurrences_Cons:
  "occurrences table family ((k, label) # ents) =
     (if family_of table label = Some family then 1 else 0) + occurrences table family ents"
  by (simp add: occurrences_def)

lemma discover_counter:
  "counter_get (fst (fold (discover_entity table) ents (counter, rename_dict))) family =
     counter_get counter family + occurrences table family ents"
proof (induction ents arbitrary: counter rename_dict)
  case Nil
  show ?case by (simp add: occurrences_Nil)
next
  case (Cons ent ents)
  obtain k label where ent: "ent = (k, label)" by (cases ent)
  show ?case
  proof (cases "family_of table label")
    case None
    then show ?thesis
      using Cons[of counter rename_dict]
      by (simp add: ent discover_entity_unmatched occurrences_Cons)
  next
    case (Some f)
    then show ?thesis
      using Cons[of "counter_incr counter f"]
      by (simp add: ent discover_entity_matched occurrences_Cons counter_get_incr)
  qed
qed

lemma set_update_subset: "set (AList.update k v al) \<subseteq> insert (k, v) (set al)"
  by (induction al) auto

lemma discover_entries:
  assumes "(k, rm) \<in> set (snd (fold (discover_entity table) ents (counter, rename_dict)))"
  shows "(k, rm) \<in> set rename_dict
       \<or> ((k, Some (original_name rm)) \<in> set ents \<and> resolve table (original_name rm) \<noteq> None)"
  using assms
proof (induction ents arbitrary: counter rename_dict)
  case Nil
  then show ?case by simp
next
  case (Cons ent ents)
  obtain k' label where ent: "ent = (k', label)" by (cases ent)
  show ?case
  proof (cases "family_of table label")
    case None
    with Cons.prems have "(k, rm) \<in> set (snd (fold (discover_entity table) ents (counter, rename_dict)))"
      by (simp add: ent discover_entity_unmatched)
    from Cons.IH[OF this] show ?thesis by auto
  next
    case (Some f)
    then obtain n where n: "label = Some n" "resolve table n = Some f"
      by (auto simp: family_of_Some)
    let ?rm = "\<lparr> original_name = the label,
                 swap_name = f @ '' '' @ str_nat (counter_get counter f + 1) \<rparr>"
    from Cons.prems Some
    have "(k, rm) \<in> set (snd (fold (discover_entity table) ents
             (counter_incr counter f, AList.update k' ?rm rename_dict)))"
      by (simp add: ent discover_entity_matched)
    from Cons.IH[OF this]
    consider "(k, rm) \<in> set (AList.update k' ?rm rename_dict)"
      | "(k, Some (original_name rm)) \<in> set ents \<and> resolve table (original_name rm) \<noteq> None"
      by blast
    then show ?thesis
    proof cases
      case 1
      with set_update_subset[of k' ?rm rename_dict]
      have "(k, rm) = (k', ?rm) \<or> (k, rm) \<in> set rename_dict" by auto
      then show ?thesis using n by (auto simp: ent)
    next
      case 2
      then show ?thesis by auto
    qed
  qed
qed

lemma discover_untouched:
  assumes "k \<notin> fst ` set ents"
  shows "map_of (snd (fold (discover_entity table) ents (counter, rename_dict))) k = map_of rename_dict k"
  using assms
proof (induction ents arbitrary: counter rename_dict)
  case Nil
  show ?case by simp
next
  case (Cons ent ents)
  obtain k' label where ent: "ent = (k', label)" by (cases ent)
  from Cons.prems have k: "k \<noteq> k'" and rest: "k \<notin> fst ` set ents"
    by (auto simp: ent)
  show ?case
  proof (cases "family_of table label")
    case None
    then show ?thesis
      using Cons.IH[OF rest] by (simp add: ent discover_entity_unmatched)
  next
    case (Some f)
    then show ?thesis
      using Cons.IH[OF rest] k by (simp add: ent discover_entity_matched update_conv')
  qed
qed

lemma discover_numbering:
  assumes "j < length ents" and "ents ! j = (k, Some n)" and "resolve table n = Some family"
    and "k \<notin> fst ` set (drop (Suc j) ents)"
  shows "map_of (snd (fold (discover_entity table) ents (counter, rename_dict))) k =
           Some \<lparr> original_name = n,
                  swap_name = family @ '' '' @
                    str_nat (counter_get counter family + occurrences table family (take (Suc j) ents)) \<rparr>"
  using assms
proof (induction ents arbitrary: j counter rename_dict)
  case Nil
  then show ?case by simp
next
  case (Cons ent ents)
  obtain k' label where ent: "ent = (k', label)" by (cases ent)
  show ?case
  proof (cases j)
    case 0
    with Cons.prems have e: "k' = k" "label = Some n" and rest: "k \<notin> fst ` set ents"
      by (simp_all add: ent)
    have fam: "family_of table label = Some family"
      using Cons.prems(3) e by (simp add: family_of_Some)
    show ?thesis
      using discover_untouched[OF rest] fam e 0
      by (simp add: ent discover_entity_matched update_conv' occurrences_Cons occurrences_Nil)
  next
    case (Suc j')
    with Cons.prems have j': "j' < length ents" "ents ! j' = (k, Some n)"
      "k \<notin> fst ` set (drop (Suc j') ents)"
      by simp_all
    show ?thesis
    proof (cases "family_of table label")
      case None
      then show ?thesis
        using Cons.IH[OF j'(1,2) Cons.prems(3) j'(3), of counter rename_dict] Suc
        by (simp add: ent discover_entity_unmatched occurrences_Cons)
    next
      case (Some f)
      let ?rm = "\<lparr> original_name = the label,
                   swap_name = f @ '' '' @ str_nat (counter_get counter f + 1) \<rparr>"
      show ?thesis
        using Cons.IH[OF j'(1,2) Cons.prems(3) j'(3), of "counter_incr counter f"
                "AList.update k' ?rm rename_dict"] Suc Some
        by (simp add: ent discover_entity_matched occurrences_Cons counter_get_incr)
    qed
  qed
qed

section \<open>Cleanup and the plans of a run\<close>



lemma cleanup_name_Nil: "cleanup_name [] s = s"
  by (simp add: cleanup_name_def)

lemma cleanup_name_Cons:
  "cleanup_name ((sname, count) # counter) s =
     cleanup_name counter (if count = 1 \<and> s = sname @ '' 1'' then sname else s)"
  by (simp add: cleanup_name_def)

lemma cleanup_Nil: "cleanup [] rename_dict = rename_dict"
  by (simp add: cleanup_def)

lemma cleanup_Cons:
  "cleanup ((sname, count) # counter) rename_dict =
     cleanup counter
       (map (\<lambda>(k, rm). (k, if count = 1 \<and> swap_name rm = sname @ '' 1''
                             then rm\<lparr> swap_name := sname \<rparr> else rm)) rename_dict)"
  by (cases "count = 1") (simp_all add: cleanup_def Let_def cong: if_cong)

lemma cleanup_map:
  "cleanup counter rename_dict =
     map (\<lambda>(k, rm). (k, rm\<lparr> swap_name := cleanup_name counter (swap_name rm) \<rparr>)) rename_dict"
proof (induction counter arbitrary: rename_dict)
  case Nil
  show ?case by (simp add: cleanup_Nil cleanup_name_Nil case_prod_beta)
next
  case (Cons entry counter)
  obtain sname count where entry: "entry = (sname, count)" by (cases entry)
  show ?case
    unfolding entry cleanup_Cons cleanup_name_Cons Cons
    by (simp add: case_prod_beta)
qed

lemma map_of_cleanup:
  "map_of (cleanup counter rename_dict) k =
     map_option (\<lambda>rm. rm\<lparr> swap_name := cleanup_name counter (swap_name rm) \<rparr>) (map_of rename_dict k)"
  unfolding cleanup_map by (induction rename_dict) auto

lemma cleanup_entries:
  "(k, rm') \<in> set (cleanup counter rename_dict) \<longleftrightarrow>
     (\<exists>rm. (k, rm) \<in> set rename_dict \<and> rm' = rm\<lparr> swap_name := cleanup_name counter (swap_name rm) \<rparr>)"
  unfolding cleanup_map by auto

lemma initial_state:
  "part_state (InstrumentManager r) = ([], [])" "instrument_state (InstrumentManager r) = ([], [])"
  "instrument_swap_map (InstrumentManager r) = create_instrument_swap_map"
  "root (InstrumentManager r) = r"
  by (simp_all add: part_state_def instrument_state_def InstrumentManager_def)

lemma discovered_plans:
  assumes "find_generic_instrument_names (InstrumentManager root_el) root_el = Inr self'"
  shows "(part_counter self', part_rename_dict self') =
           fold (discover_entity create_instrument_swap_map) (part_entities root_el) ([], [])"
    and "(instrument_counter self', instrument_rename_dict self') =
           fold (discover_entity create_instrument_swap_map) (instrument_entities root_el) ([], [])"
    and "root self' = root_el" and "instrument_swap_map self' = create_instrument_swap_map"
  using find_generic_instrument_names_Inr[OF assms]
  by (simp_all add: initial_state same_setup_def)
     (simp_all add: part_state_def instrument_state_def)

text \<open>
  Claim C1.  Resolution scans the table in insertion order: \<open>_find_generic_name\<close>
  returns the family of the first raw pattern that occurs in the raw name as a contiguous
  sublist, whatever surrounds it, numbered by the counter it increments, and returns
  \<open>None\<close> with the counter untouched when no pattern occurs.  A raw name without a
  match is in no rename plan: after discovery, and after cleanup, every entry of either plan
  records an entity of the document, under that entity's id, whose label has a match.
\<close>
theorem resolution_first_substring_match:
  "find_generic_name table (Some raw_name) counter =
     (case resolve table raw_name of
        None \<Rightarrow> Inr (None, counter)
      | Some family \<Rightarrow>
          Inr (Some \<lparr> original_name = raw_name,
                      swap_name = family @ '' '' @ str_nat (counter_get counter family + 1) \<rparr>,
               counter_incr counter family))
   \<and> (find_generic_instrument_names (InstrumentManager root_el) root_el = Inr self' \<longrightarrow>
        (\<forall>(k, rm) \<in> set (part_rename_dict self') \<union> set (part_rename_dict (cleanup_names self')).
           (k, Some (original_name rm)) \<in> set (part_entities root_el)
           \<and> resolve create_instrument_swap_map (original_name rm) \<noteq> None)
      \<and> (\<forall>(k, rm) \<in> set (instrument_rename_dict self')
                       \<union> set (instrument_rename_dict (cleanup_names self')).
           (k, Some (original_name rm)) \<in> set (instrument_entities root_el)
           \<and> resolve create_instrument_swap_map (original_name rm) \<noteq> None))"
proof (intro conjI impI)
  show "find_generic_name table (Some raw_name) counter =
     (case resolve table raw_name of
        None \<Rightarrow> Inr (None, counter)
      | Some family \<Rightarrow>
          Inr (Some \<lparr> original_name = raw_name,
                      swap_name = family @ '' '' @ str_nat (counter_get counter family + 1) \<rparr>,
               counter_incr counter family))"
    by (rule find_generic_name_resolve)
next
  assume d: "find_generic_instrument_names (InstrumentManager root_el) root_el = Inr self'"
  have p: "(k, Some (original_name rm)) \<in> set (part_entities root_el)
           \<and> resolve create_instrument_swap_map (original_name rm) \<noteq> None"
    if "(k, rm) \<in> set (part_rename_dict self')" for k rm
    using discover_entries[of k rm create_instrument_swap_map "part_entities root_el" "[]" "[]"]
      discovered_plans(1)[OF d, symmetric] that
    by simp
  show "\<forall>(k, rm) \<in> set (part_rename_dict self') \<union> set (part_rename_dict (cleanup_names self')).
           (k, Some (original_name rm)) \<in> set (part_entities root_el)
           \<and> resolve create_instrument_swap_map (original_name rm) \<noteq> None"
    using p by (auto simp: cleanup_names_def Let_def cleanup_entries)
  have i: "(k, Some (original_name rm)) \<in> set (instrument_entities root_el)
           \<and> resolve create_instrument_swap_map (original_name rm) \<noteq> None"
    if "(k, rm) \<in> set (instrument_rename_dict self')" for k rm
    using discover_entries[of k rm create_instrument_swap_map "instrument_entities root_el" "[]" "[]"]
      discovered_plans(2)[OF d, symmetric] that
    by simp
  show "\<forall>(k, rm) \<in> set (instrument_rename_dict self')
                       \<union> set (instrument_rename_dict (cleanup_names self')).
           (k, Some (original_name rm)) \<in> set (instrument_entities root_el)
           \<and> resolve create_instrument_swap_map (original_name rm) \<noteq> None"
    using i by (auto simp: cleanup_names_def Let_def cleanup_entries)
qed



lemma example_discovery:
  "find_generic_instrument_names (InstrumentManager example_score) example_score = Inr example_discovered"
  by code_simp

theorem resolution_first_substring_match_witness:
  "find_generic_instrument_names (InstrumentManager example_score) example_score = Inr example_discovered
   \<and> find_generic_name create_instrument_swap_map (Some ''Kazoo'') [] = Inr (None, [])
   \<and> (Some ''P2'', Some ''Flute'') \<in> set (part_entities example_score)
   \<and> resolve create_instrument_swap_map ''Flute'' \<noteq> None"
proof -
  have r: "resolve create_instrument_swap_map ''Kazoo'' = None"
    by code_simp
  let ?rm = "\<lparr> original_name = ''Flute'', swap_name = ''Flute 2'' \<rparr>"
  have m: "(Some ''P2'', ?rm) \<in> set (part_rename_dict example_discovered)"
    by (simp add: example_discovered_def)
  note inst = resolution_first_substring_match
            [of create_instrument_swap_map "''Kazoo''" "[]" example_score example_discovered]
  from inst have 1: "find_generic_name create_instrument_swap_map (Some ''Kazoo'') [] = Inr (None, [])"
    by (simp add: r)
  from inst example_discovery
  have "\<forall>(k, rm) \<in> set (part_rename_dict example_discovered)
                    \<union> set (part_rename_dict (cleanup_names example_discovered)).
          (k, Some (original_name rm)) \<in> set (part_entities example_score)
          \<and> resolve create_instrument_swap_map (original_name rm) \<noteq> None"
    by blast
  with m have "(Some ''P2'', Some (original_name ?rm)) \<in> set (part_entities example_score)
          \<and> resolve create_instrument_swap_map (original_name ?rm) \<noteq> None"
    by blast
  with 1 example_discovery show ?thesis by simp
qed

text \<open>
  Claim C2.  After discovery, in either namespace (the part entities with the part plan
  and counter, or the instrument entities with the instrument plan and counter), the
  \<open>j\<close>-th entity, when its label resolves to a family and no later entity reuses
  its id, has the proposed name \<open>"<family> <N>"\<close> where \<open>N\<close> is the number of
  entities of that namespace up to and including it that resolve to the family: 1 for the
  first, 2 for the second, and so on.  The namespace's counter of the family is the number
  of its entities that resolve to it.  The number of a part depends on the part entities
  only, that of an instrument on the instrument entities only.
\<close>
theorem discovery_numbers_per_family:
  assumes "find_generic_instrument_names (InstrumentManager root_el) root_el = Inr self'"
    and "(ents, plan, counter) = (part_entities root_el, part_rename_dict self', part_counter self')
       \<or> (ents, plan, counter) =
           (instrument_entities root_el, instrument_rename_dict self', instrument_counter self')"
    and "j < length ents" and "ents ! j = (k, Some raw_name)"
    and "resolve create_instrument_swap_map raw_name = Some family"
    and "k \<notin> fst ` set (drop (Suc j) ents)"
  shows "map_of plan k =
           Some \<lparr> original_name = raw_name,
                  swap_name = family @ '' '' @
                    str_nat (occurrences create_instrument_swap_map family (take (Suc j) ents)) \<rparr>
       \<and> counter_get counter family = occurrences create_instrument_swap_map family ents"
proof -
  have "(counter, plan) = fold (discover_entity create_instrument_swap_map) ents ([], [])"
    using assms(2) discovered_plans(1,2)[OF assms(1)] by auto
  then have c: "counter = fst (fold (discover_entity create_instrument_swap_map) ents ([], []))"
    and p: "plan = snd (fold (discover_entity create_instrument_swap_map) ents ([], []))"
    by (metis fst_conv, metis snd_conv)
  show ?thesis
    unfolding c p
    using discover_numbering[OF assms(3,4,5,6), of "[]" "[]"]
      discover_counter[of create_instrument_swap_map ents "[]" "[]" family]
    by (simp add: counter_get_def)
qed

theorem discovery_numbers_per_family_witness:
  "map_of (part_rename_dict example_discovered) (Some ''P2'') =
     Some \<lparr> original_name = ''Flute'', swap_name = ''Flute 2'' \<rparr>
   \<and> map_of (instrument_rename_dict example_discovered) (Some ''P3-I1'') =
     Some \<lparr> original_name = ''Flute'', swap_name = ''Flute 2'' \<rparr>
   \<and> counter_get (part_counter example_discovered) ''Flute'' = 2"
proof -
  have r: "resolve create_instrument_swap_map ''Flute'' = Some ''Flute''"
    by code_simp
  let ?pe = "part_entities example_score" and ?ie = "instrument_entities example_score"
  have p1: "(?pe, part_rename_dict example_discovered, part_counter example_discovered) =
              (part_entities example_score, part_rename_dict example_discovered,
               part_counter example_discovered)
          \<or> (?pe, part_rename_dict example_discovered, part_counter example_discovered) =
              (instrument_entities example_score, instrument_rename_dict example_discovered,
               instrument_counter example_discovered)"
    by simp
  have p2: "1 < length ?pe" by code_simp
  have p3: "?pe ! 1 = (Some ''P2'', Some ''Flute'')" by code_simp
  have p4: "Some ''P2'' \<notin> fst ` set (drop (Suc 1) ?pe)" by code_simp
  have o1: "str_nat (occurrences create_instrument_swap_map ''Flute'' (take (Suc 1) ?pe)) = ''2''"
    by code_simp
  have o3: "occurrences create_instrument_swap_map ''Flute'' ?pe = 2"
    by code_simp
  have i1: "(?ie, instrument_rename_dict example_discovered, instrument_counter example_discovered) =
              (part_entities example_score, part_rename_dict example_discovered,
               part_counter example_discovered)
          \<or> (?ie, instrument_rename_dict example_discovered, instrument_counter example_discovered) =
              (instrument_entities example_score, instrument_rename_dict example_discovered,
               instrument_counter example_discovered)"
    by simp
  have i2: "2 < length ?ie" by code_simp
  have i3: "?ie ! 2 = (Some ''P3-I1'', Some ''Flute'')" by code_simp
  have i4: "Some ''P3-I1'' \<notin> fst ` set (drop (Suc 2) ?ie)" by code_simp
  have o2: "str_nat (occurrences create_instrument_swap_map ''Flute'' (take (Suc 2) ?ie)) = ''2''"
    by code_simp
  show ?thesis
    using discovery_numbers_per_family[OF example_discovery p1 p2 p3 r p4]
      discovery_numbers_per_family[OF example_discovery i1 i2 i3 r i4]
    unfolding o1 o2 o3 by simp
qed

section \<open>Whole runs on small scores\<close>


lemma str_nat_1: "str_nat (Suc 0) = ''1''"
  by code_simp

lemma single_part_discovery:
  assumes "resolve create_instrument_swap_map label = Some family"
  shows "find_generic_instrument_names (InstrumentManager (single_part_score label)) (single_part_score label)
         = Inr ((InstrumentManager (single_part_score label))
                  \<lparr> part_rename_dict :=
                      [(Some ''P1'', \<lparr> original_name = label, swap_name = family @ '' 1'' \<rparr>)],
                    part_counter := [(family, 1)] \<rparr>)"
  using assms
  by (simp add: find_generic_instrument_names_def single_part_score_def find_el_def findall_def
        discover_score_part_def discover_part_name_def get_def find_generic_name_resolve
        InstrumentManager_def counter_get_def counter_incr_def str_nat_1)

lemma single_part_process:
  assumes "resolve create_instrument_swap_map label = Some family"
  shows "process_xml (InstrumentManager (single_part_score label))
         = Inr ((InstrumentManager (single_part_score family))
                  \<lparr> part_rename_dict :=
                      [(Some ''P1'', \<lparr> original_name = label, swap_name = family \<rparr>)],
                    part_counter := [(family, 1)] \<rparr>)"
  unfolding process_xml_def
  apply (simp add: single_part_discovery[OF assms, unfolded InstrumentManager_def, simplified] InstrumentManager_def)
  apply (simp add: cleanup_names_def cleanup_def Let_def rename_instruments_def find_el_def single_part_score_def
        with_children_def set_children_def rename_score_part_def rename_element_def get_def set_text_def)
  done


lemma set_children_id: "set_children element (el_children element) = element"
  by (simp add: set_children_def)

lemma update_where_id:
  "(\<And>c. c \<in> set cs \<Longrightarrow> P c \<Longrightarrow> body c = Inr c) \<Longrightarrow> update_where P body cs = Inr cs"
  by (induction cs) simp_all

lemma update_first_id:
  "List.find P cs = Some c \<Longrightarrow> body c = Inr c \<Longrightarrow> update_first P body cs = Inr cs"
  by (induction cs) (auto split: if_splits)

lemma for_each_Inr_member:
  "for_each body xs s = Inr s' \<Longrightarrow> x \<in> set xs \<Longrightarrow> \<exists>s1 s2. body x s1 = Inr s2"
  by (induction xs arbitrary: s) (auto split: sum.splits)

lemma not_Inr_result: "(\<nexists>s'. r = Inr s') \<Longrightarrow> \<exists>e s. r = Inl (e, s)"
  by (cases r) auto

text \<open>
  Claim C9.  On the score with the parts "Violins 1", "Violins 2" and "Harp", the run
  succeeds: the three labels resolve to the three distinct families "Violins 1",
  "Violins 2" and "Harp", each counted once, cleanup strips the number of each proposed
  name, and apply leaves the tree as it was.
\<close>
theorem violins_and_harp_unchanged:
  "process_xml (InstrumentManager violins_harp_score) =
     Inr ((InstrumentManager violins_harp_score)
            \<lparr> part_rename_dict :=
                [(Some ''P1'', \<lparr> original_name = ''Violins 1'', swap_name = ''Violins 1'' \<rparr>),
                 (Some ''P2'', \<lparr> original_name = ''Violins 2'', swap_name = ''Violins 2'' \<rparr>),
                 (Some ''P3'', \<lparr> original_name = ''Harp'', swap_name = ''Harp'' \<rparr>)],
              part_counter := [(''Violins 1'', 1), (''Violins 2'', 1), (''Harp'', 1)] \<rparr>)"
  by code_simp

text \<open>
  Claim C6 says that a document without the expected part-list and part structure, for
  example one where no parts are found, makes normalization fail at once.  A part list
  without score parts does not: the run succeeds and changes nothing.
\<close>
theorem empty_part_list_is_accepted:
  "process_xml (InstrumentManager empty_part_list_score) = Inr (InstrumentManager empty_part_list_score)"
  by code_simp

lemma cleanup_names_initial: "cleanup_names (InstrumentManager r) = InstrumentManager r"
  by (simp add: cleanup_names_def InstrumentManager_def cleanup_def)

text \<open>
  Claim C6, amended.  A document whose root has no \<open>part-list\<close> child makes the run
  fail at once, with the AttributeError of \<open>None.findall\<close> and the manager untouched;
  a document whose part list has no score parts is accepted, and the run returns the
  manager and the tree as they were.
\<close>
theorem missing_part_list_fails_empty_part_list_passes:
  "(find_el root_el ''part-list'' = None \<longrightarrow>
      process_xml (InstrumentManager root_el) = Inl (AttributeError, InstrumentManager root_el))
   \<and> (find_el root_el ''part-list'' = Some part_list \<and> findall part_list ''score-part'' = [] \<longrightarrow>
      process_xml (InstrumentManager root_el) = Inr (InstrumentManager root_el))"
proof (intro conjI impI)
  assume "find_el root_el ''part-list'' = None"
  then show "process_xml (InstrumentManager root_el) = Inl (AttributeError, InstrumentManager root_el)"
    by (simp add: process_xml_def find_generic_instrument_names_def initial_state)
next
  assume a: "find_el root_el ''part-list'' = Some part_list \<and> findall part_list ''score-part'' = []"
  let ?self = "InstrumentManager root_el"
  have d: "find_generic_instrument_names ?self (root ?self) = Inr ?self"
    using a by (simp add: find_generic_instrument_names_def initial_state)
  have "update_where (\<lambda>c. el_tag c = ''score-part'') (rename_score_part ?self) (el_children part_list)
          = Inr (el_children part_list)"
    using a by (intro update_where_id) (auto simp: findall_def filter_empty_conv)
  then have pl: "with_children part_list
          (update_where (\<lambda>c. el_tag c = ''score-part'') (rename_score_part ?self) (el_children part_list))
          = Inr part_list"
    by (simp add: with_children_def set_children_id)
  have "update_first (\<lambda>c. el_tag c = ''part-list'')
          (\<lambda>part_list. with_children part_list
              (update_where (\<lambda>c. el_tag c = ''score-part'') (rename_score_part ?self)
                 (el_children part_list)))
          (el_children root_el) = Inr (el_children root_el)"
    using a pl by (intro update_first_id[where c = part_list]) (simp_all add: find_el_def)
  then have r: "rename_instruments ?self root_el = Inr root_el"
    using a by (simp add: rename_instruments_def with_children_def set_children_id)
  show "process_xml ?self = Inr ?self"
    using d r by (simp add: process_xml_def cleanup_names_initial initial_state)
qed

text \<open>
  Claim C10.  A score instrument without an \<open>instrument-name\<close> child makes discovery
  raise AttributeError when it reads that entity's label, with the manager as it was;
  discovery on a document that contains such a score instrument never returns normally,
  and so neither does the whole run: the entity is not skipped.
\<close>
theorem nameless_instrument_fails_discovery:
  assumes "find_el root_el ''part-list'' = Some part_list"
    and "score_part \<in> set (findall part_list ''score-part'')"
    and "score_instrument \<in> set (findall score_part ''score-instrument'')"
    and "find_el score_instrument ''instrument-name'' = None"
  shows "discover_score_instrument score_instrument self = Inl (AttributeError, self)
       \<and> (\<exists>e s. find_generic_instrument_names self root_el = Inl (e, s))
       \<and> (\<exists>e s. process_xml (InstrumentManager root_el) = Inl (e, s))"
proof -
  have si: "discover_score_instrument score_instrument s = Inl (AttributeError, s)" for s
    using assms(4) by (simp add: discover_score_instrument_def)
  have sp: "\<nexists>s'. discover_score_part score_part s = Inr s'" for s
  proof
    assume "\<exists>s'. discover_score_part score_part s = Inr s'"
    then obtain s' s1 where
      "for_each discover_score_instrument (findall score_part ''score-instrument'') s1 = Inr s'"
      by (auto simp: discover_score_part_def Let_def split: sum.splits)
    from for_each_Inr_member[OF this assms(3)] si show False by simp
  qed
  have all: "\<nexists>s'. find_generic_instrument_names s root_el = Inr s'" for s
  proof
    assume "\<exists>s'. find_generic_instrument_names s root_el = Inr s'"
    then obtain s' where "for_each discover_score_part (findall part_list ''score-part'') s = Inr s'"
      by (auto simp: find_generic_instrument_names_def assms(1))
    from for_each_Inr_member[OF this assms(2)] sp show False by blast
  qed
  from not_Inr_result[OF all] obtain e s where
    f: "find_generic_instrument_names (InstrumentManager root_el) root_el = Inl (e, s)"
    by blast
  show ?thesis
    using si not_Inr_result[OF all, of self] f
    by (auto simp: process_xml_def initial_state)
qed


lemma families_resolving_to_themselves:
  "map (resolve create_instrument_swap_map)
       (filter (\<lambda>family. family \<noteq> ''French Horn'' \<and> \<not> List.member shadowed_families family)
          (map snd create_instrument_swap_map)) =
   map Some
       (filter (\<lambda>family. family \<noteq> ''French Horn'' \<and> \<not> List.member shadowed_families family)
          (map snd create_instrument_swap_map))"
  by code_simp

lemma french_horn_unresolved: "resolve create_instrument_swap_map ''French Horn'' = None"
  by code_simp

theorem missing_part_list_fails_empty_part_list_passes_witness:
  "find_el no_part_list_score ''part-list'' = None
   \<and> process_xml (InstrumentManager no_part_list_score) =
       Inl (AttributeError, InstrumentManager no_part_list_score)
   \<and> find_el empty_part_list_score ''part-list'' = Some (Element ''part-list'' [] None [])
   \<and> findall (Element ''part-list'' [] None []) ''score-part'' = []
   \<and> process_xml (InstrumentManager empty_part_list_score) =
       Inr (InstrumentManager empty_part_list_score)"
proof -
  have 1: "find_el no_part_list_score ''part-list'' = None"
    by (simp add: no_part_list_score_def find_el_def)
  have 2: "find_el empty_part_list_score ''part-list'' = Some (Element ''part-list'' [] None [])
           \<and> findall (Element ''part-list'' [] None []) ''score-part'' = []"
    by (simp add: empty_part_list_score_def find_el_def findall_def)
  from missing_part_list_fails_empty_part_list_passes[of no_part_list_score] missing_part_list_fails_empty_part_list_passes[of empty_part_list_score "Element ''part-list'' [] None []"] 1 2
  show ?thesis by blast
qed

theorem nameless_instrument_fails_discovery_witness:
  "discover_score_instrument
      (Element ''score-instrument'' [(''id'', ''P1-I1'')] None
         [Element ''instrument-abbreviation'' [] (Some ''Fl.'') []])
      (InstrumentManager nameless_instrument_score) =
     Inl (AttributeError, InstrumentManager nameless_instrument_score)
   \<and> (\<exists>e s. find_generic_instrument_names (InstrumentManager nameless_instrument_score)
               nameless_instrument_score = Inl (e, s))
   \<and> (\<exists>e s. process_xml (InstrumentManager nameless_instrument_score) = Inl (e, s))"
proof -
  let ?si = "Element ''score-instrument'' [(''id'', ''P1-I1'')] None
               [Element ''instrument-abbreviation'' [] (Some ''Fl.'') []]"
  let ?sp = "Element ''score-part'' [(''id'', ''P1'')] None
               [Element ''part-name'' [] (Some ''Flute'') [], ?si]"
  let ?pl = "Element ''part-list'' [] None [?sp]"
  have 1: "find_el nameless_instrument_score ''part-list'' = Some ?pl"
    by (simp add: nameless_instrument_score_def find_el_def)
  have 2: "?sp \<in> set (findall ?pl ''score-part'')"
    by (simp add: findall_def)
  have 3: "?si \<in> set (findall ?sp ''score-instrument'')"
    by (simp add: findall_def)
  have 4: "find_el ?si ''instrument-name'' = None"
    by (simp add: find_el_def)
  show ?thesis
    by (rule nameless_instrument_fails_discovery[OF 1 2 3 4])
qed

section \<open>Apply\<close>

lemma final_simps: "final (Inl (e, s)) = s" "final (Inr s) = s"
  by (simp_all add: final_def)

lemma final_with_children:
  "final (with_children element r) = set_children element (final r)"
  by (cases r) (auto simp: with_children_def final_def)

lemma set_simps:
  "el_tag (set_text c v) = el_tag c" "el_attrib (set_text c v) = el_attrib c"
  "el_text (set_text c v) = v" "el_children (set_text c v) = el_children c"
  "el_tag (set_children c cs) = el_tag c" "el_attrib (set_children c cs) = el_attrib c"
  "el_text (set_children c cs) = el_text c" "el_children (set_children c cs) = cs"
  "get (set_text c v) k = get c k" "get (set_children c cs) k = get c k"
  "set_text (set_text c v) w = set_text c w"
  "set_children (set_children c cs) ds = set_children c ds"
  by (simp_all add: set_text_def set_children_def get_def)

lemma update_where_map:
  assumes "\<And>c. c \<in> set cs \<Longrightarrow> P c \<Longrightarrow> h (final (body c)) = h c"
  shows "map h (final (update_where P body cs)) = map h cs"
  using assms
proof (induction cs)
  case Nil
  show ?case by (simp add: final_simps)
next
  case (Cons c cs)
  have IH: "map h (final (update_where P body cs)) = map h cs"
    by (rule Cons.IH) (simp add: Cons.prems)
  show ?case
  proof (cases "P c")
    case True
    with Cons.prems[of c] have h: "h (final (body c)) = h c" by simp
    show ?thesis
      using True h IH
      by (cases "body c"; cases "update_where P body cs") (auto simp: final_simps)
  next
    case False
    then show ?thesis
      using IH by (cases "update_where P body cs") (auto simp: final_simps)
  qed
qed

lemma update_first_map_first:
  assumes "\<And>c. c \<in> set cs \<Longrightarrow> P c \<Longrightarrow> g (final (body c)) = g c \<and> P (final (body c))"
  shows "map_first P g (final (update_first P body cs)) = map_first P g cs"
  using assms
proof (induction cs)
  case Nil
  show ?case by (simp add: final_simps)
next
  case (Cons c cs)
  show ?case
  proof (cases "P c")
    case True
    with Cons.prems[of c] have h: "g (final (body c)) = g c" "P (final (body c))" by simp_all
    show ?thesis
      using True h by (cases "body c") (auto simp: final_simps)
  next
    case False
    have IH: "map_first P g (final (update_first P body cs)) = map_first P g cs"
      by (rule Cons.IH) (simp add: Cons.prems)
    then show ?thesis
      using False by (cases "update_first P body cs") (auto simp: final_simps)
  qed
qed

lemma rename_element_unplanned:
  "map_of rename_dict (get element ''id'') = None \<Longrightarrow>
   rename_element element rename_dict tag_name = Inr element"
  by (simp add: rename_element_def)

lemma final_rename_element_shape:
  "el_tag (final (rename_element element rename_dict tag_name)) = el_tag element"
  "get (final (rename_element element rename_dict tag_name)) k = get element k"
  by (auto simp: rename_element_def final_with_children set_simps final_simps split: option.splits)

lemma blank_rename_element:
  "blank_labels rename_dict tag_name (final (rename_element element rename_dict tag_name)) =
   blank_labels rename_dict tag_name element"
proof (cases "map_of rename_dict (get element ''id'')")
  case None
  then show ?thesis by (simp add: rename_element_def final_simps)
next
  case (Some rename_map)
  let ?h = "\<lambda>c. if el_tag c = tag_name then set_text c None else c"
  let ?body = "\<lambda>tag. if el_text tag = Some (original_name rename_map)
                       then Inr (set_text tag (Some (swap_name rename_map)))
                       else Inl (AssertionError, tag)"
  have "map ?h (final (update_where (\<lambda>c. el_tag c = tag_name) ?body (el_children element)))
        = map ?h (el_children element)"
    by (rule update_where_map) (simp add: final_simps set_simps)
  then show ?thesis
    using Some
    by (simp add: blank_labels_def rename_element_def final_with_children set_simps)
qed


lemma final_rename_element:
  "final (rename_element element rename_dict tag_name) =
     (case map_of rename_dict (get element ''id'') of
        None \<Rightarrow> element
      | Some rename_map \<Rightarrow>
          set_children element
            (final (update_where (\<lambda>c. el_tag c = tag_name)
               (\<lambda>tag. if el_text tag = Some (original_name rename_map)
                       then Inr (set_text tag (Some (swap_name rename_map)))
                       else Inl (AssertionError, tag))
               (el_children element))))"
  by (simp add: rename_element_def final_with_children final_simps split: option.splits)

lemma blank_score_part_rename_element:
  "blank_score_part self (final (rename_element score_part (part_rename_dict self) ''part-name'')) =
   blank_score_part self score_part"
proof (cases "map_of (part_rename_dict self) (get score_part ''id'')")
  case None
  then show ?thesis by (simp add: final_rename_element)
next
  case (Some rename_map)
  let ?h = "\<lambda>c. if el_tag c = ''part-name'' then set_text c None
                  else if el_tag c = ''score-instrument'' then
                    blank_labels (instrument_rename_dict self) ''instrument-name'' c
                  else c"
  let ?body = "\<lambda>tag. if el_text tag = Some (original_name rename_map)
                       then Inr (set_text tag (Some (swap_name rename_map)))
                       else Inl (AssertionError, tag)"
  have "map ?h (final (update_where (\<lambda>c. el_tag c = ''part-name'') ?body (el_children score_part)))
        = map ?h (el_children score_part)"
    by (rule update_where_map) (simp add: final_simps set_simps)
  then show ?thesis
    using Some by (simp add: blank_score_part_def final_rename_element set_simps cong: if_cong)
qed

lemma blank_score_part_rename:
  "blank_score_part self (final (rename_score_part self score_part)) = blank_score_part self score_part"
proof (cases "rename_element score_part (part_rename_dict self) ''part-name''")
  case (Inl ex)
  obtain e x where ex: "ex = (e, x)" by (cases ex)
  have "final (rename_score_part self score_part)
        = final (rename_element score_part (part_rename_dict self) ''part-name'')"
    by (simp add: rename_score_part_def Inl ex final_simps)
  then show ?thesis by (simp add: blank_score_part_rename_element)
next
  case (Inr sp1)
  then have sp1: "sp1 = final (rename_element score_part (part_rename_dict self) ''part-name'')"
    by (simp add: final_simps)
  let ?planned = "map_of (part_rename_dict self) (get score_part ''id'') \<noteq> None"
  let ?h = "\<lambda>c. if el_tag c = ''part-name'' then
                    (if map_of (part_rename_dict self) (get sp1 ''id'') = None then c
                     else set_text c None)
                  else if el_tag c = ''score-instrument'' then
                    blank_labels (instrument_rename_dict self) ''instrument-name'' c
                  else c"
  let ?body = "\<lambda>score_instrument.
                  rename_element score_instrument (instrument_rename_dict self) ''instrument-name''"
  have m: "map ?h (final (update_where (\<lambda>c. el_tag c = ''score-instrument'') ?body (el_children sp1)))
        = map ?h (el_children sp1)"
    by (rule update_where_map) (simp add: final_rename_element_shape blank_rename_element)
  have "final (rename_score_part self score_part)
        = set_children sp1
            (final (update_where (\<lambda>c. el_tag c = ''score-instrument'') ?body (el_children sp1)))"
    by (simp add: rename_score_part_def Inr final_with_children)
  then have "blank_score_part self (final (rename_score_part self score_part)) = blank_score_part self sp1"
    using m by (simp add: blank_score_part_def set_simps cong: if_cong)
  then show ?thesis
    by (simp add: sp1 blank_score_part_rename_element)
qed

lemma final_rename_score_part_tag:
  "el_tag (final (rename_score_part self score_part)) = el_tag score_part"
  by (cases "rename_element score_part (part_rename_dict self) ''part-name''")
     (auto simp: rename_score_part_def final_simps final_with_children set_simps
        final_rename_element_shape[of score_part "part_rename_dict self" "''part-name''", symmetric])

lemma blank_planned_labels_rename:
  "blank_planned_labels self (final (rename_instruments self root_el)) = blank_planned_labels self root_el"
proof (cases "find_el root_el ''part-list''")
  case None
  then show ?thesis by (simp add: rename_instruments_def final_simps)
next
  case (Some first_part_list)
  let ?g = "\<lambda>part_list.
             set_children part_list
               (map (\<lambda>c. if el_tag c = ''score-part'' then blank_score_part self c else c)
                  (el_children part_list))"
  let ?body = "\<lambda>part_list.
                  with_children part_list
                    (update_where (\<lambda>c. el_tag c = ''score-part'') (rename_score_part self)
                       (el_children part_list))"
  have g: "?g (final (?body c)) = ?g c \<and> el_tag (final (?body c)) = ''part-list''"
    if "el_tag c = ''part-list''" for c
  proof -
    have "map (\<lambda>c. if el_tag c = ''score-part'' then blank_score_part self c else c)
            (final (update_where (\<lambda>c. el_tag c = ''score-part'') (rename_score_part self) (el_children c)))
          = map (\<lambda>c. if el_tag c = ''score-part'' then blank_score_part self c else c) (el_children c)"
      by (rule update_where_map) (simp add: final_rename_score_part_tag blank_score_part_rename)
    then show ?thesis
      using that by (simp add: final_with_children set_simps)
  qed
  have "map_first (\<lambda>c. el_tag c = ''part-list'') ?g
          (final (update_first (\<lambda>c. el_tag c = ''part-list'') ?body (el_children root_el)))
        = map_first (\<lambda>c. el_tag c = ''part-list'') ?g (el_children root_el)"
    by (rule update_first_map_first) (use g in blast)
  then show ?thesis
    using Some
    by (simp add: blank_planned_labels_def rename_instruments_def final_with_children set_simps)
qed


lemma update_where_single:
  assumes "P label" and "\<And>c. c \<in> set before \<union> set after \<Longrightarrow> \<not> P c"
  shows "update_where P body (before @ [label] @ after) =
           (case body label of
              Inl (e, label') \<Rightarrow> Inl (e, before @ [label'] @ after)
            | Inr label' \<Rightarrow> Inr (before @ [label'] @ after))"
  using assms(2)
proof (induction before)
  case Nil
  have "update_where P body after = Inr after"
    by (rule update_where_id) (use Nil in auto)
  then show ?case
    using assms(1) by (auto split: sum.splits)
next
  case (Cons c before)
  then have "\<not> P c" by simp
  moreover have "update_where P body (before @ [label] @ after) =
           (case body label of
              Inl (e, label') \<Rightarrow> Inl (e, before @ [label'] @ after)
            | Inr label' \<Rightarrow> Inr (before @ [label'] @ after))"
    by (rule Cons.IH) (use Cons.prems in auto)
  ultimately show ?case
    by (auto split: sum.splits)
qed

lemma update_where_fails:
  "c \<in> set cs \<Longrightarrow> P c \<Longrightarrow> body c = Inl (e, x) \<Longrightarrow> \<exists>e' cs'. update_where P body cs = Inl (e', cs')"
  by (induction cs) (auto split: sum.splits)

lemma update_where_error_kind:
  "(\<And>c e x. body c = Inl (e, x) \<Longrightarrow> e = E) \<Longrightarrow> update_where P body cs = Inl (e, cs') \<Longrightarrow> e = E"
  by (induction cs arbitrary: cs') (auto split: sum.splits if_splits)

lemma update_where_keeps:
  "c \<in> set cs \<Longrightarrow> \<not> P c \<Longrightarrow> c \<in> set (final (update_where P body cs))"
  by (induction cs) (auto simp: final_simps split: sum.splits)

lemma update_first_fails:
  "List.find P cs = Some c \<Longrightarrow> body c = Inl (e, x) \<Longrightarrow> \<exists>cs'. update_first P body cs = Inl (e, cs')"
  by (induction cs) (auto split: if_splits sum.splits)

lemma with_children_Inl:
  "r = Inl (e, cs) \<Longrightarrow> with_children element r = Inl (e, set_children element cs)"
  by (simp add: with_children_def)

lemma with_children_Inl_iff:
  "with_children element r = Inl (e, x) \<longleftrightarrow> (\<exists>cs. r = Inl (e, cs) \<and> x = set_children element cs)"
  by (cases r) (auto simp: with_children_def)

lemma rename_element_error:
  assumes "rename_element element rename_dict tag_name = Inl (e, x)"
  shows "e = AssertionError"
proof (cases "map_of rename_dict (get element ''id'')")
  case None
  with assms show ?thesis by (simp add: rename_element_def)
next
  case (Some rename_map)
  with assms obtain cs where
    "update_where (\<lambda>c. el_tag c = tag_name)
       (\<lambda>tag. if el_text tag = Some (original_name rename_map)
               then Inr (set_text tag (Some (swap_name rename_map)))
               else Inl (AssertionError, tag))
       (el_children element) = Inl (e, cs)"
    by (auto simp: rename_element_def with_children_Inl_iff)
  then show ?thesis
    by (rule update_where_error_kind[rotated]) (auto split: if_splits)
qed

lemma rename_score_part_error:
  assumes "rename_score_part self score_part = Inl (e, x)"
  shows "e = AssertionError"
proof (cases "rename_element score_part (part_rename_dict self) ''part-name''")
  case (Inl ex)
  with assms show ?thesis
    by (cases ex) (auto simp: rename_score_part_def dest: rename_element_error)
next
  case (Inr sp1)
  with assms obtain cs where
    "update_where (\<lambda>c. el_tag c = ''score-instrument'')
       (\<lambda>score_instrument.
          rename_element score_instrument (instrument_rename_dict self) ''instrument-name'')
       (el_children sp1) = Inl (e, cs)"
    by (auto simp: rename_score_part_def with_children_Inl_iff)
  then show ?thesis
    by (rule update_where_error_kind[rotated]) (auto dest: rename_element_error)
qed

lemma rename_score_part_fails:
  assumes "rename_element score_part (part_rename_dict self) ''part-name'' = Inl (e, x)
         \<or> (score_instrument \<in> set (findall score_part ''score-instrument'')
            \<and> rename_element score_instrument (instrument_rename_dict self) ''instrument-name''
                = Inl (e, x))"
  shows "\<exists>x'. rename_score_part self score_part = Inl (AssertionError, x')"
proof -
  have "\<exists>e' x'. rename_score_part self score_part = Inl (e', x')"
  proof (cases "rename_element score_part (part_rename_dict self) ''part-name''")
    case (Inl ex)
    then show ?thesis by (cases ex) (simp add: rename_score_part_def)
  next
    case (Inr sp1)
    then have sp1: "sp1 = final (rename_element score_part (part_rename_dict self) ''part-name'')"
      by (simp add: final_simps)
    from Inr assms have si: "score_instrument \<in> set (el_children score_part)"
      "el_tag score_instrument = ''score-instrument''"
      and f: "rename_element score_instrument (instrument_rename_dict self) ''instrument-name''
                = Inl (e, x)"
      by (auto simp: findall_def)
    have "score_instrument \<in> set (el_children sp1)"
      unfolding sp1 final_rename_element
      using si by (auto simp: set_simps intro!: update_where_keeps split: option.splits)
    from update_where_fails[where P = "\<lambda>c. el_tag c = ''score-instrument''"
        and body = "\<lambda>score_instrument.
          rename_element score_instrument (instrument_rename_dict self) ''instrument-name''",
        OF this si(2) f]
    show ?thesis
      by (auto simp: rename_score_part_def Inr with_children_def)
  qed
  then show ?thesis
    by (auto dest: rename_score_part_error)
qed

lemma rename_instruments_fails:
  assumes "find_el root_el ''part-list'' = Some part_list"
    and "score_part \<in> set (findall part_list ''score-part'')"
    and "rename_score_part self score_part = Inl (AssertionError, x)"
  shows "\<exists>r. rename_instruments self root_el = Inl (AssertionError, r)"
proof -
  let ?body = "\<lambda>part_list.
                  with_children part_list
                    (update_where (\<lambda>c. el_tag c = ''score-part'') (rename_score_part self)
                       (el_children part_list))"
  from assms(2) have "score_part \<in> set (el_children part_list)" "el_tag score_part = ''score-part''"
    by (auto simp: findall_def)
  from update_where_fails[where P = "\<lambda>c. el_tag c = ''score-part''"
      and body = "rename_score_part self", OF this assms(3)]
  obtain e' cs' where
    u: "update_where (\<lambda>c. el_tag c = ''score-part'') (rename_score_part self) (el_children part_list)
        = Inl (e', cs')"
    by blast
  have "e' = AssertionError"
    by (rule update_where_error_kind[OF _ u]) (auto dest: rename_score_part_error)
  with u have b: "?body part_list = Inl (AssertionError, set_children part_list cs')"
    by (simp add: with_children_def)
  have f: "List.find (\<lambda>c. el_tag c = ''part-list'') (el_children root_el) = Some part_list"
    using assms(1) by (simp add: find_el_def)
  have "\<exists>cs''. update_first (\<lambda>c. el_tag c = ''part-list'') ?body (el_children root_el)
          = Inl (AssertionError, cs'')"
    using f b by (rule update_first_fails)
  then show ?thesis
    using assms(1) by (auto simp: rename_instruments_def with_children_def)
qed

text \<open>
  Claim C7.  For an entity without a plan entry \<open>_rename_element\<close> returns the entity
  as it was.  Whatever apply does, whether it returns or raises, the tree it leaves differs
  from the tree it got at most in the labels of entities that have a plan entry.  An id all
  of whose entities carry labels without a match has no entry in the plan that apply gets
  (the plan of discovery after cleanup), in either namespace.
\<close>
theorem apply_leaves_unplanned_alone:
  "(map_of rename_dict (get element ''id'') = None \<longrightarrow>
      rename_element element rename_dict tag_name = Inr element)
   \<and> blank_planned_labels self (final (rename_instruments self root_el))
       = blank_planned_labels self root_el
   \<and> (find_generic_instrument_names (InstrumentManager root_el) root_el = Inr self' \<longrightarrow>
        ((\<forall>label. (k, label) \<in> set (part_entities root_el) \<longrightarrow>
             family_of create_instrument_swap_map label = None) \<longrightarrow>
           map_of (part_rename_dict (cleanup_names self')) k = None)
      \<and> ((\<forall>label. (k, label) \<in> set (instrument_entities root_el) \<longrightarrow>
             family_of create_instrument_swap_map label = None) \<longrightarrow>
           map_of (instrument_rename_dict (cleanup_names self')) k = None))"
proof (intro conjI impI)
  assume "map_of rename_dict (get element ''id'') = None"
  then show "rename_element element rename_dict tag_name = Inr element"
    by (rule rename_element_unplanned)
next
  show "blank_planned_labels self (final (rename_instruments self root_el))
       = blank_planned_labels self root_el"
    by (rule blank_planned_labels_rename)
next
  assume d: "find_generic_instrument_names (InstrumentManager root_el) root_el = Inr self'"
    and u: "\<forall>label. (k, label) \<in> set (part_entities root_el) \<longrightarrow>
             family_of create_instrument_swap_map label = None"
  have "k \<notin> fst ` set (part_rename_dict self')"
  proof
    assume "k \<in> fst ` set (part_rename_dict self')"
    then obtain rm where "(k, rm) \<in> set (part_rename_dict self')" by auto
    with discover_entries[of k rm create_instrument_swap_map "part_entities root_el" "[]" "[]"]
      discovered_plans(1)[OF d, symmetric]
    have "(k, Some (original_name rm)) \<in> set (part_entities root_el)
          \<and> resolve create_instrument_swap_map (original_name rm) \<noteq> None"
      by simp
    with u show False by (auto simp: family_of_def)
  qed
  then have "map_of (part_rename_dict self') k = None"
    by (simp add: map_of_eq_None_iff)
  then show "map_of (part_rename_dict (cleanup_names self')) k = None"
    by (simp add: cleanup_names_def Let_def map_of_cleanup)
next
  assume d: "find_generic_instrument_names (InstrumentManager root_el) root_el = Inr self'"
    and u: "\<forall>label. (k, label) \<in> set (instrument_entities root_el) \<longrightarrow>
             family_of create_instrument_swap_map label = None"
  have "k \<notin> fst ` set (instrument_rename_dict self')"
  proof
    assume "k \<in> fst ` set (instrument_rename_dict self')"
    then obtain rm where "(k, rm) \<in> set (instrument_rename_dict self')" by auto
    with discover_entries[of k rm create_instrument_swap_map "instrument_entities root_el" "[]" "[]"]
      discovered_plans(2)[OF d, symmetric]
    have "(k, Some (original_name rm)) \<in> set (instrument_entities root_el)
          \<and> resolve create_instrument_swap_map (original_name rm) \<noteq> None"
      by simp
    with u show False by (auto simp: family_of_def)
  qed
  then have "map_of (instrument_rename_dict self') k = None"
    by (simp add: map_of_eq_None_iff)
  then show "map_of (instrument_rename_dict (cleanup_names self')) k = None"
    by (simp add: cleanup_names_def Let_def map_of_cleanup)
qed


theorem apply_leaves_unplanned_alone_witness:
  "rename_element
     (Element ''score-part'' [(''id'', ''P3'')] None [Element ''part-name'' [] (Some ''Kazoo'') []])
     (part_rename_dict (cleanup_names example_discovered)) ''part-name''
   = Inr (Element ''score-part'' [(''id'', ''P3'')] None [Element ''part-name'' [] (Some ''Kazoo'') []])
   \<and> map_of (part_rename_dict (cleanup_names example_discovered)) (Some ''P3'') = None
   \<and> map_of (instrument_rename_dict (cleanup_names example_discovered)) (Some ''P9-I9'') = None"
proof -
  let ?p3 = "Element ''score-part'' [(''id'', ''P3'')] None [Element ''part-name'' [] (Some ''Kazoo'') []]"
  have pe: "part_entities example_score =
      [(Some ''P1'', Some ''Flute''), (Some ''P2'', Some ''Flute''), (Some ''P3'', Some ''Kazoo'')]"
    by code_simp
  have ie: "instrument_entities example_score =
      [(Some ''P1-I1'', Some ''Flute''), (Some ''P2-I1'', Some ''CinePerc Timpani''),
       (Some ''P3-I1'', Some ''Flute'')]"
    by code_simp
  have kazoo: "family_of create_instrument_swap_map (Some ''Kazoo'') = None"
    by code_simp
  have u: "\<forall>label. (Some ''P3'', label) \<in> set (part_entities example_score) \<longrightarrow>
             family_of create_instrument_swap_map label = None"
    by (simp add: pe kazoo)
  have v: "\<forall>label. (Some ''P9-I9'', label) \<in> set (instrument_entities example_score) \<longrightarrow>
             family_of create_instrument_swap_map label = None"
    by (simp add: ie)
  note inst = apply_leaves_unplanned_alone
    [of "part_rename_dict (cleanup_names example_discovered)" ?p3 "''part-name''" _ example_score
        example_discovered "Some ''P3''"]
  note inst2 = apply_leaves_unplanned_alone
    [of "part_rename_dict (cleanup_names example_discovered)" ?p3 "''part-name''" _ example_score
        example_discovered "Some ''P9-I9''"]
  from inst example_discovery u
  have 2: "map_of (part_rename_dict (cleanup_names example_discovered)) (Some ''P3'') = None"
    by blast
  from inst2 example_discovery v
  have 3: "map_of (instrument_rename_dict (cleanup_names example_discovered)) (Some ''P9-I9'') = None"
    by blast
  from inst 2 have 1: "rename_element ?p3 (part_rename_dict (cleanup_names example_discovered)) ''part-name''
       = Inr ?p3"
    by (simp add: get_def)
  from 1 2 3 show ?thesis by simp
qed

section \<open>Cleanup after discovery\<close>

lemma digit_char_no_space: "d < 10 \<Longrightarrow> digit_char d \<noteq> CHR '' ''"
proof -
  assume "d < 10"
  then have "d \<in> {0, 1, 2, 3, 4, 5, 6, 7, 8, 9}" by auto
  then show ?thesis
    by (auto simp: digit_char_def)
qed

lemma str_nat_no_space: "CHR '' '' \<notin> set (str_nat n)"
proof (induction n rule: str_nat.induct)
  case (1 n)
  show ?case
  proof (cases "n < 10")
    case True
    then show ?thesis
      using digit_char_no_space[of n] by (subst str_nat.simps) auto
  next
    case False
    then show ?thesis
      using 1 digit_char_no_space[of "n mod 10"] by (subst str_nat.simps) auto
  qed
qed

lemma split_last_space:
  assumes "a @ '' '' @ x = b @ '' '' @ y" and "CHR '' '' \<notin> set x" and "CHR '' '' \<notin> set y"
  shows "a = b \<and> x = y"
proof -
  let ?P = "\<lambda>c. c \<noteq> CHR '' ''"
  have t: "takeWhile ?P (rev z @ CHR '' '' # rev c) = rev z" if "CHR '' '' \<notin> set z" for z c
    using that by (auto simp: takeWhile_tail takeWhile_eq_all_conv)
  from assms(1) have "rev (a @ '' '' @ x) = rev (b @ '' '' @ y)" by simp
  then have "rev x @ CHR '' '' # rev a = rev y @ CHR '' '' # rev b" by simp
  then have "takeWhile ?P (rev x @ CHR '' '' # rev a) = takeWhile ?P (rev y @ CHR '' '' # rev b)"
    by simp
  then have "rev x = rev y"
    using t[OF assms(2)] t[OF assms(3)] by simp
  then have "x = y" by simp
  with assms(1) show ?thesis by simp
qed

lemma numbered_name_eq:
  "family @ '' '' @ str_nat n = family' @ '' 1'' \<Longrightarrow> family = family'"
  using split_last_space[of family "str_nat n" family' "''1''"] str_nat_no_space[of n]
  by simp

lemma resolve_in_values: "resolve table raw_name = Some family \<Longrightarrow> family \<in> snd ` set table"
  by (induction table) (auto simp: resolve_Nil resolve_Cons split: if_splits)

lemma counter_incr_keys: "fst ` set (counter_incr counter k) = insert k (fst ` set counter)"
  by (simp add: counter_incr_def dom_update)

lemma counter_incr_distinct: "distinct (map fst counter) \<Longrightarrow> distinct (map fst (counter_incr counter k))"
  by (simp add: counter_incr_def distinct_update)

lemma numbered_plan_step:
  assumes "numbered_plan table st"
  shows "numbered_plan table (discover_entity table ent st)"
proof (cases "family_of table (snd ent)")
  case None
  with assms show ?thesis by (simp add: discover_entity_unmatched)
next
  case (Some f)
  obtain k label where ent: "ent = (k, label)" by (cases ent)
  obtain counter rename_dict where st: "st = (counter, rename_dict)" by (cases st)
  from Some ent obtain n where n: "label = Some n" "resolve table n = Some f"
    by (auto simp: family_of_Some)
  let ?rm = "\<lparr> original_name = the label,
               swap_name = f @ '' '' @ str_nat (counter_get counter f + 1) \<rparr>"
  have step: "discover_entity table ent st = (counter_incr counter f, AList.update k ?rm rename_dict)"
    using Some by (simp add: ent st discover_entity_matched)
  have 1: "distinct (map fst (counter_incr counter f))"
    using assms by (simp add: numbered_plan_def st counter_incr_distinct)
  have 2: "fst ` set (counter_incr counter f) \<subseteq> snd ` set table"
    using assms resolve_in_values[OF n(2)] by (auto simp: numbered_plan_def st counter_incr_keys)
  have 3: "\<exists>family n. swap_name rm = family @ '' '' @ str_nat n
                     \<and> 1 \<le> n \<and> n \<le> counter_get (counter_incr counter f) family"
    if "(k', rm) \<in> set (AList.update k ?rm rename_dict)" for k' rm
  proof -
    from that set_update_subset[of k ?rm rename_dict]
    consider "rm = ?rm" | "(k', rm) \<in> set rename_dict" by auto
    then show ?thesis
    proof cases
      case 1
      then show ?thesis
        by (intro exI[of _ f] exI[of _ "counter_get counter f + 1"]) (simp add: counter_get_incr)
    next
      case 2
      with assms obtain family m where
        "swap_name rm = family @ '' '' @ str_nat m" "1 \<le> m" "m \<le> counter_get counter family"
        by (auto simp: numbered_plan_def st)
      then show ?thesis
        by (intro exI[of _ family] exI[of _ m]) (auto simp: counter_get_incr)
    qed
  qed
  show ?thesis
    unfolding step numbered_plan_def using 1 2 3 by auto
qed

lemma numbered_plan_fold:
  "numbered_plan table st \<Longrightarrow> numbered_plan table (fold (discover_entity table) ents st)"
  by (induction ents arbitrary: st) (simp_all add: numbered_plan_step)

lemma numbered_plan_initial: "numbered_plan table ([], [])"
  by (simp add: numbered_plan_def)


lemma cleanup_name_unchanged:
  "(\<And>g n. (g, n) \<in> set counter \<Longrightarrow> n = 1 \<Longrightarrow> s \<noteq> g @ '' 1'') \<Longrightarrow> cleanup_name counter s = s"
proof (induction counter)
  case Nil
  show ?case by (simp add: cleanup_name_Nil)
next
  case (Cons entry counter)
  obtain g n where entry: "entry = (g, n)" by (cases entry)
  have "\<not> (n = 1 \<and> s = g @ '' 1'')"
    using Cons.prems[of g n] by (auto simp: entry)
  moreover have "cleanup_name counter s = s"
    by (rule Cons.IH) (use Cons.prems in auto)
  ultimately show ?case
    by (auto simp: entry cleanup_name_Cons)
qed

lemma cleanup_name_strips:
  assumes "(f, 1) \<in> set counter" and "distinct (map fst counter)"
    and "\<And>g n. (g, n) \<in> set counter \<Longrightarrow> f \<noteq> g @ '' 1''"
  shows "cleanup_name counter (f @ '' 1'') = f"
  using assms
proof (induction counter)
  case Nil
  then show ?case by simp
next
  case (Cons entry counter)
  obtain g n where entry: "entry = (g, n)" by (cases entry)
  show ?case
  proof (cases "g = f")
    case True
    with Cons.prems(1,2) have "n = 1"
      by (auto simp: entry rev_image_eqI)
    moreover have "cleanup_name counter f = f"
      by (rule cleanup_name_unchanged) (use Cons.prems(3) in auto)
    ultimately show ?thesis
      using True by (simp add: entry cleanup_name_Cons)
  next
    case False
    with Cons.prems(1) have "(f, 1) \<in> set counter" by (auto simp: entry)
    moreover have "distinct (map fst counter)" using Cons.prems(2) by simp
    ultimately have "cleanup_name counter (f @ '' 1'') = f"
      by (rule Cons.IH) (use Cons.prems(3) in auto)
    with False show ?thesis
      by (simp add: entry cleanup_name_Cons)
  qed
qed

lemma counter_get_member:
  "distinct (map fst counter) \<Longrightarrow> (f, n) \<in> set counter \<Longrightarrow> counter_get counter f = n"
  by (simp add: counter_get_def)

lemma counter_get_positive:
  "0 < counter_get counter f \<Longrightarrow> (f, counter_get counter f) \<in> set counter"
  by (auto simp: counter_get_def split: option.splits dest: map_of_SomeD)

lemma no_chained_families_list:
  "list_all (\<lambda>f. list_all (\<lambda>g. f \<noteq> g @ '' 1'') (map snd create_instrument_swap_map))
     (map snd create_instrument_swap_map)"
  by code_simp

lemma no_chained_families:
  "f \<in> snd ` set create_instrument_swap_map \<Longrightarrow> g \<in> snd ` set create_instrument_swap_map \<Longrightarrow>
   f \<noteq> g @ '' 1''"
  using no_chained_families_list by (auto simp: list_all_iff)

lemma str_nat_one: "str_nat 1 = ''1''"
  using str_nat_1 by simp

lemma cleanup_name_numbered:
  assumes "distinct (map fst counter)"
    and "fst ` set counter \<subseteq> snd ` set create_instrument_swap_map"
    and "1 \<le> n" and "n \<le> counter_get counter family"
  shows "cleanup_name counter (family @ '' '' @ str_nat n) =
           (if counter_get counter family = 1 then family else family @ '' '' @ str_nat n)"
    and "(g, 1) \<in> set counter \<Longrightarrow>
           (if counter_get counter family = 1 then family else family @ '' '' @ str_nat n) \<noteq> g @ '' 1''"
proof -
  have member: "(family, counter_get counter family) \<in> set counter"
    using assms(3,4) by (intro counter_get_positive) simp
  then have fam: "family \<in> snd ` set create_instrument_swap_map"
    using assms(2) by (auto simp: rev_image_eqI)
  show 2: "(if counter_get counter family = 1 then family else family @ '' '' @ str_nat n) \<noteq> g @ '' 1''"
    if g: "(g, 1) \<in> set counter" for g
  proof (cases "counter_get counter family = 1")
    case True
    from g assms(2) have "g \<in> snd ` set create_instrument_swap_map"
      by (auto simp: rev_image_eqI)
    with no_chained_families[OF fam this] True show ?thesis by simp
  next
    case False
    have "family @ '' '' @ str_nat n \<noteq> g @ '' 1''"
    proof
      assume "family @ '' '' @ str_nat n = g @ '' 1''"
      then have "family = g" by (rule numbered_name_eq)
      with g counter_get_member[OF assms(1)] False show False by auto
    qed
    with False show ?thesis by simp
  qed
  show "cleanup_name counter (family @ '' '' @ str_nat n) =
           (if counter_get counter family = 1 then family else family @ '' '' @ str_nat n)"
  proof (cases "counter_get counter family = 1")
    case True
    with assms(3,4) have n: "n = 1" by simp
    have "cleanup_name counter (family @ '' 1'') = family"
    proof (rule cleanup_name_strips[OF _ assms(1)])
      show "(family, 1) \<in> set counter" using member True by simp
    next
      fix g m assume "(g, m) \<in> set counter"
      with assms(2) have "g \<in> snd ` set create_instrument_swap_map"
        by (auto simp: rev_image_eqI)
      from no_chained_families[OF fam this] show "family \<noteq> g @ '' 1''" .
    qed
    with True n show ?thesis by (simp add: str_nat_1)
  next
    case False
    have "cleanup_name counter (family @ '' '' @ str_nat n) = family @ '' '' @ str_nat n"
    proof (rule cleanup_name_unchanged)
      fix g m assume "(g, m) \<in> set counter" "m = 1"
      then have "(g, 1) \<in> set counter" by simp
      from 2[OF this] False show "family @ '' '' @ str_nat n \<noteq> g @ '' 1''" by simp
    qed
    with False show ?thesis by simp
  qed
qed

lemma cleanup_settles:
  assumes "numbered_plan create_instrument_swap_map (counter, rename_dict)"
  shows "cleanup counter (cleanup counter rename_dict) = cleanup counter rename_dict"
    and "(k, rm) \<in> set (cleanup counter rename_dict) \<Longrightarrow> (g, 1) \<in> set counter \<Longrightarrow>
           swap_name rm \<noteq> g @ '' 1''"
proof -
  have d: "distinct (map fst counter)"
    and keys: "fst ` set counter \<subseteq> snd ` set create_instrument_swap_map"
    using assms by (simp_all add: numbered_plan_def)
  have entry: "cleanup_name counter (cleanup_name counter (swap_name rm)) = cleanup_name counter (swap_name rm)
             \<and> (\<forall>g. (g, 1) \<in> set counter \<longrightarrow> cleanup_name counter (swap_name rm) \<noteq> g @ '' 1'')"
    if "(k, rm) \<in> set rename_dict" for k rm
  proof -
    from assms that obtain family n where
      s: "swap_name rm = family @ '' '' @ str_nat n" and n: "1 \<le> n" "n \<le> counter_get counter family"
      by (auto simp: numbered_plan_def)
    note c = cleanup_name_numbered[OF d keys n]
    have b: "\<forall>g. (g, 1) \<in> set counter \<longrightarrow> cleanup_name counter (swap_name rm) \<noteq> g @ '' 1''"
      unfolding s c(1) using c(2) by blast
    have "cleanup_name counter (cleanup_name counter (swap_name rm)) = cleanup_name counter (swap_name rm)"
      by (rule cleanup_name_unchanged) (use b in auto)
    with b show ?thesis by simp
  qed
  show "cleanup counter (cleanup counter rename_dict) = cleanup counter rename_dict"
    unfolding cleanup_map using entry by (auto simp: case_prod_beta)
  show "swap_name rm \<noteq> g @ '' 1''"
    if "(k, rm) \<in> set (cleanup counter rename_dict)" "(g, 1) \<in> set counter" for k rm g
    using that entry by (auto simp: cleanup_entries)
qed


lemma discovered_numbered_plans:
  assumes "find_generic_instrument_names (InstrumentManager root_el) root_el = Inr self'"
  shows "numbered_plan create_instrument_swap_map (part_counter self', part_rename_dict self')"
    and "numbered_plan create_instrument_swap_map (instrument_counter self', instrument_rename_dict self')"
  using discovered_plans(1,2)[OF assms]
    numbered_plan_fold[OF numbered_plan_initial, of create_instrument_swap_map]
  by simp_all

lemma cleanup_names_twice:
  "cleanup_names (cleanup_names self) =
     self\<lparr> instrument_rename_dict :=
             cleanup (instrument_counter self)
               (cleanup (instrument_counter self) (instrument_rename_dict self)),
           part_rename_dict :=
             cleanup (part_counter self) (cleanup (part_counter self) (part_rename_dict self)) \<rparr>"
  by (simp add: cleanup_names_def Let_def)

lemma cleanup_names_once:
  "cleanup_names self =
     self\<lparr> instrument_rename_dict := cleanup (instrument_counter self) (instrument_rename_dict self),
           part_rename_dict := cleanup (part_counter self) (part_rename_dict self) \<rparr>"
  by (simp add: cleanup_names_def Let_def)

text \<open>
  Claim C8.  On the plans and counters of a discovery run, cleanup is idempotent: a second
  cleanup changes no plan entry.  The reason is the one the claim gives: after the first
  cleanup no proposed name has the form \<open>"<family> 1"\<close> for a family counted once.
\<close>
theorem cleanup_is_idempotent:
  assumes "find_generic_instrument_names (InstrumentManager root_el) root_el = Inr self'"
  shows "cleanup_names (cleanup_names self') = cleanup_names self'
       \<and> (\<forall>(k, rm) \<in> set (part_rename_dict (cleanup_names self')).
            \<forall>(family, count) \<in> set (part_counter self').
              count = 1 \<longrightarrow> swap_name rm \<noteq> family @ '' 1'')
       \<and> (\<forall>(k, rm) \<in> set (instrument_rename_dict (cleanup_names self')).
            \<forall>(family, count) \<in> set (instrument_counter self').
              count = 1 \<longrightarrow> swap_name rm \<noteq> family @ '' 1'')"
proof -
  note p = cleanup_settles[OF discovered_numbered_plans(1)[OF assms]]
  note i = cleanup_settles[OF discovered_numbered_plans(2)[OF assms]]
  have "cleanup_names (cleanup_names self') = cleanup_names self'"
    unfolding cleanup_names_twice p(1) i(1) by (simp add: cleanup_names_once)
  moreover have "\<forall>(k, rm) \<in> set (part_rename_dict (cleanup_names self')).
            \<forall>(family, count) \<in> set (part_counter self').
              count = 1 \<longrightarrow> swap_name rm \<noteq> family @ '' 1''"
    using p(2) by (auto simp: cleanup_names_once)
  moreover have "\<forall>(k, rm) \<in> set (instrument_rename_dict (cleanup_names self')).
            \<forall>(family, count) \<in> set (instrument_counter self').
              count = 1 \<longrightarrow> swap_name rm \<noteq> family @ '' 1''"
    using i(2) by (auto simp: cleanup_names_once)
  ultimately show ?thesis by blast
qed

theorem cleanup_is_idempotent_witness:
  "cleanup_names (cleanup_names example_discovered) = cleanup_names example_discovered
   \<and> map_of (instrument_rename_dict (cleanup_names example_discovered)) (Some ''P2-I1'') =
       Some \<lparr> original_name = ''CinePerc Timpani'', swap_name = ''Timpani'' \<rparr>"
proof -
  have "map_of (instrument_rename_dict (cleanup_names example_discovered)) (Some ''P2-I1'') =
       Some \<lparr> original_name = ''CinePerc Timpani'', swap_name = ''Timpani'' \<rparr>"
    by code_simp
  with cleanup_is_idempotent[OF example_discovery] show ?thesis by blast
qed

lemma occurrences_append:
  "occurrences table family (xs @ ys) = occurrences table family xs + occurrences table family ys"
  by (simp add: occurrences_def)

lemma occurrences_take_le:
  "occurrences table family (take n ents) \<le> occurrences table family ents"
  using occurrences_append[of table family "take n ents" "drop n ents"] by simp

lemma occurrences_take_positive:
  assumes "j < length ents" and "family_of table (snd (ents ! j)) = Some family"
  shows "1 \<le> occurrences table family (take (Suc j) ents)"
proof -
  have "take (Suc j) ents = take j ents @ [ents ! j]"
    using assms(1) by (simp add: take_Suc_conv_app_nth)
  then show ?thesis
    using assms(2) by (simp add: occurrences_append occurrences_def case_prod_beta)
qed

lemma family_ranks:
  "map (\<lambda>j. occurrences table family (take (Suc j) ents))
       (filter (\<lambda>j. family_of table (snd (ents ! j)) = Some family) [0..<length ents]) =
     [1..<Suc (occurrences table family ents)]"
proof (induction ents rule: rev_induct)
  case Nil
  show ?case by (simp add: occurrences_Nil)
next
  case (snoc ent ents)
  have idx: "[0..<length (ents @ [ent])] = [0..<length ents] @ [length ents]"
    by simp
  have f: "filter (\<lambda>j. family_of table (snd ((ents @ [ent]) ! j)) = Some family) [0..<length ents]
         = filter (\<lambda>j. family_of table (snd (ents ! j)) = Some family) [0..<length ents]"
    by (rule filter_cong) (simp_all add: nth_append)
  have m: "map (\<lambda>j. occurrences table family (take (Suc j) (ents @ [ent])))
             (filter (\<lambda>j. family_of table (snd (ents ! j)) = Some family) [0..<length ents])
         = map (\<lambda>j. occurrences table family (take (Suc j) ents))
             (filter (\<lambda>j. family_of table (snd (ents ! j)) = Some family) [0..<length ents])"
    by (rule map_cong) simp_all
  have last: "occurrences table family (ents @ [ent]) =
                occurrences table family ents + (if family_of table (snd ent) = Some family then 1 else 0)"
    by (simp add: occurrences_def case_prod_beta)
  have tail: "map (\<lambda>j. occurrences table family (take (Suc j) (ents @ [ent])))
                (filter (\<lambda>j. family_of table (snd ((ents @ [ent]) ! j)) = Some family) [length ents])
            = (if family_of table (snd ent) = Some family
               then [Suc (occurrences table family ents)] else [])"
    by (simp add: last)
  show ?case
    unfolding idx filter_append map_append f m snoc.IH tail
    by (simp add: last)
qed

lemma cleaned_plan_entry:
  assumes "(counter, plan0) = fold (discover_entity create_instrument_swap_map) ents ([], [])"
    and "j < length ents" and "ents ! j = (k, Some raw_name)"
    and "resolve create_instrument_swap_map raw_name = Some family"
    and "k \<notin> fst ` set (drop (Suc j) ents)"
  shows "counter_get counter family = occurrences create_instrument_swap_map family ents"
    and "map_of (cleanup counter plan0) k =
           Some \<lparr> original_name = raw_name,
                  swap_name =
                    (if occurrences create_instrument_swap_map family ents = 1 then family
                     else family @ '' '' @
                       str_nat (occurrences create_instrument_swap_map family (take (Suc j) ents))) \<rparr>"
proof -
  let ?table = create_instrument_swap_map
  let ?rank = "occurrences ?table family (take (Suc j) ents)"
  from assms(1) have c: "counter = fst (fold (discover_entity ?table) ents ([], []))"
    and p0: "plan0 = snd (fold (discover_entity ?table) ents ([], []))"
    by (metis fst_conv, metis snd_conv)
  have np: "numbered_plan ?table (counter, plan0)"
    unfolding assms(1) by (rule numbered_plan_fold[OF numbered_plan_initial])
  show count: "counter_get counter family = occurrences ?table family ents"
    unfolding c using discover_counter[of ?table ents "[]" "[]" family]
    by (simp add: counter_get_def)
  have before: "map_of plan0 k =
      Some \<lparr> original_name = raw_name, swap_name = family @ '' '' @ str_nat ?rank \<rparr>"
    unfolding p0 using discover_numbering[OF assms(2,3,4,5), of "[]" "[]"]
    by (simp add: counter_get_def)
  have fam: "family_of ?table (snd (ents ! j)) = Some family"
    using assms(3,4) by (simp add: family_of_def)
  have r1: "1 \<le> ?rank"
    by (rule occurrences_take_positive[OF assms(2) fam])
  have r2: "?rank \<le> counter_get counter family"
    unfolding count by (rule occurrences_take_le)
  have d: "distinct (map fst counter)"
    and keys: "fst ` set counter \<subseteq> snd ` set ?table"
    using np by (simp_all add: numbered_plan_def)
  have "map_of (cleanup counter plan0) k =
      Some \<lparr> original_name = raw_name,
             swap_name = cleanup_name counter (family @ '' '' @ str_nat ?rank) \<rparr>"
    unfolding map_of_cleanup before by simp
  then show "map_of (cleanup counter plan0) k =
           Some \<lparr> original_name = raw_name,
                  swap_name =
                    (if occurrences ?table family ents = 1 then family
                     else family @ '' '' @ str_nat ?rank) \<rparr>"
    unfolding cleanup_name_numbered(1)[OF d keys r1 r2] count .
qed

text \<open>
  Claim C3.  After discovery and cleanup, in either namespace, the counter of a family is
  the number of entities that resolve to it, and the \<open>j\<close>-th entity, when it resolves
  to the family and no later entity reuses its id, has the bare family name as its proposed
  name when the family was counted once, and otherwise the family name followed by its
  rank, the number of entities up to and including it that resolve to the family.  The ranks
  of the entities of a family, in document order, are 1, 2, ..., N, where N is the family's
  count: no number is missing.
\<close>
theorem cleanup_strips_single_occurrences:
  assumes "find_generic_instrument_names (InstrumentManager root_el) root_el = Inr self'"
    and "(ents, plan, counter) =
           (part_entities root_el, part_rename_dict (cleanup_names self'),
            part_counter (cleanup_names self'))
       \<or> (ents, plan, counter) =
           (instrument_entities root_el, instrument_rename_dict (cleanup_names self'),
            instrument_counter (cleanup_names self'))"
    and "j < length ents" and "ents ! j = (k, Some raw_name)"
    and "resolve create_instrument_swap_map raw_name = Some family"
    and "k \<notin> fst ` set (drop (Suc j) ents)"
  shows "counter_get counter family = occurrences create_instrument_swap_map family ents
       \<and> map_of plan k =
           Some \<lparr> original_name = raw_name,
                  swap_name =
                    (if counter_get counter family = 1 then family
                     else family @ '' '' @
                       str_nat (occurrences create_instrument_swap_map family (take (Suc j) ents))) \<rparr>
       \<and> map (\<lambda>j. occurrences create_instrument_swap_map family (take (Suc j) ents))
           (filter (\<lambda>j. family_of create_instrument_swap_map (snd (ents ! j)) = Some family)
              [0..<length ents]) =
         [1..<Suc (counter_get counter family)]"
proof -
  let ?table = create_instrument_swap_map
  obtain plan0 where
    eq: "(counter, plan0) = fold (discover_entity ?table) ents ([], [])"
    and plan: "plan = cleanup counter plan0"
    using assms(2) discovered_plans(1,2)[OF assms(1)]
    by (auto simp: cleanup_names_once)
  note e = cleaned_plan_entry[OF eq assms(3,4,5,6)]
  from e(1) e(2) family_ranks[of ?table family ents] show ?thesis
    by (simp add: plan)
qed

theorem cleanup_strips_single_occurrences_witness:
  "map_of (part_rename_dict (cleanup_names example_discovered)) (Some ''P2'') =
     Some \<lparr> original_name = ''Flute'', swap_name = ''Flute 2'' \<rparr>
   \<and> counter_get (part_counter (cleanup_names example_discovered)) ''Flute'' = 2
   \<and> map_of (instrument_rename_dict (cleanup_names example_discovered)) (Some ''P2-I1'') =
     Some \<lparr> original_name = ''CinePerc Timpani'', swap_name = ''Timpani'' \<rparr>
   \<and> counter_get (instrument_counter (cleanup_names example_discovered)) ''Timpani'' = 1"
proof -
  let ?pe = "part_entities example_score" and ?ie = "instrument_entities example_score"
  let ?s = "cleanup_names example_discovered"
  have rf: "resolve create_instrument_swap_map ''Flute'' = Some ''Flute''"
    by code_simp
  have rt: "resolve create_instrument_swap_map ''CinePerc Timpani'' = Some ''Timpani''"
    by code_simp
  have p1: "(?pe, part_rename_dict ?s, part_counter ?s) =
              (part_entities example_score, part_rename_dict ?s, part_counter ?s)
          \<or> (?pe, part_rename_dict ?s, part_counter ?s) =
              (instrument_entities example_score, instrument_rename_dict ?s, instrument_counter ?s)"
    by simp
  have p2: "1 < length ?pe" by code_simp
  have p3: "?pe ! 1 = (Some ''P2'', Some ''Flute'')" by code_simp
  have p4: "Some ''P2'' \<notin> fst ` set (drop (Suc 1) ?pe)" by code_simp
  have o1: "occurrences create_instrument_swap_map ''Flute'' ?pe = 2" by code_simp
  have o2: "str_nat (occurrences create_instrument_swap_map ''Flute'' (take (Suc 1) ?pe)) = ''2''"
    by code_simp
  have i1: "(?ie, instrument_rename_dict ?s, instrument_counter ?s) =
              (part_entities example_score, part_rename_dict ?s, part_counter ?s)
          \<or> (?ie, instrument_rename_dict ?s, instrument_counter ?s) =
              (instrument_entities example_score, instrument_rename_dict ?s, instrument_counter ?s)"
    by simp
  have i2: "1 < length ?ie" by code_simp
  have i3: "?ie ! 1 = (Some ''P2-I1'', Some ''CinePerc Timpani'')" by code_simp
  have i4: "Some ''P2-I1'' \<notin> fst ` set (drop (Suc 1) ?ie)" by code_simp
  have o3: "occurrences create_instrument_swap_map ''Timpani'' ?ie = 1" by code_simp
  note a = cleanup_strips_single_occurrences[OF example_discovery p1 p2 p3 rf p4]
  note b = cleanup_strips_single_occurrences[OF example_discovery i1 i2 i3 rt i4]
  from a have a1: "counter_get (part_counter ?s) ''Flute'' = 2"
    unfolding o1 by blast
  from a have a2: "map_of (part_rename_dict ?s) (Some ''P2'') =
     Some \<lparr> original_name = ''Flute'', swap_name = ''Flute 2'' \<rparr>"
    unfolding a1 o2 by simp
  from b have b1: "counter_get (instrument_counter ?s) ''Timpani'' = 1"
    unfolding o3 by blast
  from b have b2: "map_of (instrument_rename_dict ?s) (Some ''P2-I1'') =
     Some \<lparr> original_name = ''CinePerc Timpani'', swap_name = ''Timpani'' \<rparr>"
    unfolding b1 by simp
  from a1 a2 b1 b2 show ?thesis by blast
qed

section \<open>Apply on the whole document\<close>

lemma update_where_success:
  "(\<And>c. c \<in> set cs \<Longrightarrow> P c \<Longrightarrow> body c = Inr (g c)) \<Longrightarrow>
   update_where P body cs = Inr (map (\<lambda>c. if P c then g c else c) cs)"
  by (induction cs) simp_all

lemma update_where_first_failure:
  assumes "\<And>b. b \<in> set before \<Longrightarrow> P b \<Longrightarrow> body b = Inr (g b)"
    and "P c" and "body c = Inl (e, x)"
  shows "update_where P body (before @ [c] @ after) =
           Inl (e, map (\<lambda>b. if P b then g b else b) before @ [x] @ after)"
  using assms(1)
proof (induction before)
  case Nil
  show ?case using assms(2,3) by simp
next
  case (Cons b before)
  have IH: "update_where P body (before @ [c] @ after) =
           Inl (e, map (\<lambda>b. if P b then g b else b) before @ [x] @ after)"
    by (rule Cons.IH) (simp add: Cons.prems)
  show ?case
    using IH Cons.prems[of b] by simp
qed

lemma update_first_exact:
  "List.find P cs = Some c \<Longrightarrow>
   update_first P body cs =
     (case body c of
        Inl (e, x) \<Rightarrow> Inl (e, map_first P (\<lambda>_. x) cs)
      | Inr x \<Rightarrow> Inr (map_first P (\<lambda>_. x) cs))"
  by (induction cs) (auto split: sum.splits if_splits)

lemma map_first_cong_first:
  "List.find P cs = Some c \<Longrightarrow> g c = h c \<Longrightarrow> map_first P g cs = map_first P h cs"
  by (induction cs) (auto split: if_splits)

lemma rename_element_consistent:
  assumes "consistent rename_dict tag_name element"
  shows "rename_element element rename_dict tag_name = Inr (relabel rename_dict tag_name element)"
proof (cases "map_of rename_dict (get element ''id'')")
  case None
  then show ?thesis by (simp add: rename_element_def relabel_def)
next
  case (Some rename_map)
  let ?body = "\<lambda>tag. if el_text tag = Some (original_name rename_map)
                       then Inr (set_text tag (Some (swap_name rename_map)))
                       else Inl (AssertionError, tag)"
  have "update_where (\<lambda>c. el_tag c = tag_name) ?body (el_children element) =
          Inr (map (\<lambda>c. if el_tag c = tag_name then set_text c (Some (swap_name rename_map)) else c)
                 (el_children element))"
  proof (rule update_where_success)
    fix c assume "c \<in> set (el_children element)" "el_tag c = tag_name"
    with assms Some have "el_text c = Some (original_name rename_map)"
      by (auto simp: consistent_def findall_def list_all_iff)
    then show "?body c = Inr (set_text c (Some (swap_name rename_map)))" by simp
  qed
  then show ?thesis
    using Some by (simp add: rename_element_def relabel_def with_children_def)
qed

lemma rename_element_inconsistent:
  assumes "map_of rename_dict (get element ''id'') = Some rename_map"
    and "el_children element = before @ [label] @ after" and "el_tag label = tag_name"
    and "\<And>c. c \<in> set before \<union> set after \<Longrightarrow> el_tag c \<noteq> tag_name"
    and "el_text label \<noteq> Some (original_name rename_map)"
  shows "rename_element element rename_dict tag_name = Inl (AssertionError, element)"
proof -
  let ?body = "\<lambda>tag. if el_text tag = Some (original_name rename_map)
                       then Inr (set_text tag (Some (swap_name rename_map)))
                       else Inl (AssertionError, tag)"
  have "update_where (\<lambda>c. el_tag c = tag_name) ?body (before @ [label] @ after) =
          Inl (AssertionError, map (\<lambda>b. if el_tag b = tag_name then b else b) before @ [label] @ after)"
    by (rule update_where_first_failure) (use assms in auto)
  moreover have "set_children element (before @ [label] @ after) = element"
    using assms(2) set_children_id[of element] by simp
  ultimately show ?thesis
    using assms(1,2) by (simp add: rename_element_def with_children_def)
qed

lemma relabel_shape:
  "el_tag (relabel d t e) = el_tag e" "get (relabel d t e) k = get e k"
  "set_children (relabel d t e) cs = set_children e cs"
  by (auto simp: relabel_def set_simps split: option.splits)

lemma relabel_children_other:
  "t' \<noteq> t \<Longrightarrow> filter (\<lambda>c. el_tag c = t') (el_children (relabel d t e)) = filter (\<lambda>c. el_tag c = t') (el_children e)"
proof (cases "map_of d (get e ''id'')")
  case None
  then show ?thesis by (simp add: relabel_def)
next
  case (Some rm)
  assume "t' \<noteq> t"
  then have "filter (\<lambda>c. el_tag c = t')
               (map (\<lambda>c. if el_tag c = t then set_text c (Some (swap_name rm)) else c) cs)
           = filter (\<lambda>c. el_tag c = t') cs" for cs
    by (induction cs) (auto simp: set_simps)
  with Some show ?thesis by (simp add: relabel_def set_simps)
qed

lemma rename_score_part_consistent:
  assumes "consistent_score_part self score_part"
  shows "rename_score_part self score_part = Inr (relabel_score_part self score_part)"
proof -
  let ?sp1 = "relabel (part_rename_dict self) ''part-name'' score_part"
  let ?body = "\<lambda>score_instrument.
                  rename_element score_instrument (instrument_rename_dict self) ''instrument-name''"
  have 1: "rename_element score_part (part_rename_dict self) ''part-name'' = Inr ?sp1"
    using assms by (intro rename_element_consistent) (simp add: consistent_score_part_def)
  have instr: "findall ?sp1 ''score-instrument'' = findall score_part ''score-instrument''"
    unfolding findall_def by (rule relabel_children_other) simp
  have "update_where (\<lambda>c. el_tag c = ''score-instrument'') ?body (el_children ?sp1) =
          Inr (map (\<lambda>c. if el_tag c = ''score-instrument''
                         then relabel (instrument_rename_dict self) ''instrument-name'' c else c)
                 (el_children ?sp1))"
  proof (rule update_where_success)
    fix c assume "c \<in> set (el_children ?sp1)" "el_tag c = ''score-instrument''"
    then have "c \<in> set (findall ?sp1 ''score-instrument'')" by (simp add: findall_def)
    with assms instr have "consistent (instrument_rename_dict self) ''instrument-name'' c"
      by (simp add: consistent_score_part_def list_all_iff)
    then show "?body c = Inr (relabel (instrument_rename_dict self) ''instrument-name'' c)"
      by (rule rename_element_consistent)
  qed
  then show ?thesis
    by (simp add: rename_score_part_def 1 with_children_def relabel_score_part_def
          relabel_instruments_def relabel_shape)
qed


lemma rename_instruments_exact:
  assumes "find_el root_el ''part-list'' = Some part_list"
  shows "rename_instruments self root_el =
           (case update_where (\<lambda>c. el_tag c = ''score-part'') (rename_score_part self)
                   (el_children part_list) of
              Inl (e, cs) \<Rightarrow> Inl (e, in_first_part_list root_el (\<lambda>_. cs))
            | Inr cs \<Rightarrow> Inr (in_first_part_list root_el (\<lambda>_. cs)))"
proof -
  let ?P = "\<lambda>c. el_tag c = ''part-list''"
  let ?body = "\<lambda>part_list.
                  with_children part_list
                    (update_where (\<lambda>c. el_tag c = ''score-part'') (rename_score_part self)
                       (el_children part_list))"
  have f: "List.find ?P (el_children root_el) = Some part_list"
    using assms by (simp add: find_el_def)
  have m: "map_first ?P (\<lambda>_. set_children part_list cs) (el_children root_el)
         = map_first ?P (\<lambda>part_list. set_children part_list cs) (el_children root_el)" for cs
    by (rule map_first_cong_first[OF f]) simp
  show ?thesis
  proof (cases "update_where (\<lambda>c. el_tag c = ''score-part'') (rename_score_part self)
                   (el_children part_list)")
    case (Inl ecs)
    obtain e cs where ecs: "ecs = (e, cs)" by (cases ecs)
    show ?thesis
      unfolding rename_instruments_def assms option.case update_first_exact[OF f, of ?body]
      by (simp add: Inl ecs with_children_def in_first_part_list_def m)
  next
    case (Inr cs)
    show ?thesis
      unfolding rename_instruments_def assms option.case update_first_exact[OF f, of ?body]
      by (simp add: Inr with_children_def in_first_part_list_def m)
  qed
qed

lemma in_first_part_list_cong:
  assumes "find_el root_el ''part-list'' = Some part_list" and "g part_list = h part_list"
  shows "in_first_part_list root_el g = in_first_part_list root_el h"
proof -
  have "map_first (\<lambda>c. el_tag c = ''part-list'') (\<lambda>part_list. set_children part_list (g part_list))
          (el_children root_el)
      = map_first (\<lambda>c. el_tag c = ''part-list'') (\<lambda>part_list. set_children part_list (h part_list))
          (el_children root_el)"
    by (rule map_first_cong_first[where c = part_list]) (use assms in \<open>simp_all add: find_el_def\<close>)
  then show ?thesis
    by (simp only: in_first_part_list_def)
qed

lemma rename_instruments_consistent:
  assumes "find_el root_el ''part-list'' = Some part_list"
    and "consistent_document self root_el"
  shows "rename_instruments self root_el = Inr (apply_plan self root_el)"
proof -
  have "update_where (\<lambda>c. el_tag c = ''score-part'') (rename_score_part self) (el_children part_list)
        = Inr (relabel_score_parts self (el_children part_list))"
    unfolding relabel_score_parts_def
  proof (rule update_where_success)
    fix c assume "c \<in> set (el_children part_list)" "el_tag c = ''score-part''"
    then have "c \<in> set (score_parts root_el)"
      by (simp add: score_parts_def assms(1) findall_def)
    with assms(2) have "consistent_score_part self c"
      by (simp add: consistent_document_def list_all_iff)
    then show "rename_score_part self c = Inr (relabel_score_part self c)"
      by (rule rename_score_part_consistent)
  qed
  then show ?thesis
    unfolding rename_instruments_exact[OF assms(1)] apply_plan_def
    using in_first_part_list_cong[OF assms(1),
            of "\<lambda>_. relabel_score_parts self (el_children part_list)"
               "\<lambda>part_list. relabel_score_parts self (el_children part_list)"]
    by simp
qed

lemma rename_instruments_first_failure:
  assumes "find_el root_el ''part-list'' = Some part_list"
    and "el_children part_list = before @ [score_part] @ after"
    and "el_tag score_part = ''score-part''"
    and "list_all (consistent_score_part self) (filter (\<lambda>c. el_tag c = ''score-part'') before)"
    and "rename_score_part self score_part = Inl (e, x)"
  shows "rename_instruments self root_el =
           Inl (e, in_first_part_list root_el
                     (\<lambda>_. relabel_score_parts self before @ [x] @ after))"
proof -
  have "update_where (\<lambda>c. el_tag c = ''score-part'') (rename_score_part self)
          (before @ [score_part] @ after)
        = Inl (e, map (\<lambda>c. if el_tag c = ''score-part'' then relabel_score_part self c else c) before
                  @ [x] @ after)"
  proof (rule update_where_first_failure[where P = "\<lambda>c. el_tag c = ''score-part''"
        and body = "rename_score_part self" and g = "relabel_score_part self", OF _ assms(3,5)])
    fix b assume "b \<in> set before" "el_tag b = ''score-part''"
    with assms(4) have "consistent_score_part self b"
      by (simp add: list_all_iff)
    then show "rename_score_part self b = Inr (relabel_score_part self b)"
      by (rule rename_score_part_consistent)
  qed
  then show ?thesis
    unfolding rename_instruments_exact[OF assms(1)] assms(2)
    by (simp add: relabel_score_parts_def)
qed

lemma rename_score_part_part_failure:
  assumes "map_of (part_rename_dict self) (get score_part ''id'') = Some rename_map"
    and "el_children score_part = before @ [label] @ after" and "el_tag label = ''part-name''"
    and "\<And>c. c \<in> set before \<union> set after \<Longrightarrow> el_tag c \<noteq> ''part-name''"
    and "el_text label \<noteq> Some (original_name rename_map)"
  shows "rename_score_part self score_part = Inl (AssertionError, score_part)"
  using rename_element_inconsistent[OF assms]
  by (simp add: rename_score_part_def)

lemma rename_score_part_instrument_failure:
  assumes "consistent (part_rename_dict self) ''part-name'' score_part"
    and "el_children (relabel (part_rename_dict self) ''part-name'' score_part)
           = before @ [score_instrument] @ after"
    and "el_tag score_instrument = ''score-instrument''"
    and "list_all (consistent (instrument_rename_dict self) ''instrument-name'')
           (filter (\<lambda>c. el_tag c = ''score-instrument'') before)"
    and "rename_element score_instrument (instrument_rename_dict self) ''instrument-name'' = Inl (e, x)"
  shows "rename_score_part self score_part =
           Inl (e, set_children score_part (relabel_instruments self before @ [x] @ after))"
proof -
  let ?sp1 = "relabel (part_rename_dict self) ''part-name'' score_part"
  let ?body = "\<lambda>score_instrument.
                  rename_element score_instrument (instrument_rename_dict self) ''instrument-name''"
  have 1: "rename_element score_part (part_rename_dict self) ''part-name'' = Inr ?sp1"
    using assms(1) by (rule rename_element_consistent)
  have "update_where (\<lambda>c. el_tag c = ''score-instrument'') ?body (before @ [score_instrument] @ after)
        = Inl (e, map (\<lambda>c. if el_tag c = ''score-instrument''
                         then relabel (instrument_rename_dict self) ''instrument-name'' c else c) before
                  @ [x] @ after)"
  proof (rule update_where_first_failure[where P = "\<lambda>c. el_tag c = ''score-instrument''"
        and body = ?body and g = "relabel (instrument_rename_dict self) ''instrument-name''",
        OF _ assms(3,5)])
    fix b assume "b \<in> set before" "el_tag b = ''score-instrument''"
    with assms(4) have "consistent (instrument_rename_dict self) ''instrument-name'' b"
      by (simp add: list_all_iff)
    then show "?body b = Inr (relabel (instrument_rename_dict self) ''instrument-name'' b)"
      by (rule rename_element_consistent)
  qed
  then show ?thesis
    by (simp add: rename_score_part_def 1 assms(2) with_children_def relabel_instruments_def
          relabel_shape)
qed


text \<open>
  Claim C4.  For an entity with a plan entry and one label field, \<open>_rename_element\<close>
  raises AssertionError (the specification's ConsistencyError) and returns the entity as it
  was when the label's text is not exactly the recorded original name, and otherwise
  overwrites the label's text with the proposed name.  The failure reaches the caller: when
  \<open>_rename_element\<close> fails on a score part of the document, or on one of its score
  instruments, \<open>rename_instruments\<close> raises AssertionError.  On the document, apply
  does exactly this: when every entity with a plan entry carries its original name, it
  returns the tree with the proposed name written into every such label; when the first
  entity in traversal order that does not is a score part, or a score instrument of a score
  part, it raises AssertionError and leaves the tree with the entities before that one
  relabelled and that entity's label, and everything after it, as they were.
\<close>
theorem apply_checks_original_name:
  "(map_of rename_dict (get element ''id'') = Some rename_map
      \<and> el_children element = before @ [label] @ after \<and> el_tag label = tag_name
      \<and> (\<forall>c \<in> set before \<union> set after. el_tag c \<noteq> tag_name) \<longrightarrow>
    rename_element element rename_dict tag_name =
      (if el_text label = Some (original_name rename_map)
       then Inr (set_children element
                   (before @ [set_text label (Some (swap_name rename_map))] @ after))
       else Inl (AssertionError, element)))
   \<and> (find_el root_el ''part-list'' = Some part_list
      \<and> score_part \<in> set (findall part_list ''score-part'')
      \<and> (rename_element score_part (part_rename_dict self) ''part-name'' = Inl (e, x)
         \<or> (score_instrument \<in> set (findall score_part ''score-instrument'')
            \<and> rename_element score_instrument (instrument_rename_dict self) ''instrument-name''
                = Inl (e, x))) \<longrightarrow>
      (\<exists>r. rename_instruments self root_el = Inl (AssertionError, r)))
   \<and> (find_el root_el ''part-list'' = Some part_list \<and> consistent_document self root_el \<longrightarrow>
      rename_instruments self root_el = Inr (apply_plan self root_el))
   \<and> (find_el root_el ''part-list'' = Some part_list
      \<and> el_children part_list = parts_before @ [score_part] @ parts_after
      \<and> el_tag score_part = ''score-part''
      \<and> list_all (consistent_score_part self) (filter (\<lambda>c. el_tag c = ''score-part'') parts_before)
      \<and> map_of (part_rename_dict self) (get score_part ''id'') = Some rename_map
      \<and> el_children score_part = before @ [label] @ after \<and> el_tag label = ''part-name''
      \<and> (\<forall>c \<in> set before \<union> set after. el_tag c \<noteq> ''part-name'')
      \<and> el_text label \<noteq> Some (original_name rename_map) \<longrightarrow>
      rename_instruments self root_el =
        Inl (AssertionError,
             in_first_part_list root_el
               (\<lambda>_. relabel_score_parts self parts_before @ [score_part] @ parts_after)))
   \<and> (find_el root_el ''part-list'' = Some part_list
      \<and> el_children part_list = parts_before @ [score_part] @ parts_after
      \<and> el_tag score_part = ''score-part''
      \<and> list_all (consistent_score_part self) (filter (\<lambda>c. el_tag c = ''score-part'') parts_before)
      \<and> consistent (part_rename_dict self) ''part-name'' score_part
      \<and> el_children (relabel (part_rename_dict self) ''part-name'' score_part)
           = instruments_before @ [score_instrument] @ instruments_after
      \<and> el_tag score_instrument = ''score-instrument''
      \<and> list_all (consistent (instrument_rename_dict self) ''instrument-name'')
           (filter (\<lambda>c. el_tag c = ''score-instrument'') instruments_before)
      \<and> map_of (instrument_rename_dict self) (get score_instrument ''id'') = Some rename_map
      \<and> el_children score_instrument = before @ [label] @ after \<and> el_tag label = ''instrument-name''
      \<and> (\<forall>c \<in> set before \<union> set after. el_tag c \<noteq> ''instrument-name'')
      \<and> el_text label \<noteq> Some (original_name rename_map) \<longrightarrow>
      rename_instruments self root_el =
        Inl (AssertionError,
             in_first_part_list root_el
               (\<lambda>_. relabel_score_parts self parts_before
                     @ [set_children score_part
                          (relabel_instruments self instruments_before
                           @ [score_instrument] @ instruments_after)]
                     @ parts_after)))"
proof (intro conjI impI)
  assume a: "map_of rename_dict (get element ''id'') = Some rename_map
      \<and> el_children element = before @ [label] @ after \<and> el_tag label = tag_name
      \<and> (\<forall>c \<in> set before \<union> set after. el_tag c \<noteq> tag_name)"
  let ?body = "\<lambda>tag. if el_text tag = Some (original_name rename_map)
                       then Inr (set_text tag (Some (swap_name rename_map)))
                       else Inl (AssertionError, tag)"
  have "update_where (\<lambda>c. el_tag c = tag_name) ?body (before @ [label] @ after) =
           (case ?body label of
              Inl (e, label') \<Rightarrow> Inl (e, before @ [label'] @ after)
            | Inr label' \<Rightarrow> Inr (before @ [label'] @ after))"
    by (rule update_where_single) (use a in auto)
  moreover have "set_children element (before @ [label] @ after) = element"
    using a set_children_id[of element] by simp
  ultimately show "rename_element element rename_dict tag_name =
      (if el_text label = Some (original_name rename_map)
       then Inr (set_children element
                   (before @ [set_text label (Some (swap_name rename_map))] @ after))
       else Inl (AssertionError, element))"
    using a by (simp add: rename_element_def with_children_def)
next
  assume a: "find_el root_el ''part-list'' = Some part_list
      \<and> score_part \<in> set (findall part_list ''score-part'')
      \<and> (rename_element score_part (part_rename_dict self) ''part-name'' = Inl (e, x)
         \<or> (score_instrument \<in> set (findall score_part ''score-instrument'')
            \<and> rename_element score_instrument (instrument_rename_dict self) ''instrument-name''
                = Inl (e, x)))"
  then obtain x' where "rename_score_part self score_part = Inl (AssertionError, x')"
    using rename_score_part_fails[of score_part self e x score_instrument] by blast
  with a show "\<exists>r. rename_instruments self root_el = Inl (AssertionError, r)"
    using rename_instruments_fails by blast
next
  assume "find_el root_el ''part-list'' = Some part_list \<and> consistent_document self root_el"
  then show "rename_instruments self root_el = Inr (apply_plan self root_el)"
    using rename_instruments_consistent by blast
next
  assume a: "find_el root_el ''part-list'' = Some part_list
      \<and> el_children part_list = parts_before @ [score_part] @ parts_after
      \<and> el_tag score_part = ''score-part''
      \<and> list_all (consistent_score_part self) (filter (\<lambda>c. el_tag c = ''score-part'') parts_before)
      \<and> map_of (part_rename_dict self) (get score_part ''id'') = Some rename_map
      \<and> el_children score_part = before @ [label] @ after \<and> el_tag label = ''part-name''
      \<and> (\<forall>c \<in> set before \<union> set after. el_tag c \<noteq> ''part-name'')
      \<and> el_text label \<noteq> Some (original_name rename_map)"
  have "rename_score_part self score_part = Inl (AssertionError, score_part)"
    by (rule rename_score_part_part_failure[of self score_part rename_map before label after])
       (use a in auto)
  with a show "rename_instruments self root_el =
        Inl (AssertionError,
             in_first_part_list root_el
               (\<lambda>_. relabel_score_parts self parts_before @ [score_part] @ parts_after))"
    using rename_instruments_first_failure by blast
next
  assume a: "find_el root_el ''part-list'' = Some part_list
      \<and> el_children part_list = parts_before @ [score_part] @ parts_after
      \<and> el_tag score_part = ''score-part''
      \<and> list_all (consistent_score_part self) (filter (\<lambda>c. el_tag c = ''score-part'') parts_before)
      \<and> consistent (part_rename_dict self) ''part-name'' score_part
      \<and> el_children (relabel (part_rename_dict self) ''part-name'' score_part)
           = instruments_before @ [score_instrument] @ instruments_after
      \<and> el_tag score_instrument = ''score-instrument''
      \<and> list_all (consistent (instrument_rename_dict self) ''instrument-name'')
           (filter (\<lambda>c. el_tag c = ''score-instrument'') instruments_before)
      \<and> map_of (instrument_rename_dict self) (get score_instrument ''id'') = Some rename_map
      \<and> el_children score_instrument = before @ [label] @ after \<and> el_tag label = ''instrument-name''
      \<and> (\<forall>c \<in> set before \<union> set after. el_tag c \<noteq> ''instrument-name'')
      \<and> el_text label \<noteq> Some (original_name rename_map)"
  have "rename_element score_instrument (instrument_rename_dict self) ''instrument-name''
        = Inl (AssertionError, score_instrument)"
    by (rule rename_element_inconsistent[of _ _ rename_map before label after]) (use a in auto)
  with a have "rename_score_part self score_part =
           Inl (AssertionError,
                set_children score_part
                  (relabel_instruments self instruments_before @ [score_instrument] @ instruments_after))"
    using rename_score_part_instrument_failure by blast
  with a show "rename_instruments self root_el =
        Inl (AssertionError,
             in_first_part_list root_el
               (\<lambda>_. relabel_score_parts self parts_before
                     @ [set_children score_part
                          (relabel_instruments self instruments_before
                           @ [score_instrument] @ instruments_after)]
                     @ parts_after))"
    using rename_instruments_first_failure by blast
qed
theorem apply_checks_original_name_witness:
  "rename_element
     (Element ''score-part'' [(''id'', ''P1'')] None
        [Element ''identification'' [] None [], Element ''part-name'' [] (Some ''Flute'') []])
     [(Some ''P1'', \<lparr> original_name = ''Oboe'', swap_name = ''Oboe 1'' \<rparr>)] ''part-name''
   = Inl (AssertionError,
       Element ''score-part'' [(''id'', ''P1'')] None
        [Element ''identification'' [] None [], Element ''part-name'' [] (Some ''Flute'') []])
   \<and> rename_element
     (Element ''score-part'' [(''id'', ''P1'')] None
        [Element ''identification'' [] None [], Element ''part-name'' [] (Some ''Flute'') []])
     [(Some ''P1'', \<lparr> original_name = ''Flute'', swap_name = ''Flute 1'' \<rparr>)] ''part-name''
   = Inr (Element ''score-part'' [(''id'', ''P1'')] None
        [Element ''identification'' [] None [], Element ''part-name'' [] (Some ''Flute 1'') []])
   \<and> (\<exists>r. rename_instruments stale_part_plan example_score = Inl (AssertionError, r))
   \<and> rename_instruments (cleanup_names example_discovered) example_score = Inr example_normalized
   \<and> rename_instruments stale_part_plan example_score = Inl (AssertionError, example_failed_at_part)
   \<and> rename_instruments stale_instrument_plan example_score
       = Inl (AssertionError, example_failed_at_instrument)"
proof -
  note thm1 = apply_checks_original_name[THEN conjunct1]
  note thm2 = apply_checks_original_name[THEN conjunct2, THEN conjunct1]
  note thm3 = apply_checks_original_name[THEN conjunct2, THEN conjunct2, THEN conjunct1]
  note thm4 = apply_checks_original_name[THEN conjunct2, THEN conjunct2, THEN conjunct2, THEN conjunct1]
  note thm5 = apply_checks_original_name[THEN conjunct2, THEN conjunct2, THEN conjunct2, THEN conjunct2]
  let ?label = "Element ''part-name'' [] (Some ''Flute'') []"
  let ?before = "[Element ''identification'' [] None []]"
  let ?sp = "Element ''score-part'' [(''id'', ''P1'')] None (?before @ [?label] @ [])"
  let ?stale = "\<lparr> original_name = ''Oboe'', swap_name = ''Oboe 1'' \<rparr>"
  let ?fresh = "\<lparr> original_name = ''Flute'', swap_name = ''Flute 1'' \<rparr>"
  have 1: "rename_element ?sp [(Some ''P1'', ?stale)] ''part-name'' = Inl (AssertionError, ?sp)"
    using thm1[of "[(Some ''P1'', ?stale)]" ?sp ?stale ?before ?label "[]" "''part-name''"]
    by (simp add: get_def)
  have 2: "rename_element ?sp [(Some ''P1'', ?fresh)] ''part-name''
           = Inr (set_children ?sp (?before @ [set_text ?label (Some ''Flute 1'')] @ []))"
    using thm1[of "[(Some ''P1'', ?fresh)]" ?sp ?fresh ?before ?label "[]" "''part-name''"]
    by (simp add: get_def)
  let ?i1 = "Element ''score-instrument'' [(''id'', ''P1-I1'')] None
                [Element ''instrument-name'' [] (Some ''Flute'') []]"
  let ?l2 = "Element ''instrument-name'' [] (Some ''CinePerc Timpani'') []"
  let ?i2 = "Element ''score-instrument'' [(''id'', ''P2-I1'')] None [?l2]"
  let ?i3 = "Element ''score-instrument'' [(''id'', ''P3-I1'')] None
                [Element ''instrument-name'' [] (Some ''Flute'') []]"
  let ?p1 = "Element ''score-part'' [(''id'', ''P1'')] None [?label, ?i1]"
  let ?p2 = "Element ''score-part'' [(''id'', ''P2'')] None [?label, ?i2]"
  let ?p3 = "Element ''score-part'' [(''id'', ''P3'')] None
               [Element ''part-name'' [] (Some ''Kazoo'') [], ?i3]"
  let ?pl = "Element ''part-list'' [] None [?p1, ?p2, ?p3]"
  have pl: "find_el example_score ''part-list'' = Some ?pl"
    by code_simp
  have kids: "el_children ?pl = [?p1] @ [?p2] @ [?p3]"
    by simp
  have tag2: "el_tag ?p2 = ''score-part''"
    by simp
  have f: "rename_element ?p2 (part_rename_dict stale_part_plan) ''part-name''
           = Inl (AssertionError, ?p2)"
    by code_simp
  have 3: "\<exists>r. rename_instruments stale_part_plan example_score = Inl (AssertionError, r)"
    using thm2[of example_score ?pl ?p2 stale_part_plan AssertionError ?p2] pl f
    by (simp add: findall_def)
  have c: "consistent_document (cleanup_names example_discovered) example_score"
    by code_simp
  have n: "apply_plan (cleanup_names example_discovered) example_score = example_normalized"
    by code_simp
  have 4: "rename_instruments (cleanup_names example_discovered) example_score = Inr example_normalized"
    using thm3[of example_score ?pl "cleanup_names example_discovered"] pl c n
    by simp
  have b1: "list_all (consistent_score_part stale_part_plan)
              (filter (\<lambda>c. el_tag c = ''score-part'') [?p1])"
    by code_simp
  have m1: "map_of (part_rename_dict stale_part_plan) (get ?p2 ''id'') = Some ?stale"
    by code_simp
  have k2: "el_children ?p2 = [] @ [?label] @ [?i2]" "el_tag ?label = ''part-name''"
    "\<forall>c \<in> set [] \<union> set [?i2]. el_tag c \<noteq> ''part-name''"
    "el_text ?label \<noteq> Some (original_name ?stale)"
    by simp_all
  have t1: "in_first_part_list example_score
               (\<lambda>_. relabel_score_parts stale_part_plan [?p1] @ [?p2] @ [?p3])
            = example_failed_at_part"
    by code_simp
  have 5: "rename_instruments stale_part_plan example_score
           = Inl (AssertionError, example_failed_at_part)"
    using thm4[of example_score ?pl "[?p1]" ?p2 "[?p3]" stale_part_plan ?stale "[]" ?label "[?i2]"]
      pl kids tag2 b1 m1 k2
    unfolding t1 by blast
  let ?l2' = "Element ''part-name'' [] (Some ''Flute 2'') []"
  have b2: "list_all (consistent_score_part stale_instrument_plan)
              (filter (\<lambda>c. el_tag c = ''score-part'') [?p1])"
    by code_simp
  have cp: "consistent (part_rename_dict stale_instrument_plan) ''part-name'' ?p2"
    by code_simp
  have rk: "el_children (relabel (part_rename_dict stale_instrument_plan) ''part-name'' ?p2)
            = [?l2'] @ [?i2] @ []"
    by code_simp
  have bi: "list_all (consistent (instrument_rename_dict stale_instrument_plan) ''instrument-name'')
              (filter (\<lambda>c. el_tag c = ''score-instrument'') [?l2'])"
    by code_simp
  have m2: "map_of (instrument_rename_dict stale_instrument_plan) (get ?i2 ''id'') = Some ?stale"
    by code_simp
  have ki: "el_tag ?i2 = ''score-instrument''" "el_children ?i2 = [] @ [?l2] @ []"
    "el_tag ?l2 = ''instrument-name''"
    "\<forall>c \<in> set [] \<union> set []. el_tag c \<noteq> ''instrument-name''"
    "el_text ?l2 \<noteq> Some (original_name ?stale)"
    by simp_all
  have t2: "in_first_part_list example_score
               (\<lambda>_. relabel_score_parts stale_instrument_plan [?p1]
                     @ [set_children ?p2
                          (relabel_instruments stale_instrument_plan [?l2'] @ [?i2] @ [])]
                     @ [?p3])
            = example_failed_at_instrument"
    by code_simp
  have 6: "rename_instruments stale_instrument_plan example_score
           = Inl (AssertionError, example_failed_at_instrument)"
    using thm5[of example_score ?pl "[?p1]" ?p2 "[?p3]" stale_instrument_plan "[?l2']" ?i2 "[]"
               ?stale "[]" ?l2 "[]"]
      pl kids tag2 b2 cp rk bi m2 ki
    unfolding t2 by blast
  from 1 2 3 4 5 6 show ?thesis
    by (simp add: set_children_def set_text_def)
qed

section \<open>A second run on a normalized document\<close>

lemma table_suffix_stable: "suffix_stable create_instrument_swap_map"
  by code_simp

lemma table_shadows_checked: "shadows_checked create_instrument_swap_map"
  by code_simp

lemma resolve_Some_index:
  "resolve table raw_name = Some family \<longleftrightarrow>
     (\<exists>i < length table. sublist (fst (table ! i)) raw_name \<and> snd (table ! i) = family
        \<and> (\<forall>j < i. \<not> sublist (fst (table ! j)) raw_name))"
  unfolding resolve_def
  by (auto simp: find_Some_iff case_prod_beta) (metis snd_conv, metis prod.collapse)

lemma produced_family:
  assumes "shadows_checked table" and "resolve table raw_name = Some family"
  shows "family = ''French Horn'' \<or> resolve table family = Some family"
proof -
  from assms(2) obtain i where i: "i < length table" "sublist (fst (table ! i)) raw_name"
    "snd (table ! i) = family" "\<forall>j < i. \<not> sublist (fst (table ! j)) raw_name"
    unfolding resolve_Some_index by blast
  from assms(1) i(1) have
    "snd (table ! i) = ''French Horn''
     \<or> resolve table (snd (table ! i)) = Some (snd (table ! i))
     \<or> list_ex (\<lambda>i'. sublist (fst (table ! i')) (fst (table ! i))) [0..<i]"
    by (simp add: shadows_checked_def list_all_iff)
  moreover have "\<not> list_ex (\<lambda>i'. sublist (fst (table ! i')) (fst (table ! i))) [0..<i]"
  proof
    assume "list_ex (\<lambda>i'. sublist (fst (table ! i')) (fst (table ! i))) [0..<i]"
    then obtain j where "j < i" "sublist (fst (table ! j)) (fst (table ! i))"
      by (auto simp: list_ex_iff)
    with i(2) have "sublist (fst (table ! j)) raw_name"
      by (meson sublist_order.order_trans)
    with i(4) \<open>j < i\<close> show False by blast
  qed
  ultimately show ?thesis using i(3) by blast
qed

lemma digit_char_is_digit: "d < 10 \<Longrightarrow> is_digit (digit_char d)"
proof -
  assume "d < 10"
  then have "d \<in> {0, 1, 2, 3, 4, 5, 6, 7, 8, 9}" by auto
  then show ?thesis
    by (auto simp: digit_char_def is_digit_def)
qed

lemma str_nat_digits: "c \<in> set (str_nat n) \<Longrightarrow> is_digit c"
proof (induction n rule: str_nat.induct)
  case (1 n)
  show ?case
  proof (cases "n < 10")
    case True
    with "1.prems" show ?thesis
      using digit_char_is_digit[of n] by (subst (asm) str_nat.simps) auto
  next
    case False
    with "1.prems" "1.IH" show ?thesis
      using digit_char_is_digit[of "n mod 10"] by (subst (asm) str_nat.simps) auto
  qed
qed

lemma sublist_numbered:
  assumes "sublist pattern (family @ '' '' @ str_nat k)"
    and "list_ex (\<lambda>c. c \<noteq> CHR '' '' \<and> \<not> is_digit c) pattern"
    and "\<not> straddles pattern family"
  shows "sublist pattern family"
proof -
  let ?t = "'' '' @ str_nat k"
  from assms(1) consider "sublist pattern family" | "sublist pattern ?t"
    | q1 q2 where "pattern = q1 @ q2" "suffix q1 family" "prefix q2 ?t"
    unfolding sublist_append by blast
  then show ?thesis
  proof cases
    case 1
    then show ?thesis .
  next
    case 2
    then have "set pattern \<subseteq> set ?t" by (rule set_mono_sublist)
    with assms(2) show ?thesis
      by (auto simp: list_ex_iff dest: str_nat_digits)
  next
    case 3
    show ?thesis
    proof (cases q2)
      case Nil
      with 3 show ?thesis by simp
    next
      case (Cons c q2')
      with 3(3) have c: "c = CHR '' ''" and p: "prefix q2' (str_nat k)"
        by simp_all
      have i: "length q1 < length pattern" "pattern ! length q1 = CHR '' ''"
        "drop (Suc (length q1)) pattern = q2'" "take (length q1) pattern = q1"
        using 3(1) Cons c by simp_all
      from p have "set q2' \<subseteq> set (str_nat k)" by (rule set_mono_prefix)
      then have "list_all is_digit q2'"
        by (auto simp: list_all_iff dest: str_nat_digits)
      with i 3(2) have "straddles pattern family"
        unfolding straddles_def list_ex_iff by (intro bexI[of _ "length q1"]) simp_all
      with assms(3) show ?thesis by simp
    qed
  qed
qed

lemma resolve_cong_sublists:
  "(\<And>pattern family. (pattern, family) \<in> set table \<Longrightarrow>
      sublist pattern raw_name \<longleftrightarrow> sublist pattern raw_name') \<Longrightarrow>
   resolve table raw_name = resolve table raw_name'"
proof (induction table)
  case Nil
  show ?case by (simp add: resolve_Nil)
next
  case (Cons entry table)
  obtain pattern family where entry: "entry = (pattern, family)" by (cases entry)
  have "resolve table raw_name = resolve table raw_name'"
    by (rule Cons.IH) (use Cons.prems in auto)
  moreover have "sublist pattern raw_name \<longleftrightarrow> sublist pattern raw_name'"
    using Cons.prems[of pattern family] by (simp add: entry)
  ultimately show ?case
    by (simp add: entry resolve_Cons)
qed

lemma resolve_numbered:
  assumes "suffix_stable table" and "family \<in> snd ` set table"
  shows "resolve table (family @ '' '' @ str_nat k) = resolve table family"
proof (rule resolve_cong_sublists)
  fix pattern family'
  assume m: "(pattern, family') \<in> set table"
  with assms have "list_ex (\<lambda>c. c \<noteq> CHR '' '' \<and> \<not> is_digit c) pattern"
    and "\<not> straddles pattern family"
    by (auto simp: suffix_stable_def list_all_iff)
  then show "sublist pattern (family @ '' '' @ str_nat k) \<longleftrightarrow> sublist pattern family"
    using sublist_numbered[of pattern family k]
    by (auto simp: sublist_append)
qed

lemma family_of_normalized_label:
  assumes "suffix_stable table" and "shadows_checked table"
    and "resolve table ''French Horn'' = None"
  shows "family_of table (normalized_label table ents j) =
           (case family_of table (snd (ents ! j)) of
              None \<Rightarrow> None
            | Some family \<Rightarrow> if family = ''French Horn'' then None else Some family)"
proof (cases "family_of table (snd (ents ! j))")
  case None
  then show ?thesis by (simp add: normalized_label_def)
next
  case (Some family)
  then obtain n where n: "snd (ents ! j) = Some n" "resolve table n = Some family"
    by (auto simp: family_of_Some)
  have v: "family \<in> snd ` set table"
    using n(2) by (rule resolve_in_values)
  have self: "resolve table family = (if family = ''French Horn'' then None else Some family)"
    using produced_family[OF assms(2) n(2)] assms(3) by auto
  have "family_of table (normalized_label table ents j) = resolve table family"
    using Some resolve_numbered[OF assms(1) v]
    by (simp add: normalized_label_def family_of_def)
  with Some self show ?thesis by simp
qed

lemma length_normalized_entities [simp]: "length (normalized_entities table ents) = length ents"
  by (simp add: normalized_entities_def)

lemma nth_normalized_entities:
  "j < length ents \<Longrightarrow>
   normalized_entities table ents ! j = (fst (ents ! j), normalized_label table ents j)"
  by (simp add: normalized_entities_def)

lemma map_fst_normalized_entities: "map fst (normalized_entities table ents) = map fst ents"
  by (rule nth_equalityI) (simp_all add: nth_normalized_entities)

lemma occurrences_indicator:
  "occurrences table family ents
     = length (filter id (map (\<lambda>ent. family_of table (snd ent) = Some family) ents))"
proof -
  have "(\<lambda>(k, label). family_of table label = Some family)
      = (\<lambda>ent :: string option \<times> string option. family_of table (snd ent) = Some family)"
    by (simp add: fun_eq_iff)
  then show ?thesis
    by (simp add: occurrences_def filter_map comp_def)
qed

lemma occurrences_normalized:
  assumes "suffix_stable table" and "shadows_checked table"
    and "resolve table ''French Horn'' = None" and "family \<noteq> ''French Horn''"
  shows "occurrences table family (take n (normalized_entities table ents))
           = occurrences table family (take n ents)"
proof -
  have "map (\<lambda>ent. family_of table (snd ent) = Some family) (normalized_entities table ents)
      = map (\<lambda>ent. family_of table (snd ent) = Some family) ents"
  proof (rule nth_equalityI)
    show "length (map (\<lambda>ent. family_of table (snd ent) = Some family) (normalized_entities table ents))
        = length (map (\<lambda>ent. family_of table (snd ent) = Some family) ents)"
      by simp
  next
    fix j assume "j < length (map (\<lambda>ent. family_of table (snd ent) = Some family)
                                (normalized_entities table ents))"
    then have j: "j < length ents" by simp
    show "map (\<lambda>ent. family_of table (snd ent) = Some family) (normalized_entities table ents) ! j
        = map (\<lambda>ent. family_of table (snd ent) = Some family) ents ! j"
      using j assms(4) family_of_normalized_label[OF assms(1,2,3), of ents j]
      by (auto simp: nth_normalized_entities split: option.splits)
  qed
  then have "map (\<lambda>ent. family_of table (snd ent) = Some family)
               (take n (normalized_entities table ents))
           = map (\<lambda>ent. family_of table (snd ent) = Some family) (take n ents)"
    by (simp add: take_map[symmetric])
  then show ?thesis
    by (simp only: occurrences_indicator)
qed

lemma normalized_label_settled:
  assumes "suffix_stable table" and "shadows_checked table"
    and "resolve table ''French Horn'' = None" and "j < length ents"
  shows "normalized_label table (normalized_entities table ents) j = normalized_label table ents j"
proof -
  let ?ents' = "normalized_entities table ents"
  have nth: "snd (?ents' ! j) = normalized_label table ents j"
    using assms(4) by (simp add: nth_normalized_entities)
  note fam' = family_of_normalized_label[OF assms(1,2,3), of ents j]
  show ?thesis
  proof (cases "family_of table (snd (?ents' ! j))")
    case None
    then show ?thesis by (simp add: normalized_label_def[of table ?ents'] nth)
  next
    case (Some family)
    with fam' nth have f: "family_of table (snd (ents ! j)) = Some family" "family \<noteq> ''French Horn''"
      by (auto split: option.splits if_splits)
    have o1: "occurrences table family ?ents' = occurrences table family ents"
      using occurrences_normalized[OF assms(1,2,3) f(2), of "length ents" ents] by simp
    have o2: "occurrences table family (take (Suc j) ?ents') = occurrences table family (take (Suc j) ents)"
      by (rule occurrences_normalized[OF assms(1,2,3) f(2)])
    show ?thesis
      using Some f(1) by (simp add: normalized_label_def o1 o2)
  qed
qed

lemma rename_element_not_consistent:
  assumes "\<not> consistent rename_dict tag_name element"
  shows "\<exists>e x. rename_element element rename_dict tag_name = Inl (e, x)"
proof -
  from assms obtain rename_map c where
    m: "map_of rename_dict (get element ''id'') = Some rename_map"
    and c: "c \<in> set (el_children element)" "el_tag c = tag_name"
      "el_text c \<noteq> Some (original_name rename_map)"
    by (auto simp: consistent_def findall_def list_all_iff split: option.splits)
  let ?body = "\<lambda>tag. if el_text tag = Some (original_name rename_map)
                       then Inr (set_text tag (Some (swap_name rename_map)))
                       else Inl (AssertionError, tag)"
  have "?body c = Inl (AssertionError, c)" using c(3) by simp
  from update_where_fails[where P = "\<lambda>c. el_tag c = tag_name" and body = ?body, OF c(1,2) this]
  show ?thesis
    using m by (auto simp: rename_element_def with_children_def)
qed

lemma rename_score_part_not_consistent:
  assumes "\<not> consistent_score_part self score_part"
  shows "\<exists>x. rename_score_part self score_part = Inl (AssertionError, x)"
proof (cases "consistent (part_rename_dict self) ''part-name'' score_part")
  case False
  from rename_element_not_consistent[OF this] obtain e x where
    "rename_element score_part (part_rename_dict self) ''part-name'' = Inl (e, x)" by blast
  then show ?thesis
    using rename_score_part_fails[of score_part self e x] by blast
next
  case True
  with assms obtain si where si: "si \<in> set (findall score_part ''score-instrument'')"
    "\<not> consistent (instrument_rename_dict self) ''instrument-name'' si"
    by (auto simp: consistent_score_part_def list_all_iff)
  from rename_element_not_consistent[OF si(2)] obtain e x where
    "rename_element si (instrument_rename_dict self) ''instrument-name'' = Inl (e, x)" by blast
  with si(1) show ?thesis
    using rename_score_part_fails[of score_part self e x si] by blast
qed

lemma rename_instruments_Inr:
  assumes "find_el root_el ''part-list'' = Some part_list"
    and "rename_instruments self root_el = Inr r"
  shows "consistent_document self root_el" and "r = apply_plan self root_el"
proof -
  show c: "consistent_document self root_el"
  proof (rule ccontr)
    assume "\<not> consistent_document self root_el"
    then obtain sp where sp: "sp \<in> set (findall part_list ''score-part'')"
      "\<not> consistent_score_part self sp"
      by (auto simp: consistent_document_def list_all_iff score_parts_def assms(1))
    from rename_score_part_not_consistent[OF sp(2)] obtain x where
      "rename_score_part self sp = Inl (AssertionError, x)" by blast
    from rename_instruments_fails[OF assms(1) sp(1) this] assms(2) show False by auto
  qed
  from rename_instruments_consistent[OF assms(1) c] assms(2)
  show "r = apply_plan self root_el" by simp
qed

lemma discovery_same_setup:
  "find_generic_instrument_names self root_el = Inr self' \<Longrightarrow>
   root self' = root self \<and> instrument_swap_map self' = instrument_swap_map self"
  using find_generic_instrument_names_Inr[of self root_el self'] by (simp add: same_setup_def)

lemma process_xml_Inr:
  assumes "process_xml (InstrumentManager root_el) = Inr self1"
  shows "\<exists>self0 part_list.
           find_generic_instrument_names (InstrumentManager root_el) root_el = Inr self0
           \<and> find_el root_el ''part-list'' = Some part_list
           \<and> self1 = (cleanup_names self0)\<lparr> root := apply_plan (cleanup_names self0) root_el \<rparr>"
proof -
  from assms obtain self0 where
    d: "find_generic_instrument_names (InstrumentManager root_el) root_el = Inr self0"
    by (auto simp: process_xml_def initial_state split: sum.splits)
  then obtain part_list where pl: "find_el root_el ''part-list'' = Some part_list"
    by (auto simp: find_generic_instrument_names_def split: option.splits)
  have r0: "root (cleanup_names self0) = root_el"
    using discovery_same_setup[OF d] by (simp add: cleanup_names_once initial_state)
  from assms d r0 obtain r where
    r: "rename_instruments (cleanup_names self0) root_el = Inr r"
    and s: "self1 = (cleanup_names self0)\<lparr> root := r \<rparr>"
    by (auto simp: process_xml_def initial_state Let_def split: sum.splits)
  from rename_instruments_Inr(2)[OF pl r] s d pl show ?thesis by blast
qed

lemma find_map_first:
  "List.find P cs = Some c \<Longrightarrow> P (g c) \<Longrightarrow> List.find P (map_first P g cs) = Some (g c)"
  by (induction cs) (auto split: if_splits)

lemma filter_map_if:
  "(\<And>c. P c \<Longrightarrow> P (f c)) \<Longrightarrow>
   filter P (map (\<lambda>c. if P c then f c else c) cs) = map f (filter P cs)"
  by (induction cs) auto

lemma filter_map_if_other:
  "(\<And>c. Q c \<Longrightarrow> \<not> P c) \<Longrightarrow> (\<And>c. Q c \<Longrightarrow> \<not> P (f c)) \<Longrightarrow>
   filter P (map (\<lambda>c. if Q c then f c else c) cs) = filter P cs"
  by (induction cs) auto

lemma relabel_score_part_shape:
  "el_tag (relabel_score_part self sp) = el_tag sp"
  "get (relabel_score_part self sp) k = get sp k"
  by (simp_all add: relabel_score_part_def set_simps)

lemma score_parts_apply_plan:
  assumes "find_el root_el ''part-list'' = Some part_list"
  shows "score_parts (apply_plan self root_el) = map (relabel_score_part self) (score_parts root_el)"
proof -
  let ?P = "\<lambda>c. el_tag c = ''part-list''"
  let ?g = "\<lambda>part_list. set_children part_list (relabel_score_parts self (el_children part_list))"
  have f: "List.find ?P (el_children root_el) = Some part_list"
    using assms by (simp add: find_el_def)
  then have "el_tag part_list = ''part-list''"
    by (auto simp: find_Some_iff)
  then have "List.find ?P (map_first ?P ?g (el_children root_el)) = Some (?g part_list)"
    by (intro find_map_first[OF f]) (simp add: set_simps)
  then have "find_el (apply_plan self root_el) ''part-list'' = Some (?g part_list)"
    by (simp add: apply_plan_def in_first_part_list_def find_el_def set_simps)
  moreover have "filter (\<lambda>c. el_tag c = ''score-part'') (relabel_score_parts self cs)
               = map (relabel_score_part self) (filter (\<lambda>c. el_tag c = ''score-part'') cs)" for cs
    unfolding relabel_score_parts_def
    by (rule filter_map_if) (simp add: relabel_score_part_shape)
  ultimately show ?thesis
    by (simp add: score_parts_def assms findall_def set_simps)
qed

lemma part_entities_of_labels:
  "part_entities_of sp = map (\<lambda>l. (get sp ''id'', l)) (labels ''part-name'' sp)"
  by (simp add: part_entities_of_def labels_def)

lemma instrument_label_labels:
  "instrument_label si = (case labels ''instrument-name'' si of [] \<Rightarrow> None | l # _ \<Rightarrow> l)"
proof -
  have "(case List.find P cs of None \<Rightarrow> None | Some n \<Rightarrow> el_text n)
        = (case map el_text (filter P cs) of [] \<Rightarrow> None | l # _ \<Rightarrow> l)" for P cs
    by (induction cs) auto
  then show ?thesis
    by (simp add: instrument_label_def labels_def find_el_def findall_def)
qed

lemma labels_relabel:
  "labels t (relabel d t e) =
     (case map_of d (get e ''id'') of
        None \<Rightarrow> labels t e
      | Some rm \<Rightarrow> map (\<lambda>_. Some (swap_name rm)) (labels t e))"
proof (cases "map_of d (get e ''id'')")
  case None
  then show ?thesis by (simp add: relabel_def)
next
  case (Some rm)
  have "map el_text (filter (\<lambda>c. el_tag c = t)
          (map (\<lambda>c. if el_tag c = t then set_text c (Some (swap_name rm)) else c) cs))
      = map (\<lambda>_. Some (swap_name rm)) (map el_text (filter (\<lambda>c. el_tag c = t) cs))" for cs
    by (induction cs) (auto simp: set_simps)
  with Some show ?thesis
    by (simp add: relabel_def labels_def findall_def set_simps)
qed

lemma findall_relabel_score_part_instruments:
  "findall (relabel_score_part self sp) ''score-instrument''
     = map (relabel (instrument_rename_dict self) ''instrument-name'')
         (findall sp ''score-instrument'')"
proof -
  have "filter (\<lambda>c. el_tag c = ''score-instrument'') (relabel_instruments self cs)
      = map (relabel (instrument_rename_dict self) ''instrument-name'')
          (filter (\<lambda>c. el_tag c = ''score-instrument'') cs)" for cs
    unfolding relabel_instruments_def
    by (rule filter_map_if) (simp add: relabel_shape)
  moreover have "filter (\<lambda>c. el_tag c = ''score-instrument'')
                   (el_children (relabel (part_rename_dict self) ''part-name'' sp))
               = filter (\<lambda>c. el_tag c = ''score-instrument'') (el_children sp)"
    by (rule relabel_children_other) simp
  ultimately show ?thesis
    by (simp add: relabel_score_part_def findall_def set_simps)
qed

lemma labels_relabel_score_part:
  "labels ''part-name'' (relabel_score_part self sp)
     = labels ''part-name'' (relabel (part_rename_dict self) ''part-name'' sp)"
proof -
  have "filter (\<lambda>c. el_tag c = ''part-name'') (relabel_instruments self cs)
      = filter (\<lambda>c. el_tag c = ''part-name'') cs" for cs
    unfolding relabel_instruments_def
    by (rule filter_map_if_other) (simp_all add: relabel_shape)
  then show ?thesis
    by (simp add: relabel_score_part_def labels_def findall_def set_simps)
qed

lemma part_entities_of_relabel:
  "part_entities_of (relabel_score_part self sp)
     = map (planned_label (part_rename_dict self)) (part_entities_of sp)"
  by (simp add: part_entities_of_labels labels_relabel_score_part labels_relabel
        relabel_score_part_shape planned_label_def comp_def split: option.splits)

lemma instrument_entity_relabel:
  assumes "instrument_label si \<noteq> None"
  shows "(get (relabel d ''instrument-name'' si) ''id'',
          instrument_label (relabel d ''instrument-name'' si))
         = planned_label d (get si ''id'', instrument_label si)"
  using assms
  by (cases "labels ''instrument-name'' si")
     (auto simp: instrument_label_labels labels_relabel relabel_shape planned_label_def
        split: option.splits)

lemma instrument_entities_of_relabel:
  assumes "\<And>ent. ent \<in> set (instrument_entities_of sp) \<Longrightarrow> snd ent \<noteq> None"
  shows "instrument_entities_of (relabel_score_part self sp)
     = map (planned_label (instrument_rename_dict self)) (instrument_entities_of sp)"
proof -
  have "instrument_label si \<noteq> None" if "si \<in> set (findall sp ''score-instrument'')" for si
    using assms[of "(get si ''id'', instrument_label si)"] that
    by (auto simp: instrument_entities_of_def)
  then show ?thesis
    by (simp add: instrument_entities_of_def findall_relabel_score_part_instruments
          instrument_entity_relabel comp_def)
qed

lemma entities_apply_plan:
  assumes "find_el root_el ''part-list'' = Some part_list"
  shows "part_entities (apply_plan self root_el)
           = map (planned_label (part_rename_dict self)) (part_entities root_el)"
    and "(\<And>ent. ent \<in> set (instrument_entities root_el) \<Longrightarrow> snd ent \<noteq> None) \<Longrightarrow>
         instrument_entities (apply_plan self root_el)
           = map (planned_label (instrument_rename_dict self)) (instrument_entities root_el)"
proof -
  show "part_entities (apply_plan self root_el)
           = map (planned_label (part_rename_dict self)) (part_entities root_el)"
    by (simp add: part_entities_def score_parts_apply_plan[OF assms] comp_def
          part_entities_of_relabel map_concat)
  assume a: "\<And>ent. ent \<in> set (instrument_entities root_el) \<Longrightarrow> snd ent \<noteq> None"
  have m: "map (instrument_entities_of \<circ> relabel_score_part self) (score_parts root_el)
      = map (map (planned_label (instrument_rename_dict self)) \<circ> instrument_entities_of)
          (score_parts root_el)"
  proof (rule map_cong[OF refl])
    fix sp assume "sp \<in> set (score_parts root_el)"
    then have "snd ent \<noteq> None" if "ent \<in> set (instrument_entities_of sp)" for ent
      using a[of ent] that by (auto simp: instrument_entities_def)
    then show "(instrument_entities_of \<circ> relabel_score_part self) sp
             = (map (planned_label (instrument_rename_dict self)) \<circ> instrument_entities_of) sp"
      by (simp add: instrument_entities_of_relabel)
  qed
  show "instrument_entities (apply_plan self root_el)
           = map (planned_label (instrument_rename_dict self)) (instrument_entities root_el)"
    unfolding instrument_entities_def score_parts_apply_plan[OF assms] map_map m
    by (simp add: map_concat)
qed

lemma discover_keys_distinct:
  "distinct (map fst rename_dict) \<Longrightarrow>
   distinct (map fst (snd (fold (discover_entity table) ents (counter, rename_dict))))"
proof (induction ents arbitrary: counter rename_dict)
  case Nil
  then show ?case by simp
next
  case (Cons ent ents)
  obtain k label where ent: "ent = (k, label)" by (cases ent)
  show ?case
  proof (cases "family_of table label")
    case None
    then show ?thesis
      using Cons by (simp add: ent discover_entity_unmatched)
  next
    case (Some f)
    then show ?thesis
      using Cons.prems by (simp add: ent discover_entity_matched Cons.IH distinct_update)
  qed
qed

lemma cleanup_keys: "map fst (cleanup counter rename_dict) = map fst rename_dict"
  by (simp add: cleanup_map case_prod_beta comp_def)

lemma entity_index:
  assumes "distinct (map fst ents)" and "(k, l) \<in> set ents"
  shows "\<exists>j < length ents. ents ! j = (k, l) \<and> k \<notin> fst ` set (drop (Suc j) ents)"
proof -
  from assms(2) obtain j where j: "j < length ents" "ents ! j = (k, l)"
    by (auto simp: in_set_conv_nth)
  have "ents = take j ents @ (k, l) # drop (Suc j) ents"
    using j by (metis id_take_nth_drop)
  then have "distinct (map fst (take j ents @ (k, l) # drop (Suc j) ents))"
    using assms(1) by simp
  then have "k \<notin> fst ` set (drop (Suc j) ents)"
    by auto
  with j show ?thesis by blast
qed

lemma same_key_same_label:
  "distinct (map fst ents) \<Longrightarrow> (k, l) \<in> set ents \<Longrightarrow> (k, l') \<in> set ents \<Longrightarrow> l = l'"
  by (meson eq_key_imp_eq_value)

lemma planned_is_normalized:
  assumes "distinct (map fst ents)"
    and "(counter, plan0) = fold (discover_entity create_instrument_swap_map) ents ([], [])"
  shows "map (planned_label (cleanup counter plan0)) ents
           = normalized_entities create_instrument_swap_map ents"
proof (rule nth_equalityI)
  show "length (map (planned_label (cleanup counter plan0)) ents)
      = length (normalized_entities create_instrument_swap_map ents)"
    by simp
next
  let ?table = create_instrument_swap_map
  fix j assume "j < length (map (planned_label (cleanup counter plan0)) ents)"
  then have j: "j < length ents" by simp
  obtain k label where e: "ents ! j = (k, label)" by (cases "ents ! j")
  have mem: "(k, label) \<in> set ents" using j e by (metis nth_mem)
  from entity_index[OF assms(1) mem] obtain j' where
    j': "j' < length ents" "ents ! j' = (k, label)" "k \<notin> fst ` set (drop (Suc j') ents)"
    by blast
  have "j' = j"
    using assms(1) j j' e by (metis distinct_conv_nth length_map nth_map fst_conv)
  with j' have later: "k \<notin> fst ` set (drop (Suc j) ents)" by simp
  have "planned_label (cleanup counter plan0) (k, label) = (k, normalized_label ?table ents j)"
  proof (cases "family_of ?table label")
    case None
    have "map_of (cleanup counter plan0) k = None"
    proof (rule ccontr)
      assume "map_of (cleanup counter plan0) k \<noteq> None"
      then obtain rm where "(k, rm) \<in> set (cleanup counter plan0)"
        by (auto dest: map_of_SomeD)
      then obtain rm0 where rm0: "(k, rm0) \<in> set plan0"
        by (auto simp: cleanup_entries)
      have p0: "plan0 = snd (fold (discover_entity ?table) ents ([], []))"
        using assms(2) by (metis snd_conv)
      from discover_entries[of k rm0 ?table ents "[]" "[]"] rm0
      have "(k, Some (original_name rm0)) \<in> set ents"
        and r: "resolve ?table (original_name rm0) \<noteq> None"
        by (simp_all add: p0)
      with mem assms(1) have "label = Some (original_name rm0)"
        by (meson same_key_same_label)
      with None r show False by (simp add: family_of_def)
    qed
    with None e show ?thesis
      by (simp add: planned_label_def normalized_label_def)
  next
    case (Some family)
    then obtain n where n: "label = Some n" "resolve ?table n = Some family"
      by (auto simp: family_of_Some)
    from cleaned_plan_entry(2)[OF assms(2) j _ n(2) later] e n(1)
    have "map_of (cleanup counter plan0) k =
           Some \<lparr> original_name = n,
                  swap_name =
                    (if occurrences ?table family ents = 1 then family
                     else family @ '' '' @
                       str_nat (occurrences ?table family (take (Suc j) ents))) \<rparr>"
      by simp
    with Some e show ?thesis
      by (simp add: planned_label_def normalized_label_def)
  qed
  then show "map (planned_label (cleanup counter plan0)) ents ! j
           = normalized_entities ?table ents ! j"
    using j e by (simp add: nth_normalized_entities)
qed

lemma plan_entry_of_matched:
  assumes "distinct (map fst ents)"
    and "(counter, plan0) = fold (discover_entity create_instrument_swap_map) ents ([], [])"
    and "j < length ents" and "family_of create_instrument_swap_map (snd (ents ! j)) = Some family"
  shows "map_of (cleanup counter plan0) (fst (ents ! j)) =
           Some \<lparr> original_name = the (snd (ents ! j)),
                  swap_name = the (normalized_label create_instrument_swap_map ents j) \<rparr>"
proof -
  obtain k label where e: "ents ! j = (k, label)" by (cases "ents ! j")
  from assms(4) e obtain n where n: "label = Some n" "resolve create_instrument_swap_map n = Some family"
    by (auto simp: family_of_Some)
  have mem: "(k, label) \<in> set ents" using assms(3) e by (metis nth_mem)
  from entity_index[OF assms(1) mem] obtain j' where
    j': "j' < length ents" "ents ! j' = (k, label)" "k \<notin> fst ` set (drop (Suc j') ents)"
    by blast
  have "j' = j"
    using assms(1,3) j' e by (metis distinct_conv_nth length_map nth_map fst_conv)
  with j' have later: "k \<notin> fst ` set (drop (Suc j) ents)" by simp
  from cleaned_plan_entry(2)[OF assms(2,3) _ n(2) later] e n(1) assms(4)
  show ?thesis
    by (simp add: normalized_label_def)
qed

lemma second_plan_settled:
  assumes "suffix_stable create_instrument_swap_map" and "shadows_checked create_instrument_swap_map"
    and "resolve create_instrument_swap_map ''French Horn'' = None"
    and "distinct (map fst ents)"
    and "(counter, plan0) = fold (discover_entity create_instrument_swap_map)
                              (normalized_entities create_instrument_swap_map ents) ([], [])"
    and "(k, rm) \<in> set (cleanup counter plan0)"
  shows "swap_name rm = original_name rm"
    and "(k, Some (original_name rm)) \<in> set (normalized_entities create_instrument_swap_map ents)"
    and "\<exists>j < length ents. fst (ents ! j) = k
            \<and> family_of create_instrument_swap_map (snd (ents ! j)) \<noteq> None"
proof -
  let ?table = create_instrument_swap_map
  let ?ents' = "normalized_entities ?table ents"
  have d': "distinct (map fst ?ents')"
    using assms(4) by (simp add: map_fst_normalized_entities)
  from assms(6) obtain rm0 where rm0: "(k, rm0) \<in> set plan0" "original_name rm = original_name rm0"
    by (auto simp: cleanup_entries)
  have p0: "plan0 = snd (fold (discover_entity ?table) ?ents' ([], []))"
    using assms(5) by (metis snd_conv)
  from discover_entries[of k rm0 ?table ?ents' "[]" "[]"] rm0
  have mem: "(k, Some (original_name rm)) \<in> set ?ents'"
    and r: "resolve ?table (original_name rm) \<noteq> None"
    by (simp_all add: p0)
  show "(k, Some (original_name rm)) \<in> set ?ents'" by (rule mem)
  from mem obtain j where j: "j < length ents" "?ents' ! j = (k, Some (original_name rm))"
    by (auto simp: in_set_conv_nth)
  from r obtain family where fam': "family_of ?table (snd (?ents' ! j)) = Some family"
    by (auto simp: j(2) family_of_def)
  have j': "j < length ?ents'" using j(1) by simp
  note entry = plan_entry_of_matched[OF d' assms(5) j' fam']
  have keys: "distinct (map fst (cleanup counter plan0))"
    unfolding cleanup_keys p0 by (rule discover_keys_distinct) simp
  from assms(6) keys have "map_of (cleanup counter plan0) k = Some rm"
    by simp
  with entry j(2) have rm: "rm = \<lparr> original_name = original_name rm,
                  swap_name = the (normalized_label ?table ?ents' j) \<rparr>"
    by simp
  have "normalized_label ?table ?ents' j = normalized_label ?table ents j"
    by (rule normalized_label_settled[OF assms(1,2,3) j(1)])
  also have "\<dots> = snd (?ents' ! j)"
    using j(1) by (simp add: nth_normalized_entities)
  finally have "normalized_label ?table ?ents' j = Some (original_name rm)"
    by (simp add: j(2))
  with rm show "swap_name rm = original_name rm"
    by (metis option.sel rename_map.select_convs(2))
  have "family_of ?table (snd (ents ! j)) \<noteq> None"
    using fam' family_of_normalized_label[OF assms(1,2,3), of ents j] j(1)
    by (auto simp: nth_normalized_entities split: option.splits)
  moreover have "fst (ents ! j) = k"
    using j by (simp add: nth_normalized_entities)
  ultimately show "\<exists>j < length ents. fst (ents ! j) = k
            \<and> family_of ?table (snd (ents ! j)) \<noteq> None"
    using j(1) by blast
qed

lemma for_each_Inr_member_inv:
  assumes "for_each body xs s = Inr s'" and "I s"
    and "\<forall>x s s'. I s \<longrightarrow> body x s = Inr s' \<longrightarrow> I s'"
    and "x \<in> set xs"
  shows "\<exists>s1 s2. I s1 \<and> body x s1 = Inr s2"
  using assms(1,2,4)
proof (induction xs arbitrary: s)
  case Nil
  then show ?case by simp
next
  case (Cons y xs)
  from Cons.prems(1) obtain s1 where s1: "body y s = Inr s1" "for_each body xs s1 = Inr s'"
    by (auto split: sum.splits)
  show ?case
  proof (cases "x = y")
    case True
    with s1(1) Cons.prems(2) show ?thesis by blast
  next
    case False
    with Cons.prems(3) have "x \<in> set xs" by simp
    moreover have "I s1" using assms(3) Cons.prems(2) s1(1) by blast
    ultimately show ?thesis using Cons.IH[OF s1(2)] by blast
  qed
qed

lemma for_each_Inr_inv:
  assumes "for_each body xs s = Inr s'" and "I s"
    and "\<forall>x s s'. I s \<longrightarrow> body x s = Inr s' \<longrightarrow> I s'"
  shows "I s'"
  using assms(1,2)
proof (induction xs arbitrary: s)
  case Nil
  then show ?case by simp
next
  case (Cons y xs)
  from Cons.prems(1) obtain s1 where s1: "body y s = Inr s1" "for_each body xs s1 = Inr s'"
    by (auto split: sum.splits)
  have "I s1" using assms(3) Cons.prems(2) s1(1) by blast
  from Cons.IH[OF s1(2) this] show ?case .
qed

lemma for_each_succeeds:
  "(\<And>x s. x \<in> set xs \<Longrightarrow> \<exists>s'. body x s = Inr s') \<Longrightarrow> \<exists>s'. for_each body xs s = Inr s'"
proof (induction xs arbitrary: s)
  case Nil
  show ?case by simp
next
  case (Cons y xs)
  from Cons.prems[of y s] obtain s1 where s1: "body y s = Inr s1" by auto
  have "\<exists>s'. for_each body xs s1 = Inr s'"
    by (rule Cons.IH) (simp add: Cons.prems)
  with s1 show ?case by simp
qed

lemma discover_part_name_label:
  assumes "discover_part_name k part_name s = Inr s'" and "instrument_swap_map s \<noteq> []"
  shows "el_text part_name \<noteq> None"
proof
  assume "el_text part_name = None"
  with assms show False
    by (cases "instrument_swap_map s") (auto simp: discover_part_name_def)
qed

lemma discover_score_instrument_label:
  assumes "discover_score_instrument si s = Inr s'" and "instrument_swap_map s \<noteq> []"
  shows "instrument_label si \<noteq> None"
proof
  assume n: "instrument_label si = None"
  from assms(1) obtain nm where nm: "find_el si ''instrument-name'' = Some nm"
    by (auto simp: discover_score_instrument_def split: option.splits)
  with n have "el_text nm = None" by (simp add: instrument_label_def)
  with assms nm show False
    by (cases "instrument_swap_map s") (auto simp: discover_score_instrument_def)
qed

lemma discovery_labels:
  assumes "find_generic_instrument_names self root_el = Inr self'"
    and "instrument_swap_map self \<noteq> []"
  shows "ent \<in> set (part_entities root_el) \<Longrightarrow> snd ent \<noteq> None"
    and "ent \<in> set (instrument_entities root_el) \<Longrightarrow> snd ent \<noteq> None"
proof -
  let ?I = "\<lambda>s. instrument_swap_map s \<noteq> []"
  from assms(1) obtain part_list where
    pl: "find_el root_el ''part-list'' = Some part_list" and
    loop: "for_each discover_score_part (findall part_list ''score-part'') self = Inr self'"
    by (auto simp: find_generic_instrument_names_def split: option.splits)
  have pn_inv: "\<forall>x s s'. ?I s \<longrightarrow> discover_part_name k x s = Inr s' \<longrightarrow> ?I s'" for k
    using discover_part_name_Inr by (auto simp: same_setup_def)
  have si_inv: "\<forall>x s s'. ?I s \<longrightarrow> discover_score_instrument x s = Inr s' \<longrightarrow> ?I s'"
    using discover_score_instrument_Inr by (auto simp: same_setup_def)
  have sp_inv: "\<forall>x s s'. ?I s \<longrightarrow> discover_score_part x s = Inr s' \<longrightarrow> ?I s'"
    using discover_score_part_Inr by (auto simp: same_setup_def)
  have sp: "(\<forall>ent \<in> set (part_entities_of sp). snd ent \<noteq> None)
          \<and> (\<forall>ent \<in> set (instrument_entities_of sp). snd ent \<noteq> None)"
    if "sp \<in> set (findall part_list ''score-part'')" for sp
  proof -
    from for_each_Inr_member_inv[where I = ?I, OF loop assms(2) sp_inv that]
    obtain s1 s2 where s: "?I s1" "discover_score_part sp s1 = Inr s2" by blast
    then obtain s3 where
      parts: "for_each (discover_part_name (get sp ''id'')) (findall sp ''part-name'') s1 = Inr s3" and
      instrs: "for_each discover_score_instrument (findall sp ''score-instrument'') s3 = Inr s2"
      by (auto simp: discover_score_part_def Let_def split: sum.splits)
    have I3: "?I s3"
      by (rule for_each_Inr_inv[where I = ?I, OF parts s(1) pn_inv])
    have "el_text pn \<noteq> None" if "pn \<in> set (findall sp ''part-name'')" for pn
    proof -
      from for_each_Inr_member_inv[where I = ?I, OF parts s(1) pn_inv that]
      obtain a b where "?I a" "discover_part_name (get sp ''id'') pn a = Inr b" by blast
      then show ?thesis by (rule discover_part_name_label[rotated])
    qed
    moreover have "instrument_label si \<noteq> None" if "si \<in> set (findall sp ''score-instrument'')" for si
    proof -
      from for_each_Inr_member_inv[where I = ?I, OF instrs I3 si_inv that]
      obtain a b where "?I a" "discover_score_instrument si a = Inr b" by blast
      then show ?thesis by (rule discover_score_instrument_label[rotated])
    qed
    ultimately show ?thesis
      by (auto simp: part_entities_of_def instrument_entities_of_def)
  qed
  show "snd ent \<noteq> None" if "ent \<in> set (part_entities root_el)"
    using that sp by (auto simp: part_entities_def score_parts_def pl)
  show "snd ent \<noteq> None" if "ent \<in> set (instrument_entities root_el)"
    using that sp by (auto simp: instrument_entities_def score_parts_def pl)
qed

lemma discovery_succeeds:
  assumes "find_el root_el ''part-list'' = Some part_list"
    and "\<And>ent. ent \<in> set (part_entities root_el) \<Longrightarrow> snd ent \<noteq> None"
    and "\<And>ent. ent \<in> set (instrument_entities root_el) \<Longrightarrow> snd ent \<noteq> None"
  shows "\<exists>self'. find_generic_instrument_names self root_el = Inr self'"
proof -
  have sp: "\<exists>s'. discover_score_part sp s = Inr s'"
    if "sp \<in> set (findall part_list ''score-part'')" for sp s
  proof -
    have m: "sp \<in> set (score_parts root_el)"
      using that by (simp add: score_parts_def assms(1))
    have "\<exists>s'. discover_part_name (get sp ''id'') pn s = Inr s'"
      if "pn \<in> set (findall sp ''part-name'')" for pn s
    proof -
      have "(get sp ''id'', el_text pn) \<in> set (part_entities root_el)"
        using that m by (auto simp: part_entities_def part_entities_of_def)
      from assms(2)[OF this] obtain n where "el_text pn = Some n" by auto
      then show ?thesis
        by (auto simp: discover_part_name_def find_generic_name_resolve Let_def split: option.splits)
    qed
    from for_each_succeeds[where body = "discover_part_name (get sp ''id'')", OF this]
    obtain s1 where
      s1: "for_each (discover_part_name (get sp ''id'')) (findall sp ''part-name'') s = Inr s1"
      by blast
    have "\<exists>s'. discover_score_instrument si s = Inr s'"
      if "si \<in> set (findall sp ''score-instrument'')" for si s
    proof -
      have "(get si ''id'', instrument_label si) \<in> set (instrument_entities root_el)"
        using that m by (auto simp: instrument_entities_def instrument_entities_of_def)
      from assms(3)[OF this] obtain nm n where
        "find_el si ''instrument-name'' = Some nm" "el_text nm = Some n"
        by (auto simp: instrument_label_def split: option.splits)
      then show ?thesis
        by (auto simp: discover_score_instrument_def find_generic_name_resolve Let_def
              split: option.splits)
    qed
    from for_each_succeeds[where body = discover_score_instrument, OF this]
    obtain s2 where
      "for_each discover_score_instrument (findall sp ''score-instrument'') s1 = Inr s2"
      by blast
    with s1 show ?thesis
      by (simp add: discover_score_part_def)
  qed
  from for_each_succeeds[where body = discover_score_part, OF sp]
  show ?thesis
    by (simp add: find_generic_instrument_names_def assms(1))
qed

lemma set_text_same: "el_text c = v \<Longrightarrow> set_text c v = c"
  by (cases c) (simp add: set_text_def)

lemma rename_element_settled:
  assumes "\<And>rm. map_of plan (get e ''id'') = Some rm \<Longrightarrow>
             swap_name rm = original_name rm \<and> (\<forall>l \<in> set (labels t e). l = Some (original_name rm))"
  shows "rename_element e plan t = Inr e"
proof (cases "map_of plan (get e ''id'')")
  case None
  then show ?thesis by (rule rename_element_unplanned)
next
  case (Some rm)
  from assms[OF Some] have s: "swap_name rm = original_name rm"
    and l: "\<And>c. c \<in> set (findall e t) \<Longrightarrow> el_text c = Some (original_name rm)"
    by (auto simp: labels_def)
  have c: "consistent plan t e"
    using Some l by (simp add: consistent_def list_all_iff)
  have "map (\<lambda>c. if el_tag c = t then set_text c (Some (swap_name rm)) else c) (el_children e)
        = el_children e"
    by (rule map_idI) (use l s in \<open>auto simp: findall_def set_text_same\<close>)
  then have "relabel plan t e = e"
    using Some by (simp add: relabel_def set_children_id)
  with rename_element_consistent[OF c] show ?thesis by simp
qed

lemma rename_score_part_settled:
  assumes "rename_element sp (part_rename_dict self) ''part-name'' = Inr sp"
    and "\<And>si. si \<in> set (findall sp ''score-instrument'') \<Longrightarrow>
           rename_element si (instrument_rename_dict self) ''instrument-name'' = Inr si"
  shows "rename_score_part self sp = Inr sp"
proof -
  have "update_where (\<lambda>c. el_tag c = ''score-instrument'')
          (\<lambda>si. rename_element si (instrument_rename_dict self) ''instrument-name'')
          (el_children sp) = Inr (el_children sp)"
    by (rule update_where_id) (simp add: assms(2) findall_def)
  then show ?thesis
    by (simp add: rename_score_part_def assms(1) with_children_def set_children_id)
qed

lemma rename_instruments_settled:
  assumes "find_el root_el ''part-list'' = Some part_list"
    and "\<And>sp. sp \<in> set (score_parts root_el) \<Longrightarrow> rename_score_part self sp = Inr sp"
  shows "rename_instruments self root_el = Inr root_el"
proof -
  have "update_where (\<lambda>c. el_tag c = ''score-part'') (rename_score_part self) (el_children part_list)
          = Inr (el_children part_list)"
    by (rule update_where_id) (simp add: assms score_parts_def findall_def)
  then have pl: "with_children part_list
          (update_where (\<lambda>c. el_tag c = ''score-part'') (rename_score_part self) (el_children part_list))
          = Inr part_list"
    by (simp add: with_children_def set_children_id)
  have "update_first (\<lambda>c. el_tag c = ''part-list'')
          (\<lambda>part_list. with_children part_list
              (update_where (\<lambda>c. el_tag c = ''score-part'') (rename_score_part self)
                 (el_children part_list)))
          (el_children root_el) = Inr (el_children root_el)"
    using assms(1) pl by (intro update_first_id[where c = part_list]) (simp_all add: find_el_def)
  then show ?thesis
    using assms(1) by (simp add: rename_instruments_def with_children_def set_children_id)
qed

lemma find_el_apply_plan:
  assumes "find_el root_el ''part-list'' = Some part_list"
  shows "\<exists>part_list'. find_el (apply_plan self root_el) ''part-list'' = Some part_list'"
proof -
  let ?P = "\<lambda>c. el_tag c = ''part-list''"
  let ?g = "\<lambda>part_list. set_children part_list (relabel_score_parts self (el_children part_list))"
  have f: "List.find ?P (el_children root_el) = Some part_list"
    using assms by (simp add: find_el_def)
  then have "el_tag part_list = ''part-list''"
    by (auto simp: find_Some_iff)
  then have "List.find ?P (map_first ?P ?g (el_children root_el)) = Some (?g part_list)"
    by (intro find_map_first[OF f]) (simp add: set_simps)
  then show ?thesis
    by (simp add: apply_plan_def in_first_part_list_def find_el_def set_simps)
qed

lemma normalized_labels_Some:
  assumes "\<And>ent. ent \<in> set ents \<Longrightarrow> snd ent \<noteq> None"
    and "ent \<in> set (normalized_entities table ents)"
  shows "snd ent \<noteq> None"
proof -
  from assms(2) obtain j where j: "j < length ents"
    "ent = (fst (ents ! j), normalized_label table ents j)"
    by (auto simp: normalized_entities_def)
  have "snd (ents ! j) \<noteq> None" using assms(1) j(1) by simp
  then show ?thesis
    by (auto simp: j(2) normalized_label_def split: option.splits)
qed

lemma swap_map_nonempty: "create_instrument_swap_map \<noteq> []"
  by (simp add: create_instrument_swap_map_value)

lemma second_run_settled:
  assumes tf: "suffix_stable create_instrument_swap_map" "shadows_checked create_instrument_swap_map"
      "resolve create_instrument_swap_map ''French Horn'' = None"
    and run1: "process_xml (InstrumentManager root_el) = Inr self1"
    and dp: "distinct (map fst (part_entities root_el))"
    and di: "distinct (map fst (instrument_entities root_el))"
  shows "\<exists>self2. process_xml (InstrumentManager (root self1)) = Inr self2
           \<and> root self2 = root self1
           \<and> (\<forall>(k, rm) \<in> set (part_rename_dict self2) \<union> set (instrument_rename_dict self2).
                 swap_name rm = original_name rm)"
proof -
  let ?table = create_instrument_swap_map
  from process_xml_Inr[OF run1] obtain self0 part_list where
    d0: "find_generic_instrument_names (InstrumentManager root_el) root_el = Inr self0"
    and pl: "find_el root_el ''part-list'' = Some part_list"
    and s1: "self1 = (cleanup_names self0)\<lparr> root := apply_plan (cleanup_names self0) root_el \<rparr>"
    by blast
  let ?s1c = "cleanup_names self0"
  let ?d' = "apply_plan ?s1c root_el"
  let ?pe = "part_entities root_el" and ?ie = "instrument_entities root_el"
  let ?pe' = "normalized_entities ?table ?pe" and ?ie' = "normalized_entities ?table ?ie"
  have root1: "root self1 = ?d'" by (simp add: s1)
  have ne: "instrument_swap_map (InstrumentManager root_el) \<noteq> []"
    by (simp add: initial_state swap_map_nonempty)
  note labels1 = discovery_labels[OF d0 ne]
  note plans1 = discovered_plans(1,2)[OF d0]
  have pd1: "part_rename_dict ?s1c = cleanup (part_counter self0) (part_rename_dict self0)"
    and id1: "instrument_rename_dict ?s1c
                = cleanup (instrument_counter self0) (instrument_rename_dict self0)"
    by (simp_all add: cleanup_names_once)
  have pe': "part_entities ?d' = ?pe'"
    unfolding entities_apply_plan(1)[OF pl] pd1
    by (rule planned_is_normalized[OF dp plans1(1)])
  have "instrument_entities ?d'
           = map (planned_label (instrument_rename_dict ?s1c)) ?ie"
    by (rule entities_apply_plan(2)[OF pl]) (rule labels1(2))
  then have ie': "instrument_entities ?d' = ?ie'"
    unfolding id1 by (simp only: planned_is_normalized[OF di plans1(2)])
  have dp': "distinct (map fst ?pe')" and di': "distinct (map fst ?ie')"
    using dp di by (simp_all add: map_fst_normalized_entities)
  from find_el_apply_plan[OF pl] obtain part_list' where
    pl': "find_el ?d' ''part-list'' = Some part_list'" by blast
  have lp': "snd ent \<noteq> None" if "ent \<in> set (part_entities ?d')" for ent
    using that labels1(1) unfolding pe' by (rule normalized_labels_Some[rotated])
  have li': "snd ent \<noteq> None" if "ent \<in> set (instrument_entities ?d')" for ent
    using that labels1(2) unfolding ie' by (rule normalized_labels_Some[rotated])
  from discovery_succeeds[OF pl' lp' li', of "InstrumentManager ?d'"] obtain self2 where
    d2: "find_generic_instrument_names (InstrumentManager ?d') ?d' = Inr self2"
    by blast
  let ?s2c = "cleanup_names self2"
  note plans2 = discovered_plans[OF d2]
  have p2: "(part_counter self2, part_rename_dict self2)
              = fold (discover_entity ?table) ?pe' ([], [])"
    and i2: "(instrument_counter self2, instrument_rename_dict self2)
              = fold (discover_entity ?table) ?ie' ([], [])"
    using plans2(1,2) by (simp_all add: pe' ie')
  have pd2: "part_rename_dict ?s2c = cleanup (part_counter self2) (part_rename_dict self2)"
    and id2: "instrument_rename_dict ?s2c
                = cleanup (instrument_counter self2) (instrument_rename_dict self2)"
    by (simp_all add: cleanup_names_once)
  have root2: "root ?s2c = ?d'"
    using plans2(3) by (simp add: cleanup_names_once)
  have part: "rename_element sp' (part_rename_dict ?s2c) ''part-name'' = Inr sp'"
    if sp': "sp' \<in> set (score_parts ?d')" for sp'
  proof (rule rename_element_settled)
    fix rm assume m: "map_of (part_rename_dict ?s2c) (get sp' ''id'') = Some rm"
    then have mem: "(get sp' ''id'', rm) \<in> set (cleanup (part_counter self2) (part_rename_dict self2))"
      unfolding pd2 by (rule map_of_SomeD)
    note sp = second_plan_settled[OF tf dp p2 mem]
    have "l = Some (original_name rm)" if "l \<in> set (labels ''part-name'' sp')" for l
    proof -
      have "(get sp' ''id'', l) \<in> set (part_entities ?d')"
        using that sp' by (auto simp: part_entities_def part_entities_of_labels)
      with sp(2) dp' show ?thesis
        unfolding pe' by (meson same_key_same_label)
    qed
    with sp(1) show "swap_name rm = original_name rm
        \<and> (\<forall>l \<in> set (labels ''part-name'' sp'). l = Some (original_name rm))"
      by blast
  qed
  have instr: "rename_element si' (instrument_rename_dict ?s2c) ''instrument-name'' = Inr si'"
    if sp': "sp' \<in> set (score_parts ?d')" and si': "si' \<in> set (findall sp' ''score-instrument'')"
    for sp' si'
  proof (rule rename_element_settled)
    fix rm assume m: "map_of (instrument_rename_dict ?s2c) (get si' ''id'') = Some rm"
    then have mem: "(get si' ''id'', rm)
        \<in> set (cleanup (instrument_counter self2) (instrument_rename_dict self2))"
      unfolding id2 by (rule map_of_SomeD)
    note sp = second_plan_settled[OF tf di i2 mem]
    from sp(3) obtain j family where j: "j < length ?ie" "fst (?ie ! j) = get si' ''id''"
      "family_of ?table (snd (?ie ! j)) = Some family"
      by auto
    from plan_entry_of_matched[OF di plans1(2) j(1,3)] j(2) obtain rm1 where
      rm1: "map_of (instrument_rename_dict ?s1c) (get si' ''id'') = Some rm1"
      by (simp add: id1)
    from sp' obtain sp where sp0: "sp \<in> set (score_parts root_el)"
      "sp' = relabel_score_part ?s1c sp"
      by (auto simp: score_parts_apply_plan[OF pl])
    from si' sp0(2) obtain si where si: "si \<in> set (findall sp ''score-instrument'')"
      "si' = relabel (instrument_rename_dict ?s1c) ''instrument-name'' si"
      by (auto simp: findall_relabel_score_part_instruments)
    have id: "get si ''id'' = get si' ''id''"
      by (simp add: si(2) relabel_shape)
    have ls: "labels ''instrument-name'' si'
              = map (\<lambda>_. Some (swap_name rm1)) (labels ''instrument-name'' si)"
      using rm1 by (simp add: si(2) labels_relabel id)
    have "(get si' ''id'', instrument_label si') \<in> set (instrument_entities ?d')"
      using sp' si' by (auto simp: instrument_entities_def instrument_entities_of_def)
    with sp(2) di' have il: "instrument_label si' = Some (original_name rm)"
      unfolding ie' by (meson same_key_same_label)
    have "swap_name rm1 = original_name rm"
      using il ls by (cases "labels ''instrument-name'' si") (simp_all add: instrument_label_labels)
    with ls have "\<forall>l \<in> set (labels ''instrument-name'' si'). l = Some (original_name rm)"
      by auto
    with sp(1) show "swap_name rm = original_name rm
        \<and> (\<forall>l \<in> set (labels ''instrument-name'' si'). l = Some (original_name rm))"
      by blast
  qed
  have "rename_score_part ?s2c sp' = Inr sp'" if "sp' \<in> set (score_parts ?d')" for sp'
    by (rule rename_score_part_settled) (use that part instr in auto)
  then have r2: "rename_instruments ?s2c ?d' = Inr ?d'"
    by (rule rename_instruments_settled[OF pl'])
  have run2: "process_xml (InstrumentManager ?d') = Inr ?s2c"
    using d2 r2 root2 by (simp add: process_xml_def initial_state Let_def)
  have "swap_name rm = original_name rm"
    if "(k, rm) \<in> set (part_rename_dict ?s2c) \<union> set (instrument_rename_dict ?s2c)" for k rm
    using that second_plan_settled(1)[OF tf dp p2] second_plan_settled(1)[OF tf di i2]
    unfolding pd2 id2 by blast
  with run2 root2 root1 show ?thesis
    by (intro exI[of _ ?s2c]) auto
qed

lemma example_first_run:
  "process_xml (InstrumentManager example_score)
     = Inr ((cleanup_names example_discovered)\<lparr> root := example_normalized \<rparr>)"
  by code_simp

lemma example_entities_distinct:
  "distinct (map fst (part_entities example_score))
   \<and> distinct (map fst (instrument_entities example_score))"
  by code_simp

text \<open>
  Claim C5 says that every canonical family name of the table is itself a raw entry and
  resolves to itself.  "French Horn" is the family of "CineBrass French Horn", and
  resolving it finds no match.
\<close>
theorem french_horn_is_canonical_but_unresolved:
  "map_of create_instrument_swap_map ''CineBrass French Horn'' = Some ''French Horn''
   \<and> find_generic_name create_instrument_swap_map (Some ''French Horn'') [] = Inr (None, [])"
  by code_simp

text \<open>
  Claim C5, amended.  Every canonical family name of the table other than "French Horn"
  and the eight shadowed string names resolves to itself; "French Horn" resolves to no
  match.  A label that resolves to itself survives a run: the one-part score with that
  label comes back unchanged, with the proposed name equal to the label.  And a second run
  on any normalized document is a no-op: whenever a run on a document whose entity
  identifiers are unique within their kind succeeds, a run on the tree it leaves succeeds
  too, leaves that tree as it is, and proposes for every entity of its plans the name the
  entity has already, so that nothing is renumbered.
\<close>
theorem canonical_names_resolution:
  "map (resolve create_instrument_swap_map)
       (filter (\<lambda>family. family \<noteq> ''French Horn'' \<and> \<not> List.member shadowed_families family)
          (map snd create_instrument_swap_map)) =
   map Some
       (filter (\<lambda>family. family \<noteq> ''French Horn'' \<and> \<not> List.member shadowed_families family)
          (map snd create_instrument_swap_map))
   \<and> resolve create_instrument_swap_map ''French Horn'' = None
   \<and> (resolve create_instrument_swap_map label = Some label \<longrightarrow>
        process_xml (InstrumentManager (single_part_score label)) =
          Inr ((InstrumentManager (single_part_score label))
                 \<lparr> part_rename_dict :=
                     [(Some ''P1'', \<lparr> original_name = label, swap_name = label \<rparr>)],
                   part_counter := [(label, 1)] \<rparr>))
   \<and> (process_xml (InstrumentManager root_el) = Inr self1
        \<and> distinct (map fst (part_entities root_el))
        \<and> distinct (map fst (instrument_entities root_el)) \<longrightarrow>
        (\<exists>self2. process_xml (InstrumentManager (root self1)) = Inr self2
           \<and> root self2 = root self1
           \<and> (\<forall>(k, rm) \<in> set (part_rename_dict self2) \<union> set (instrument_rename_dict self2).
                 swap_name rm = original_name rm)))"
  using families_resolving_to_themselves french_horn_unresolved single_part_process[of label label]
    second_run_settled[OF table_suffix_stable table_shadows_checked french_horn_unresolved,
      of root_el self1]
  by blast

theorem canonical_names_resolution_witness:
  "resolve create_instrument_swap_map ''Harp'' = Some ''Harp''
   \<and> process_xml (InstrumentManager (single_part_score ''Harp'')) =
          Inr ((InstrumentManager (single_part_score ''Harp''))
                 \<lparr> part_rename_dict :=
                     [(Some ''P1'', \<lparr> original_name = ''Harp'', swap_name = ''Harp'' \<rparr>)],
                   part_counter := [(''Harp'', 1)] \<rparr>)
   \<and> process_xml (InstrumentManager example_score)
        = Inr ((cleanup_names example_discovered)\<lparr> root := example_normalized \<rparr>)
   \<and> distinct (map fst (part_entities example_score))
   \<and> distinct (map fst (instrument_entities example_score))
   \<and> (\<exists>self2. process_xml (InstrumentManager example_normalized) = Inr self2
         \<and> root self2 = example_normalized
         \<and> list_all (\<lambda>(k, rm). swap_name rm = original_name rm)
              (part_rename_dict self2 @ instrument_rename_dict self2))"
proof -
  have r: "resolve create_instrument_swap_map ''Harp'' = Some ''Harp''"
    by code_simp
  note inst = canonical_names_resolution
    [of "''Harp''" example_score "(cleanup_names example_discovered)\<lparr> root := example_normalized \<rparr>"]
  from inst r have 1: "process_xml (InstrumentManager (single_part_score ''Harp'')) =
          Inr ((InstrumentManager (single_part_score ''Harp''))
                 \<lparr> part_rename_dict :=
                     [(Some ''P1'', \<lparr> original_name = ''Harp'', swap_name = ''Harp'' \<rparr>)],
                   part_counter := [(''Harp'', 1)] \<rparr>)"
    by blast
  from inst example_first_run example_entities_distinct
  obtain self2 where 2: "process_xml (InstrumentManager example_normalized) = Inr self2"
    "root self2 = example_normalized"
    "\<forall>(k, rm) \<in> set (part_rename_dict self2) \<union> set (instrument_rename_dict self2).
        swap_name rm = original_name rm"
    by auto
  from 2(3) have "list_all (\<lambda>(k, rm). swap_name rm = original_name rm)
              (part_rename_dict self2 @ instrument_rename_dict self2)"
    by (auto simp: list_all_iff)
  with r 1 2(1,2) example_first_run example_entities_distinct show ?thesis
    by blast
qed

end
